(* ===== verification/Prelude.thy ===== *)
theory Prelude
  imports Complex_Main "HOL-Library.AList"
begin

text \<open>
  What every component of the model shares: Python dictionaries as association lists in
  insertion order, Python values and exceptions, the environment a component reads (clocks,
  random identifiers, event loops), and the contract of a transition system with an
  invariant.

  Strings are Isabelle strings (character lists); floats are reals, so rounding is outside
  the model. A clock is an oracle: the \<open>n\<close>-th read returns \<open>w_wall w n\<close>, and nothing
  is assumed of the values unless a theorem says so.
\<close>

named_theorems dict_simps \<open>facts about Python dictionaries\<close>
named_theorems py_defs \<open>definitions of the Python primitives\<close>

section \<open>Dictionaries\<close>

text \<open>
  A Python \<open>dict\<close> keeps the order in which its keys were first stored; a store under an
  existing key keeps its place. That is \<open>AList.update\<close>; \<open>pop(k, None)\<close> is
  \<open>AList.delete\<close>, \<open>get\<close> is \<open>map_of\<close>.
\<close>

type_synonym ('k, 'v) dict = "('k \<times> 'v) list"

abbreviation dict_set :: "'k \<Rightarrow> 'v \<Rightarrow> ('k, 'v) dict \<Rightarrow> ('k, 'v) dict" where
  "dict_set \<equiv> AList.update"

abbreviation dict_pop :: "'k \<Rightarrow> ('k, 'v) dict \<Rightarrow> ('k, 'v) dict" where
  "dict_pop \<equiv> AList.delete"

abbreviation dict_keys :: "('k, 'v) dict \<Rightarrow> 'k list" where
  "dict_keys d \<equiv> map fst d"

definition dict_ok :: "('k, 'v) dict \<Rightarrow> bool" where
  "dict_ok d \<longleftrightarrow> distinct (dict_keys d)"

definition dict_get_or :: "('k, 'v) dict \<Rightarrow> 'k \<Rightarrow> 'v \<Rightarrow> 'v" where
  "dict_get_or d k v = (case map_of d k of None \<Rightarrow> v | Some x \<Rightarrow> x)"

lemma dict_get_set [dict_simps]:
  "map_of (dict_set k v d) k' = (if k' = k then Some v else map_of d k')"
  by (simp add: update_conv)

lemma dict_get_pop [dict_simps]:
  "map_of (dict_pop k d) k' = (if k' = k then None else map_of d k')"
  by (simp add: delete_conv')

lemma dict_ok_Nil [simp]: "dict_ok []"
  by (simp add: dict_ok_def)

lemma dict_ok_set [simp]: "dict_ok d \<Longrightarrow> dict_ok (dict_set k v d)"
  by (simp add: dict_ok_def distinct_update)

lemma dict_ok_pop [simp]: "dict_ok d \<Longrightarrow> dict_ok (dict_pop k d)"
  by (simp add: dict_ok_def distinct_delete)

lemma dict_mem_iff: "dict_ok d \<Longrightarrow> (k, v) \<in> set d \<longleftrightarrow> map_of d k = Some v"
  by (simp add: dict_ok_def)

lemma map_of_eq_None: "map_of d k = None \<longleftrightarrow> k \<notin> set (dict_keys d)"
  by (induction d) auto

lemma dict_get_or_set [dict_simps]:
  "dict_get_or (dict_set k v d) k' x = (if k' = k then v else dict_get_or d k' x)"
  by (simp add: dict_get_or_def dict_simps)

lemma dict_get_or_pop [dict_simps]:
  "dict_get_or (dict_pop k d) k' x = (if k' = k then x else dict_get_or d k' x)"
  by (simp add: dict_get_or_def dict_simps)

lemma dict_pop_filter: "dict_pop k d = filter (\<lambda>p. fst p \<noteq> k) d"
  by (induction d) auto

subsection \<open>The contract of a keyed store\<close>

text \<open>
  Several components keep objects under string keys (runs, sessions, consoles,
  subscriptions). What their clients rely on is this contract; a component's interpretation
  proves it for the component's own operations.
\<close>

locale keyed_store =
  fixes get :: "'s \<Rightarrow> 'k \<Rightarrow> 'v option"
    and put :: "'k \<Rightarrow> 'v \<Rightarrow> 's \<Rightarrow> 's"
    and drop_key :: "'k \<Rightarrow> 's \<Rightarrow> 's"
    and ok :: "'s \<Rightarrow> bool"
  assumes get_put: "ok s \<Longrightarrow> get (put k v s) k' = (if k' = k then Some v else get s k')"
    and get_drop: "ok s \<Longrightarrow> get (drop_key k s) k' = (if k' = k then None else get s k')"
    and ok_put: "ok s \<Longrightarrow> ok (put k v s)"
    and ok_drop: "ok s \<Longrightarrow> ok (drop_key k s)"
begin

lemma put_other: "ok s \<Longrightarrow> k' \<noteq> k \<Longrightarrow> get (put k v s) k' = get s k'"
  by (simp add: get_put)

lemma drop_put: "ok s \<Longrightarrow> get (drop_key k (put k v s)) k' = get (drop_key k s) k'"
  by (simp add: get_put get_drop ok_put)

lemma ok_drop_all: "ok s \<Longrightarrow> ok (fold drop_key ks s)"
  by (induction ks arbitrary: s) (simp_all add: ok_drop)

lemma get_drop_all:
  "ok s \<Longrightarrow> get (fold drop_key ks s) k' = (if k' \<in> set ks then None else get s k')"
  by (induction ks arbitrary: s) (auto simp: get_drop ok_drop)

end

interpretation py_dict: keyed_store map_of dict_set dict_pop dict_ok
  by unfold_locales (simp_all add: dict_simps)

section \<open>Python values and exceptions\<close>

datatype pyval =
    VNone
  | VBool bool
  | VInt int
  | VStr string
  | VList "pyval list"
  | VDict "(string \<times> pyval) list"
  | VObj nat

text \<open>
  The exception classes the program raises, catches or names. \<open>CancelledErrorC\<close> is
  \<open>asyncio.CancelledError\<close>, which since Python 3.8 derives from \<open>BaseException\<close> and not
  from \<open>Exception\<close>; a class of the user's code is \<open>UserC\<close> and derives from
  \<open>Exception\<close>.
\<close>

datatype exc_class =
    BaseExceptionC
  | ExceptionC
  | ValueErrorC
  | TypeErrorC
  | KeyErrorC
  | IndexErrorC
  | RuntimeErrorC
  | PermissionErrorC
  | TimeoutErrorC
  | CancelledErrorC
  | KeyboardInterruptC
  | QueueFullC
  | ConsoleInitExceptionC
  | ConsoleExitC
  | SubConsoleExitC
  | AttributeErrorC
  | ValidationErrorC
  | UserC string

datatype pyexc = PyExc (exc_cls: exc_class) (exc_msg: string)

type_synonym 'a res = "pyexc + 'a"

fun exc_mro :: "exc_class \<Rightarrow> exc_class list" where
  "exc_mro BaseExceptionC = [BaseExceptionC]"
| "exc_mro ExceptionC = [ExceptionC, BaseExceptionC]"
| "exc_mro CancelledErrorC = [CancelledErrorC, BaseExceptionC]"
| "exc_mro KeyboardInterruptC = [KeyboardInterruptC, BaseExceptionC]"
| "exc_mro c = [c, ExceptionC, BaseExceptionC]"

definition isinstance_exc :: "pyexc \<Rightarrow> exc_class \<Rightarrow> bool" where
  "isinstance_exc e c \<longleftrightarrow> c \<in> set (exc_mro (exc_cls e))"

definition isinstance_any :: "pyexc \<Rightarrow> exc_class list \<Rightarrow> bool" where
  "isinstance_any e cs \<longleftrightarrow> list_ex (isinstance_exc e) cs"

lemma isinstance_self [simp]: "isinstance_exc (PyExc c m) c"
  by (cases c) (simp_all add: isinstance_exc_def)

lemma isinstance_Base [simp]: "isinstance_exc e BaseExceptionC"
  by (cases e; cases "exc_cls e") (auto simp: isinstance_exc_def)

section \<open>Optional values as Python's truth tests read them\<close>

text \<open>\<open>x or y\<close> on an optional string: the empty string counts as missing.\<close>

definition truthy_str :: "string option \<Rightarrow> bool" where
  "truthy_str s \<longleftrightarrow> s \<noteq> None \<and> s \<noteq> Some []"

definition or_str :: "string option \<Rightarrow> string option \<Rightarrow> string option" where
  "or_str a b = (if truthy_str a then a else b)"

lemma truthy_str_simps [simp]:
  "\<not> truthy_str None" "\<not> truthy_str (Some [])" "truthy_str (Some (c # cs))"
  by (simp_all add: truthy_str_def)

lemma or_str_simps [simp]:
  "or_str None b = b" "or_str (Some []) b = b" "or_str (Some (c # cs)) b = Some (c # cs)"
  by (simp_all add: or_str_def)

section \<open>The environment: clocks, identifiers, event loops\<close>

text \<open>
  \<open>w_wall\<close> answers \<open>time.time()\<close>, \<open>w_mono\<close> answers \<open>time.monotonic()\<close> and
  \<open>w_uuid\<close> answers \<open>uuid.uuid4()\<close>; the counters say how many reads were made.
  \<open>w_loop_running\<close> says which event loops run, and \<open>w_cur_loop\<close> is the loop that
  runs in the calling thread (\<open>asyncio.get_running_loop()\<close>, \<open>None\<close> where that
  raises \<open>RuntimeError\<close>).
\<close>

record world =
  w_wall :: "nat \<Rightarrow> real"
  w_mono :: "nat \<Rightarrow> real"
  w_uuid :: "nat \<Rightarrow> string"
  w_reads :: nat
  w_uuids :: nat
  w_loop_running :: "nat \<Rightarrow> bool"
  w_cur_loop :: "nat option"

definition read_wall :: "'a world_scheme \<Rightarrow> real \<times> 'a world_scheme" where
  "read_wall w = (w_wall w (w_reads w), w\<lparr>w_reads := Suc (w_reads w)\<rparr>)"

definition read_mono :: "'a world_scheme \<Rightarrow> real \<times> 'a world_scheme" where
  "read_mono w = (w_mono w (w_reads w), w\<lparr>w_reads := Suc (w_reads w)\<rparr>)"

definition fresh_uuid :: "'a world_scheme \<Rightarrow> string \<times> 'a world_scheme" where
  "fresh_uuid w = (w_uuid w (w_uuids w), w\<lparr>w_uuids := Suc (w_uuids w)\<rparr>)"

definition loop_is_running :: "'a world_scheme \<Rightarrow> nat option \<Rightarrow> bool" where
  "loop_is_running w l = (case l of None \<Rightarrow> False | Some i \<Rightarrow> w_loop_running w i)"

section \<open>Transition systems with an invariant\<close>

text \<open>
  The contract of a component that runs as a state machine: a set of initial states, a step
  relation, and an invariant that the initial states satisfy and every step keeps. Its
  client lemma is that the invariant holds in every state a run can reach.
\<close>

locale invariant_system =
  fixes init :: "'s \<Rightarrow> bool"
    and step :: "'s \<Rightarrow> 's \<Rightarrow> bool"
    and inv :: "'s \<Rightarrow> bool"
  assumes inv_init: "init s \<Longrightarrow> inv s"
    and inv_step: "inv s \<Longrightarrow> step s t \<Longrightarrow> inv t"
begin

lemma inv_steps: "rtranclp step s t \<Longrightarrow> inv s \<Longrightarrow> inv t"
  by (induction rule: rtranclp_induct) (auto intro: inv_step)

lemma inv_reachable: "init s \<Longrightarrow> rtranclp step s t \<Longrightarrow> inv t"
  by (blast intro: inv_init inv_steps)

lemma stable_reachable:
  assumes "init s" and "rtranclp step s t" and "rtranclp step t u" and "P t"
    and "\<And>x y. inv x \<Longrightarrow> P x \<Longrightarrow> step x y \<Longrightarrow> P y"
  shows "P u"
proof -
  have "inv t" using assms(1,2) by (rule inv_reachable)
  from assms(3) this assms(4) have "inv u \<and> P u"
    by (induction rule: rtranclp_induct) (auto intro: inv_step assms(5))
  then show ?thesis ..
qed

end

text \<open>A system whose steps never take something back: a rank in an ordered type only grows.\<close>

locale monotone_system = invariant_system init step inv
  for init :: "'s \<Rightarrow> bool" and step :: "'s \<Rightarrow> 's \<Rightarrow> bool" and inv :: "'s \<Rightarrow> bool" +
  fixes rank :: "'s \<Rightarrow> 'o::order"
  assumes rank_step: "inv s \<Longrightarrow> step s t \<Longrightarrow> rank s \<le> rank t"
begin

lemma rank_grows:
  assumes "init s" and "rtranclp step s t" and "rtranclp step t u"
  shows "rank t \<le> rank u"
  by (rule stable_reachable [OF assms, where P = "\<lambda>x. rank t \<le> rank x"]) (auto intro: order_trans rank_step)

end

section \<open>Lists\<close>

lemma length_filter_split:
  "length xs = length (filter P xs) + length (filter (\<lambda>x. \<not> P x) xs)"
  by (induction xs) auto

lemma remove1_filter_None: "x \<notin> set xs \<Longrightarrow> remove1 x xs = xs"
  by (rule remove1_idem)

lemma set_dropWhile_subset: "set (dropWhile P xs) \<subseteq> set xs"
  by (auto dest: set_dropWhileD)

lemma drop_append_last:
  "n \<le> length xs \<Longrightarrow> drop n (xs @ ys) = drop n xs @ ys"
  by simp

end
