(* ===== verification/Tokenizer.thy ===== *)
theory Tokenizer
  imports Prelude
begin

text \<open>
  Command lines (\<open>utils/tokenize.py\<close>): \<open>shlex.split\<close> in POSIX mode as the character machine
  that \<open>shlex.read_token\<close> runs, and the functions on top of it. Characters are those of
  Latin-1; \<open>str.strip\<close> drops more kinds of space than \<open>shlex\<close> separates words by.
\<close>

section \<open>Spaces\<close>

definition py_space :: "char \<Rightarrow> bool" where
  "py_space c \<longleftrightarrow> of_char c \<in> {9, 10, 11, 12, 13, 28, 29, 30, 31, 32, 133, 160 :: nat}"

definition lex_space :: "char \<Rightarrow> bool" where
  "lex_space c \<longleftrightarrow> of_char c \<in> {9, 10, 13, 32 :: nat}"

definition py_lstrip :: "string \<Rightarrow> string" where
  "py_lstrip s = dropWhile py_space s"

definition py_rstrip :: "string \<Rightarrow> string" where
  "py_rstrip s = rev (dropWhile py_space (rev s))"

definition py_strip :: "string \<Rightarrow> string" where
  "py_strip s = py_rstrip (py_lstrip s)"

section \<open>The lexer\<close>

abbreviation squote :: char where "squote \<equiv> CHR 0x27"
abbreviation dquote :: char where "dquote \<equiv> CHR 0x22"
abbreviation backslash :: char where "backslash \<equiv> CHR 0x5C"

text \<open>
  The states of \<open>read_token\<close>: between words, in a word, inside a quotation, and after a
  backslash, which returns to a word or to a double quotation.
\<close>

datatype lex_state = Blank | InWord | InQuote char | Escaped bool

fun cons_res :: "string \<Rightarrow> string list res \<Rightarrow> string list res" where
  "cons_res t (Inl e) = Inl e"
| "cons_res t (Inr ts) = Inr (t # ts)"

definition emit :: "string \<Rightarrow> bool \<Rightarrow> string list res \<Rightarrow> string list res" where
  "emit tok quoted r = (if tok \<noteq> [] \<or> quoted then cons_res tok r else r)"

fun lex :: "lex_state \<Rightarrow> string \<Rightarrow> bool \<Rightarrow> string \<Rightarrow> string list res" where
  "lex Blank tok quoted [] = emit tok quoted (Inr [])"
| "lex InWord tok quoted [] = emit tok quoted (Inr [])"
| "lex (InQuote q) tok quoted [] = Inl (PyExc ValueErrorC ''No closing quotation'')"
| "lex (Escaped d) tok quoted [] = Inl (PyExc ValueErrorC ''No escaped character'')"
| "lex Blank tok quoted (c # cs) =
    (if lex_space c then emit tok quoted (lex Blank [] False cs)
     else if c = backslash then lex (Escaped False) tok quoted cs
     else if c = squote \<or> c = dquote then lex (InQuote c) tok quoted cs
     else lex InWord [c] quoted cs)"
| "lex InWord tok quoted (c # cs) =
    (if lex_space c then emit tok quoted (lex Blank [] False cs)
     else if c = squote \<or> c = dquote then lex (InQuote c) tok quoted cs
     else if c = backslash then lex (Escaped False) tok quoted cs
     else lex InWord (tok @ [c]) quoted cs)"
| "lex (InQuote q) tok quoted (c # cs) =
    (if c = q then lex InWord tok True cs
     else if c = backslash \<and> q = dquote then lex (Escaped True) tok True cs
     else lex (InQuote q) (tok @ [c]) True cs)"
| "lex (Escaped d) tok quoted (c # cs) =
    lex (if d then InQuote dquote else InWord)
      (tok @ (if d \<and> c \<noteq> backslash \<and> c \<noteq> dquote then [backslash, c] else [c])) quoted cs"

definition shlex_split :: "string \<Rightarrow> string list res" where
  "shlex_split s = lex Blank [] False s"

definition tokenize_cmd :: "string \<Rightarrow> string list res" where
  "tokenize_cmd cmd =
    (let s = py_strip cmd in
     if s = [] then Inr []
     else case shlex_split s of
            Inl e \<Rightarrow> if isinstance_exc e ValueErrorC
                     then Inl (PyExc ValueErrorC ''Invalid command arguments'') else Inl e
          | Inr ts \<Rightarrow> Inr ts)"

definition get_command_token :: "string \<Rightarrow> string res" where
  "get_command_token cmd =
    (case tokenize_cmd cmd of Inl e \<Rightarrow> Inl e | Inr ts \<Rightarrow> Inr (case ts of [] \<Rightarrow> [] | t # _ \<Rightarrow> t))"

definition get_func_param_strs :: "string \<Rightarrow> int \<Rightarrow> string list option res" where
  "get_func_param_strs cmd param_count =
    (if param_count \<le> 0 then Inr None
     else let s = py_strip cmd in
       if s = [] then Inr (Some [])
       else case tokenize_cmd s of
              Inl e \<Rightarrow> Inl e
            | Inr ts \<Rightarrow> Inr (Some (if param_count = 1 \<and> length ts \<noteq> 1 then [s] else ts)))"

fun join_sp :: "string list \<Rightarrow> string" where
  "join_sp [] = []"
| "join_sp [a] = a"
| "join_sp (a # as) = a @ CHR '' '' # join_sp as"

definition split_cmd :: "string \<Rightarrow> (string \<times> string \<times> string list) res" where
  "split_cmd cmd =
    (let stripped = py_lstrip cmd in
     if stripped = [] then Inr ([], [], [])
     else case tokenize_cmd stripped of
            Inl e \<Rightarrow> Inl e
          | Inr [] \<Rightarrow> Inr ([], [], [])
          | Inr (token # rest) \<Rightarrow>
              Inr (token,
                   (if take (length token) stripped = token then py_lstrip (drop (length token) stripped)
                    else join_sp rest),
                   token # rest))"

section \<open>Words without quoting\<close>

definition plain :: "string \<Rightarrow> bool" where
  "plain s \<longleftrightarrow> squote \<notin> set s \<and> dquote \<notin> set s \<and> backslash \<notin> set s"

text \<open>The reference for such lines: split at runs of separators.\<close>

function split_words :: "string \<Rightarrow> string list" where
  "split_words s =
    (case dropWhile lex_space s of
       [] \<Rightarrow> []
     | c # cs \<Rightarrow> (c # takeWhile (\<lambda>x. \<not> lex_space x) cs) # split_words (dropWhile (\<lambda>x. \<not> lex_space x) cs))"
  by pat_completeness auto
termination
proof (relation "measure length")
  fix s c cs
  assume d: "dropWhile lex_space s = c # cs"
  have "length (dropWhile (\<lambda>x. \<not> lex_space x) cs) \<le> length cs" by (rule length_dropWhile_le)
  also have "length cs < length (dropWhile lex_space s)" by (simp add: d)
  also have "\<dots> \<le> length s" by (rule length_dropWhile_le)
  finally show "(dropWhile (\<lambda>x. \<not> lex_space x) cs, s) \<in> measure length" by simp
qed simp

declare split_words.simps [simp del]

lemma emit_simps [simp]:
  "emit [] False r = r" "tok \<noteq> [] \<Longrightarrow> emit tok q r = cons_res tok r"
  "emit tok True r = cons_res tok r"
  by (simp_all add: emit_def)

lemma lex_spaces: "lex Blank [] False (dropWhile lex_space s) = lex Blank [] False s"
  by (induction s) simp_all

lemma plain_Cons [simp]: "plain (c # cs) \<longleftrightarrow> c \<noteq> squote \<and> c \<noteq> dquote \<and> c \<noteq> backslash \<and> plain cs"
  by (auto simp: plain_def)

lemma plain_append [simp]: "plain (s @ t) \<longleftrightarrow> plain s \<and> plain t"
  by (auto simp: plain_def)

lemma plain_Nil [simp]: "plain []"
  by (simp add: plain_def)

text \<open>A bare word in front of a separator or the end of the line is one token.\<close>

lemma lex_in_word:
  assumes "plain w" and "\<forall>c \<in> set w. \<not> lex_space c" and "s = [] \<or> lex_space (hd s)" and "tok \<noteq> []"
  shows "lex InWord tok False (w @ s) = cons_res (tok @ w) (lex Blank [] False s)"
  using assms
proof (induction w arbitrary: tok)
  case Nil
  then show ?case by (cases s) simp_all
qed simp

lemma lex_word:
  assumes "plain w" and "\<forall>c \<in> set w. \<not> lex_space c" and "s = [] \<or> lex_space (hd s)" and "w \<noteq> []"
  shows "lex Blank [] False (w @ s) = cons_res w (lex Blank [] False s)"
proof (cases w)
  case (Cons c cs)
  then show ?thesis using assms lex_in_word [of cs s "[c]"] by simp
qed (use assms in simp)

lemma lex_plain: "plain s \<Longrightarrow> lex Blank [] False s = Inr (split_words s)"
proof (induction s rule: split_words.induct)
  case (1 s)
  show ?case
  proof (cases "dropWhile lex_space s")
    case Nil
    then have "split_words s = []" by (simp only: split_words.simps [of s] Nil list.case)
    moreover have "lex Blank [] False s = lex Blank [] False []" using lex_spaces [of s] Nil by metis
    ultimately show ?thesis by simp
  next
    case (Cons c cs)
    let ?p = "\<lambda>x. \<not> lex_space x"
    have cs: "plain (c # cs)" using 1(2) Cons set_dropWhileD [of _ lex_space s]
      unfolding plain_def by metis
    have c: "\<not> lex_space c" using Cons hd_dropWhile [of lex_space s] by auto
    have sub: "plain (takeWhile ?p cs @ dropWhile ?p cs)" using cs by simp
    then have pl: "plain (takeWhile ?p cs)" "plain (dropWhile ?p cs)" unfolding plain_append by simp_all
    have "lex Blank [] False s = lex Blank [] False ((c # takeWhile ?p cs) @ dropWhile ?p cs)"
      using lex_spaces [of s] Cons by simp
    also have "\<dots> = cons_res (c # takeWhile ?p cs) (lex Blank [] False (dropWhile ?p cs))"
      using cs c pl hd_dropWhile [of ?p cs]
      by (intro lex_word) (auto dest: set_takeWhileD)
    also have "\<dots> = Inr (split_words s)"
      using 1(1) [OF Cons pl(2)] by (simp add: split_words.simps [of s] Cons)
    finally show ?thesis .
  qed
qed

section \<open>Quoting\<close>

text \<open>Single quotes around an argument, a single quote inside written as \<open>'"'"'\<close>.\<close>

definition quote_char :: "char \<Rightarrow> string" where
  "quote_char c = (if c = squote then [squote, dquote, squote, dquote, squote] else [c])"

definition quote_arg :: "string \<Rightarrow> string" where
  "quote_arg a = squote # concat (map quote_char a) @ [squote]"

lemma lex_quoted:
  "lex (InQuote squote) tok True (concat (map quote_char a) @ squote # s) = lex InWord (tok @ a) True s"
  by (induction a arbitrary: tok) (simp_all add: quote_char_def lex_space_def)

lemma lex_quoted_first:
  "lex (InQuote squote) tok False (concat (map quote_char a) @ squote # s) = lex InWord (tok @ a) True s"
proof (cases a)
  case (Cons c cs)
  then show ?thesis
    using lex_quoted [of "tok @ [c]" cs s]
    by (cases "c = squote") (simp_all add: quote_char_def lex_space_def)
qed simp

lemma lex_quote_arg:
  assumes "s = [] \<or> lex_space (hd s)"
  shows "lex Blank [] False (quote_arg a @ s) = cons_res a (lex Blank [] False s)"
  using assms by (cases s) (simp_all add: quote_arg_def lex_quoted_first lex_space_def)

lemma lex_join_quoted: "lex Blank [] False (join_sp (map quote_arg args)) = Inr args"
proof (induction args rule: induct_list012)
  case (2 a)
  then show ?case using lex_quote_arg [of "[]" a] by simp
next
  case (3 a b args)
  then show ?case
    using lex_quote_arg [of "CHR '' '' # join_sp (map quote_arg (b # args))" a]
    by (simp add: lex_space_def)
qed simp

section \<open>Stripping\<close>

lemma rstrip_append:
  assumes "u \<noteq> []" and "\<not> py_space (last u)"
  shows "py_rstrip (u @ v) = u @ py_rstrip v"
proof -
  have "rev u = last u # rev (butlast u)"
    using assms(1) by (metis append_butlast_last_id rev_eq_Cons_iff rev_rev_ident)
  then have "rev (dropWhile py_space (rev u)) = u" using assms by (metis dropWhile.simps(2) rev_rev_ident)
  then show ?thesis by (auto simp: py_rstrip_def dropWhile_append)
qed

lemma rstrip_Nil [simp]: "py_rstrip [] = []"
  by (simp add: py_rstrip_def)

lemma rstrip_prefix: "\<exists>t. s = py_rstrip s @ t"
  unfolding py_rstrip_def by (metis rev_append rev_rev_ident takeWhile_dropWhile_id)

lemma lstrip_idem [simp]: "py_lstrip (py_lstrip s) = py_lstrip s"
  by (simp add: py_lstrip_def)

lemma rstrip_lstrip: "py_rstrip (py_lstrip s) = py_lstrip (py_rstrip s)"
proof (cases "dropWhile py_space s")
  case Nil
  then have r: "py_rstrip s = []" by (simp add: py_rstrip_def)
  show ?thesis unfolding py_lstrip_def Nil r by simp
next
  case (Cons c cs)
  let ?u = "takeWhile py_space s @ [c]"
  have c: "\<not> py_space c" using Cons hd_dropWhile [of py_space s] by auto
  have "s = ?u @ cs" using Cons takeWhile_dropWhile_id [of py_space s] by simp
  then have "py_rstrip s = ?u @ py_rstrip cs" using c rstrip_append [of ?u cs] by simp
  moreover have "dropWhile py_space (takeWhile py_space s @ c # py_rstrip cs) = c # py_rstrip cs"
    using c by (subst dropWhile_append2) (auto dest: set_takeWhileD)
  ultimately show ?thesis
    using c Cons rstrip_append [of "[c]" cs] by (simp add: py_lstrip_def)
qed

lemma strip_id:
  assumes "s \<noteq> []" and "\<not> py_space (hd s)" and "\<not> py_space (last s)"
  shows "py_strip s = s"
proof -
  have "py_lstrip s = s" using assms(1,2) by (cases s) (simp_all add: py_lstrip_def)
  then show ?thesis using rstrip_append [OF assms(1,3), of "[]"] by (simp add: py_strip_def)
qed

lemma quote_arg_ends: "quote_arg a \<noteq> []" "hd (quote_arg a) = squote" "last (quote_arg a) = squote"
  by (simp_all add: quote_arg_def)

lemma join_quoted_ends:
  assumes "args \<noteq> []"
  shows "join_sp (map quote_arg args) \<noteq> []" "hd (join_sp (map quote_arg args)) = squote"
    "last (join_sp (map quote_arg args)) = squote"
  using assms by (induction args rule: induct_list012) (simp_all add: quote_arg_ends)

lemma join_quoted_strip: "py_strip (join_sp (map quote_arg args)) = join_sp (map quote_arg args)"
proof (cases "args = []")
  case False
  have "\<not> py_space squote" by (simp add: py_space_def)
  then show ?thesis using join_quoted_ends [OF False] by (intro strip_id) simp_all
qed (simp add: py_strip_def py_lstrip_def)

text \<open>Leading separators are of no account, so they may be stripped first.\<close>

lemma lex_lstrip:
  assumes "\<forall>c \<in> set s. py_space c \<longrightarrow> lex_space c"
  shows "lex Blank [] False (py_lstrip s) = lex Blank [] False s"
  using assms unfolding py_lstrip_def
proof (induction s)
  case (Cons c cs)
  then show ?case by (cases "py_space c") simp_all
qed simp

lemma lex_space_py: "lex_space c \<Longrightarrow> py_space c"
  by (auto simp: lex_space_def py_space_def)

section \<open>Properties\<close>

text \<open>C11: arguments round-trip through a command line. Whatever the arguments contain - spaces,
  quotes, backslashes, nothing at all - quoting each and joining them with spaces gives a line that
  \<open>tokenize_cmd\<close> takes apart into the same arguments.\<close>

theorem tokenize_roundtrip: "tokenize_cmd (join_sp (map quote_arg args)) = Inr args"
  unfolding tokenize_cmd_def join_quoted_strip Let_def shlex_split_def lex_join_quoted
  using join_quoted_ends(1) [of args] by (cases "args = []") simp_all

text \<open>On a line without quotes and backslashes the lexer's state machine does what splitting
  does: the tokens are the words between runs of separators of the stripped line.\<close>

theorem tokenize_plain_words:
  assumes "plain cmd"
  shows "tokenize_cmd cmd = Inr (split_words (py_strip cmd))"
proof -
  have "set (py_strip cmd) \<subseteq> set cmd"
    unfolding py_strip_def py_rstrip_def py_lstrip_def by (auto dest!: set_dropWhileD)
  then have "plain (py_strip cmd)" using assms by (auto simp: plain_def)
  then show ?thesis
    by (simp add: tokenize_cmd_def shlex_split_def lex_plain Let_def)
      (simp add: split_words.simps [of "[]"])
qed

lemma tokenize_plain_words_witness:
  "tokenize_cmd ''  use  a b '' = Inr [''use'', ''a'', ''b'']"
proof -
  have "plain ''  use  a b ''" by code_simp
  moreover have "split_words (py_strip ''  use  a b '') = [''use'', ''a'', ''b'']" by code_simp
  ultimately show ?thesis using tokenize_plain_words by metis
qed

text \<open>\<open>split_cmd\<close> agrees with the tokenizer. When the first word of a line is written
  without quotes or backslashes (and the line holds no spaces that only \<open>str.strip\<close> knows),
  the command token is that word and tokenizing the argument text gives exactly the remaining
  tokens, so what the validator counts is what the command receives.\<close>

theorem split_cmd_consistent:
  fixes cmd :: string
  defines "w \<equiv> takeWhile (\<lambda>c. \<not> lex_space c) (py_lstrip cmd)"
  defines "rest \<equiv> py_lstrip (dropWhile (\<lambda>c. \<not> lex_space c) (py_lstrip cmd))"
  assumes ne: "py_lstrip cmd \<noteq> []" and sp: "\<forall>c \<in> set cmd. py_space c \<longrightarrow> lex_space c" and pl: "plain w"
  shows "split_cmd cmd =
    (case tokenize_cmd rest of Inl e \<Rightarrow> Inl e | Inr args \<Rightarrow> Inr (w, rest, w # args))"
proof -
  let ?p = "\<lambda>c. \<not> lex_space c" and ?l = "py_lstrip cmd"
  define s where "s = dropWhile ?p ?l"
  have l: "?l = w @ s" by (simp add: w_def s_def)
  have sub: "set ?l \<subseteq> set cmd" unfolding py_lstrip_def by (auto dest: set_dropWhileD)
  have "\<not> py_space (hd ?l)" using ne hd_dropWhile [of py_space cmd] by (simp add: py_lstrip_def)
  then have w: "w \<noteq> []" using ne lex_space_py by (cases ?l) (auto simp: w_def)
  have wl: "\<forall>c \<in> set w. \<not> lex_space c" by (auto simp: w_def dest: set_takeWhileD)
  have "last w \<in> set cmd" using w l sub by auto
  then have r: "py_rstrip ?l = w @ py_rstrip s"
    unfolding l using w wl sp by (intro rstrip_append) auto
  have s: "py_rstrip s = [] \<or> lex_space (hd (py_rstrip s))"
    using rstrip_prefix [of s] hd_dropWhile [of ?p ?l] unfolding s_def [symmetric]
    by (metis append_is_Nil_conv hd_append2)
  have ls: "lex Blank [] False (py_lstrip (py_rstrip s)) = lex Blank [] False (py_rstrip s)"
  proof (rule lex_lstrip)
    have "set (py_rstrip s) \<subseteq> set s" using rstrip_prefix [of s] by (metis set_append sup_ge1)
    then show "\<forall>c \<in> set (py_rstrip s). py_space c \<longrightarrow> lex_space c" using sub sp l by auto
  qed
  have st: "py_strip ?l = w @ py_rstrip s" by (simp only: py_strip_def lstrip_idem r)
  have "py_strip rest = py_lstrip (py_rstrip s)"
    by (simp only: py_strip_def rest_def s_def [symmetric] lstrip_idem rstrip_lstrip)
  then have "shlex_split (py_strip ?l) = cons_res w (lex Blank [] False (py_strip rest))"
    using lex_word [OF pl wl s w] ls by (simp add: shlex_split_def st)
  moreover have "py_strip ?l \<noteq> []" using w by (simp add: st)
  moreover have "drop (length w) ?l = s" "take (length w) ?l = w" by (simp_all add: l)
  ultimately show ?thesis
    using ne
    by (auto simp: split_cmd_def tokenize_cmd_def shlex_split_def Let_def rest_def s_def [symmetric]
        split: sum.split)
qed

lemma split_cmd_consistent_witness:
  "split_cmd (''use '' @ quote_arg ''a b'') = Inr (''use'', quote_arg ''a b'', [''use'', ''a b''])"
proof -
  let ?cmd = "''use '' @ quote_arg ''a b''" and ?p = "\<lambda>c. \<not> lex_space c"
  have "py_lstrip ?cmd \<noteq> []" "\<forall>c \<in> set ?cmd. py_space c \<longrightarrow> lex_space c" "plain (takeWhile ?p (py_lstrip ?cmd))"
    by code_simp+
  moreover have "takeWhile ?p (py_lstrip ?cmd) = ''use''"
    "py_lstrip (dropWhile ?p (py_lstrip ?cmd)) = quote_arg ''a b''"
    "tokenize_cmd (quote_arg ''a b'') = Inr [''a b'']" by code_simp+
  ultimately show ?thesis using split_cmd_consistent [of ?cmd] by simp
qed

text \<open>
  With the command word itself in quotes the quoting of the arguments is lost: the tokens are
  \<open>use\<close> and \<open>a b\<close>, but the argument text, tokenized again, gives two arguments.
\<close>

lemma quoted_command_loses_argument_quotes:
  "split_cmd ([dquote] @ ''use'' @ [dquote] @ '' '' @ quote_arg ''a b'') =
     Inr (''use'', ''a b'', [''use'', ''a b'']) \<and>
   tokenize_cmd ''a b'' = Inr [''a'', ''b'']"
  by code_simp

end
