(* ===== verification/Models.thy ===== *)
theory Models
  imports Prelude
begin

text \<open>
  The data model of the executor (\<open>executor/models.py\<close>): the status of a run, the
  invocation a client submits and the run state the executor keeps for it.
\<close>

datatype run_status = PENDING | RUNNING | SUCCEEDED | FAILED | CANCELLED | TIMEOUT

fun run_status_value :: "run_status \<Rightarrow> string" where
  "run_status_value PENDING = ''pending''"
| "run_status_value RUNNING = ''running''"
| "run_status_value SUCCEEDED = ''succeeded''"
| "run_status_value FAILED = ''failed''"
| "run_status_value CANCELLED = ''cancelled''"
| "run_status_value TIMEOUT = ''timeout''"

text \<open>
  The order of a run's life: \<open>PENDING\<close> is first, \<open>RUNNING\<close> comes before the four statuses a run ends
  in, and these are incomparable.
\<close>

instantiation run_status :: order_bot
begin

definition less_eq_run_status :: "run_status \<Rightarrow> run_status \<Rightarrow> bool" where
  "less_eq_run_status s t \<longleftrightarrow> s = t \<or> s = PENDING \<or> s = RUNNING \<and> t \<noteq> PENDING"

definition less_run_status :: "run_status \<Rightarrow> run_status \<Rightarrow> bool" where
  "less_run_status s t \<longleftrightarrow> s \<le> t \<and> s \<noteq> t"

definition bot_run_status :: run_status where
  "bot_run_status = PENDING"

instance
  by standard (auto simp: less_eq_run_status_def less_run_status_def bot_run_status_def)

end

record invocation =
  inv_run_id :: "string option"
  inv_source :: string
  inv_origin_source :: "string option"
  inv_principal :: "string option"
  inv_console_id :: "string option"
  inv_command_id :: "string option"
  inv_command_name :: "string option"
  inv_argv :: "string list"
  inv_kwargs :: "(string, pyval) dict"
  inv_lock_key :: string
  inv_timeout_ms :: "int option"
  inv_audit_policy :: "string option"
  inv_session_id :: "string option"
  inv_parent_run_id :: "string option"
  inv_depth :: int
  inv_callable_meta :: "(string, pyval) dict option"
  inv_meta_revision :: "string option"
  inv_raw_cmd :: "string option"

text \<open>The dataclass defaults: \<open>Invocation()\<close>.\<close>

definition default_invocation :: invocation where
  "default_invocation =
    \<lparr>inv_run_id = None, inv_source = ''tty'', inv_origin_source = None, inv_principal = None,
     inv_console_id = None, inv_command_id = None, inv_command_name = None, inv_argv = [],
     inv_kwargs = [], inv_lock_key = ''global'', inv_timeout_ms = None,
     inv_audit_policy = None, inv_session_id = None, inv_parent_run_id = None,
     inv_depth = 0, inv_callable_meta = None, inv_meta_revision = None, inv_raw_cmd = None\<rparr>"

record run_state =
  rs_run_id :: string
  rs_source :: "string option"
  rs_origin_source :: "string option"
  rs_principal :: "string option"
  rs_session_id :: "string option"
  rs_parent_run_id :: "string option"
  rs_depth :: int
  rs_command_id :: "string option"
  rs_callable_meta :: "(string, pyval) dict option"
  rs_lock_key :: "string option"
  rs_status :: run_status
  rs_result :: pyval
  rs_error :: "pyexc option"
  rs_started_at :: "real option"
  rs_finished_at :: "real option"

definition active_status :: "run_status \<Rightarrow> bool" where
  "active_status st \<longleftrightarrow> st \<in> {PENDING, RUNNING}"

abbreviation terminal_status :: "run_status \<Rightarrow> bool" where
  "terminal_status st \<equiv> \<not> active_status st"

lemma active_status_simps [simp]:
  "active_status PENDING" "active_status RUNNING" "\<not> active_status SUCCEEDED"
  "\<not> active_status FAILED" "\<not> active_status CANCELLED" "\<not> active_status TIMEOUT"
  by (simp_all add: active_status_def)

end
