(* ===== verification/Execution.thy ===== *)
theory Execution
  imports Models
begin

text \<open>
  Execution contexts (\<open>executor/execution.py\<close>): what a frontend knows of a command before it
  becomes an invocation, and command ids, \<open>cmd:<console>:<command>\<close>, which
  \<open>session/manager.py\<close> takes apart again.
\<close>

section \<open>Command ids\<close>

definition build_command_id :: "string \<Rightarrow> string \<Rightarrow> string" where
  "build_command_id console_name command_name =
    ''cmd:'' @ console_name @ '':'' @ command_name"

text \<open>Python's \<open>s.split(sep, n)\<close> for a one-character separator.\<close>

fun split_max :: "nat \<Rightarrow> char \<Rightarrow> string \<Rightarrow> string list" where
  "split_max 0 sep s = [s]"
| "split_max (Suc n) sep s =
    (case dropWhile (\<lambda>c. c \<noteq> sep) s of
       [] \<Rightarrow> [s]
     | c # rest \<Rightarrow> takeWhile (\<lambda>c. c \<noteq> sep) s # split_max n sep rest)"

definition startswith :: "string \<Rightarrow> string \<Rightarrow> bool" where
  "startswith s pre \<longleftrightarrow> take (length pre) s = pre"

definition none_if_empty :: "string \<Rightarrow> string option" where
  "none_if_empty s = (if s = [] then None else Some s)"

record command_ctx =
  cc_console_name :: "string option"
  cc_command_name :: "string option"
  cc_command_id :: "string option"

definition parse_command_id :: "string option \<Rightarrow> command_ctx" where
  "parse_command_id command_id =
    (case command_id of
       Some s \<Rightarrow>
         if s \<noteq> [] \<and> startswith s ''cmd:'' then
           (case split_max 2 CHR '':'' s of
              [_, console, command] \<Rightarrow>
                \<lparr>cc_console_name = none_if_empty console, cc_command_name = none_if_empty command,
                 cc_command_id = command_id\<rparr>
            | _ \<Rightarrow> \<lparr>cc_console_name = None, cc_command_name = None, cc_command_id = command_id\<rparr>)
         else \<lparr>cc_console_name = None, cc_command_name = None, cc_command_id = command_id\<rparr>
     | None \<Rightarrow> \<lparr>cc_console_name = None, cc_command_name = None, cc_command_id = command_id\<rparr>)"

lemma split_max_sep:
  "sep \<notin> set s \<Longrightarrow> split_max (Suc n) sep (s @ sep # rest) = s # split_max n sep rest"
proof -
  assume "sep \<notin> set s"
  then have "dropWhile (\<lambda>c. c \<noteq> sep) (s @ sep # rest) = sep # rest"
    "takeWhile (\<lambda>c. c \<noteq> sep) (s @ sep # rest) = s" by (induction s) auto
  then show ?thesis by simp
qed

lemma build_command_id_simps:
  "startswith (build_command_id c n) ''cmd:''" "build_command_id c n \<noteq> []"
  by (simp_all add: build_command_id_def startswith_def)

text \<open>Command ids round-trip. Parsing the id built from a console name without a colon and a
  command name, both non-empty, gives back the two names, whatever the command name contains.\<close>

theorem command_id_roundtrip:
  assumes "console \<noteq> []" and "name \<noteq> []" and "CHR '':'' \<notin> set console"
  shows "parse_command_id (Some (build_command_id console name)) =
    \<lparr>cc_console_name = Some console, cc_command_name = Some name,
     cc_command_id = Some (build_command_id console name)\<rparr>"
proof -
  have "split_max 2 CHR '':'' (build_command_id console name) = [''cmd'', console, name]"
    using split_max_sep [of "CHR '':''" "''cmd''" 1 "console @ CHR '':'' # name"]
      split_max_sep [OF assms(3), of 0 name]
    by (simp add: build_command_id_def numeral_2_eq_2)
  then show ?thesis
    using assms(1,2) by (simp add: parse_command_id_def build_command_id_simps none_if_empty_def)
qed

lemma command_id_roundtrip_witness:
  "cc_command_name (parse_command_id (Some (build_command_id ''root'' ''a:b''))) = Some ''a:b''"
  by (subst command_id_roundtrip) simp_all

section \<open>Execution contexts\<close>

record execution_context =
  xc_source :: string
  xc_origin_source :: "string option"
  xc_principal :: "string option"
  xc_console_name :: "string option"
  xc_command_name :: "string option"
  xc_command_id :: "string option"
  xc_argv :: "string list"
  xc_kwargs :: "(string, pyval) dict"
  xc_raw_cmd :: "string option"
  xc_run_id :: "string option"
  xc_session_id :: "string option"
  xc_timeout_ms :: "int option"
  xc_lock_key :: string
  xc_audit_policy :: "string option"
  xc_parent_run_id :: "string option"
  xc_depth :: int
  xc_meta_revision :: "string option"

definition new_execution_context :: "string \<Rightarrow> execution_context" where
  "new_execution_context source =
    \<lparr>xc_source = source, xc_origin_source = None, xc_principal = None, xc_console_name = None,
     xc_command_name = None, xc_command_id = None, xc_argv = [], xc_kwargs = [],
     xc_raw_cmd = None, xc_run_id = None, xc_session_id = None, xc_timeout_ms = None,
     xc_lock_key = ''global'', xc_audit_policy = None, xc_parent_run_id = None, xc_depth = 0,
     xc_meta_revision = None\<rparr>"

definition context_command_id :: "execution_context \<Rightarrow> string option" where
  "context_command_id x =
    (if xc_command_id x = None \<and> truthy_str (xc_console_name x) \<and> truthy_str (xc_command_name x)
     then Some (build_command_id (the (xc_console_name x)) (the (xc_command_name x)))
     else xc_command_id x)"

definition to_invocation :: "execution_context \<Rightarrow> invocation" where
  "to_invocation x = default_invocation
    \<lparr>inv_run_id := xc_run_id x, inv_source := xc_source x,
     inv_origin_source := or_str (xc_origin_source x) (Some (xc_source x)),
     inv_principal := xc_principal x, inv_console_id := xc_console_name x,
     inv_command_id := context_command_id x, inv_command_name := xc_command_name x,
     inv_argv := xc_argv x, inv_kwargs := xc_kwargs x, inv_lock_key := xc_lock_key x,
     inv_timeout_ms := xc_timeout_ms x, inv_audit_policy := xc_audit_policy x,
     inv_session_id := xc_session_id x, inv_parent_run_id := xc_parent_run_id x,
     inv_depth := xc_depth x, inv_meta_revision := xc_meta_revision x,
     inv_raw_cmd := xc_raw_cmd x\<rparr>"

lemma to_invocation_simps [simp]:
  "inv_run_id (to_invocation x) = xc_run_id x" "inv_source (to_invocation x) = xc_source x"
  "inv_lock_key (to_invocation x) = xc_lock_key x" "inv_session_id (to_invocation x) = xc_session_id x"
  "inv_principal (to_invocation x) = xc_principal x" "inv_depth (to_invocation x) = xc_depth x"
  "inv_parent_run_id (to_invocation x) = xc_parent_run_id x"
  "inv_timeout_ms (to_invocation x) = xc_timeout_ms x"
  by (simp_all add: to_invocation_def)

end
