(* ===== verification/Commands.thy ===== *)
theory Commands
  imports Tokenizer Execution
begin

text \<open>
  Commands: names and argument counts, the command registry (\<open>commands/registry.py\<close>,
  \<open>commands/decorators.py\<close>), and the tables a \<open>BaseCommands\<close> object builds from it
  (\<open>commands/core.py\<close>, \<open>commands/general.py\<close>). A class is a number; what Python's
  introspection says of a class is an argument. Only ASCII letters change case.
\<close>

section \<open>Command names\<close>

definition in_range :: "nat \<Rightarrow> nat \<Rightarrow> char \<Rightarrow> bool" where
  "in_range a b c \<longleftrightarrow> a \<le> of_char c \<and> of_char c \<le> b"

abbreviation is_upper :: "char \<Rightarrow> bool" where "is_upper \<equiv> in_range 65 90"
abbreviation is_lower :: "char \<Rightarrow> bool" where "is_lower \<equiv> in_range 97 122"
abbreviation is_digit :: "char \<Rightarrow> bool" where "is_digit \<equiv> in_range 48 57"

definition lower_char :: "char \<Rightarrow> char" where
  "lower_char c = (if is_upper c then char_of (of_char c + 32 :: nat) else c)"

definition upper_char :: "char \<Rightarrow> char" where
  "upper_char c = (if is_lower c then char_of (of_char c - 32 :: nat) else c)"

datatype command_style = NONE | LOWERCASE | UPPERCASE | POWERSHELL | SLUGIFIED

text \<open>\<open>re.sub(r'(.)([A-Z][a-z]+)', r'\1-\2', s)\<close>: leftmost matches, left to right.\<close>

function dash_words :: "string \<Rightarrow> string" where
  "dash_words [] = []"
| "dash_words [c] = [c]"
| "dash_words (c # u # s) =
    (if c \<noteq> CHR 0x0A \<and> is_upper u \<and> s \<noteq> [] \<and> is_lower (hd s)
     then c # CHR ''-'' # u # takeWhile is_lower s @ dash_words (dropWhile is_lower s)
     else c # dash_words (u # s))"
  by pat_completeness auto
termination
proof (relation "measure length")
  fix c u :: char and s :: string
  have "length (dropWhile is_lower s) \<le> length s" by (rule length_dropWhile_le)
  then show "(dropWhile is_lower s, c # u # s) \<in> measure length" by simp
qed simp_all

text \<open>\<open>re.sub(r'([a-z0-9])([A-Z])', r'\1-\2', s)\<close>.\<close>

fun dash_caps :: "string \<Rightarrow> string" where
  "dash_caps (a # b # s) =
    (if (is_lower a \<or> is_digit a) \<and> is_upper b then a # CHR ''-'' # b # dash_caps s
     else a # dash_caps (b # s))"
| "dash_caps s = s"

definition define_command_style :: "string \<Rightarrow> command_style \<Rightarrow> string" where
  "define_command_style command_name style =
    (case style of
       NONE \<Rightarrow> command_name
     | LOWERCASE \<Rightarrow> map lower_char command_name
     | UPPERCASE \<Rightarrow> map upper_char command_name
     | POWERSHELL \<Rightarrow> dash_caps (dash_words command_name)
     | SLUGIFIED \<Rightarrow> map lower_char (dash_caps (dash_words command_name)))"

section \<open>Argument counts\<close>

text \<open>What \<open>inspect.signature\<close> says of a parameter.\<close>

datatype param_kind = POSITIONAL | VAR_POSITIONAL | KEYWORD_ONLY | VAR_KEYWORD

record param =
  pa_kind :: param_kind
  pa_default :: bool

record arg_spec =
  as_min :: int
  as_max :: "int option"
  as_variadic :: bool

definition default_arg_spec :: arg_spec where
  "default_arg_spec = \<lparr>as_min = 0, as_max = Some 0, as_variadic = False\<rparr>"

fun count_params :: "param list \<Rightarrow> int \<Rightarrow> int \<Rightarrow> bool \<Rightarrow> int \<times> int \<times> bool" where
  "count_params [] mn mx v = (mn, mx, v)"
| "count_params (p # ps) mn mx v =
    (if pa_kind p = VAR_POSITIONAL then count_params ps mn mx True
     else count_params ps (if pa_default p then mn else mn + 1) (mx + 1) v)"

definition from_signature :: "param list \<Rightarrow> bool \<Rightarrow> arg_spec" where
  "from_signature sig skip_first =
    (let (mn, mx, v) = count_params (if skip_first \<and> sig \<noteq> [] then tl sig else sig) 0 0 False
     in \<lparr>as_min = mn, as_max = (if v then None else Some mx), as_variadic = v\<rparr>)"

definition validate_count :: "arg_spec \<Rightarrow> int \<Rightarrow> unit res" where
  "validate_count a n =
    (if n < as_min a then Inl (PyExc ValidationErrorC ''Not enough parameters set!'')
     else case as_max a of
            Some mx \<Rightarrow> if mx < n then Inl (PyExc ValidationErrorC ''Too many parameters set!'') else Inr ()
          | None \<Rightarrow> Inr ())"

definition parse_args :: "string \<Rightarrow> string list res" where
  "parse_args txt = tokenize_cmd txt"

definition count_args :: "string \<Rightarrow> int res" where
  "count_args txt = map_sum id (\<lambda>ts. int (length ts)) (tokenize_cmd txt)"

section \<open>Commands\<close>

datatype alias_arg = NoAlias | OneAlias string | Aliases "string list" | OtherAlias

datatype exposure_arg = NoExposure | BoolExposure bool | DictExposure "(string, bool) dict" | OtherExposure

definition normalize_exposure :: "exposure_arg \<Rightarrow> (string, bool) dict" where
  "normalize_exposure e =
    (case e of
       NoExposure \<Rightarrow> [(''rpc'', False)]
     | BoolExposure b \<Rightarrow> [(''rpc'', b)]
     | DictExposure d \<Rightarrow> d
     | OtherExposure \<Rightarrow> [(''rpc'', False)])"

text \<open>A completer or validator argument: absent, not a class, or a class of the right kind or not.\<close>

datatype class_arg = NoClass | NotAClass | IsClass nat bool

definition class_of :: "class_arg \<Rightarrow> nat option" where
  "class_of a = (case a of IsClass k _ \<Rightarrow> Some k | _ \<Rightarrow> None)"

record command_info =
  ci_func_name :: string
  ci_description :: string
  ci_completer :: "nat option"
  ci_validator :: "nat option"
  ci_arg_spec :: "arg_spec option"
  ci_exposure :: "(string, bool) dict"
  ci_alias :: "string list"

definition new_command_info ::
  "string \<Rightarrow> string \<Rightarrow> nat option \<Rightarrow> nat option \<Rightarrow> alias_arg \<Rightarrow> arg_spec option \<Rightarrow> exposure_arg
   \<Rightarrow> command_info" where
  "new_command_info func_name description completer validator alias spec exposure =
    \<lparr>ci_func_name = func_name, ci_description = description, ci_completer = completer,
     ci_validator = validator, ci_arg_spec = spec, ci_exposure = normalize_exposure exposure,
     ci_alias = (case alias of OneAlias a \<Rightarrow> [a] | Aliases as \<Rightarrow> as | _ \<Rightarrow> [])\<rparr>"

text \<open>A function: its identity, name, signature and the command information a decorator set.\<close>

record func_obj =
  fn_id :: nat
  fn_name :: string
  fn_params :: "param list"
  fn_info :: "command_info option"

record command_def =
  cd_func_name :: string
  cd_func :: func_obj
  cd_description :: string
  cd_completer :: "nat option"
  cd_validator :: "nat option"
  cd_arg_spec :: "arg_spec option"
  cd_exposure :: "(string, bool) dict"
  cd_alias :: "string list"

definition all_names :: "command_def \<Rightarrow> string list" where
  "all_names d = cd_func_name d # cd_alias d"

definition def_of_info :: "func_obj \<Rightarrow> command_info \<Rightarrow> arg_spec option \<Rightarrow> command_def" where
  "def_of_info f i spec =
    \<lparr>cd_func_name = ci_func_name i, cd_func = f, cd_description = ci_description i,
     cd_completer = ci_completer i, cd_validator = ci_validator i, cd_arg_spec = spec,
     cd_exposure = ci_exposure i, cd_alias = ci_alias i\<rparr>"

section \<open>The registry\<close>

record command_registry =
  cr_console_classes :: "(nat, nat) dict"
  cr_commands_defs :: "(nat, command_def list) dict"
  cr_console_defs :: "(nat, command_def list) dict"

definition new_command_registry :: command_registry where
  "new_command_registry = \<lparr>cr_console_classes = [], cr_commands_defs = [], cr_console_defs = []\<rparr>"

definition register_console_commands :: "nat \<Rightarrow> nat \<Rightarrow> command_registry \<Rightarrow> command_registry" where
  "register_console_commands console_cls commands_cls r =
    r\<lparr>cr_console_classes := dict_set console_cls commands_cls (cr_console_classes r)\<rparr>"

definition get_commands_cls :: "command_registry \<Rightarrow> nat \<Rightarrow> nat option" where
  "get_commands_cls r console_cls = map_of (cr_console_classes r) console_cls"

text \<open>The checks \<open>register\<close> and \<open>register_command\<close> make of their class arguments.\<close>

definition check_class_args :: "class_arg \<Rightarrow> class_arg \<Rightarrow> unit res" where
  "check_class_args completer validator =
    (if completer = NotAClass
     then Inl (PyExc ConsoleInitExceptionC ''Command completer must be a class'')
     else if validator = NotAClass
     then Inl (PyExc ConsoleInitExceptionC ''Command validator must be a class'')
     else case completer of
            IsClass _ False \<Rightarrow> Inl (PyExc ConsoleInitExceptionC ''Command completer must inherit Completer'')
          | _ \<Rightarrow>
              (case validator of
                 IsClass _ False \<Rightarrow> Inl (PyExc ConsoleInitExceptionC ''Command validator must inherit Validator'')
               | _ \<Rightarrow> Inr ()))"

text \<open>\<open>setdefault(k, []).append(x)\<close>, when there is a key.\<close>

definition append_at :: "nat option \<Rightarrow> 'a \<Rightarrow> (nat, 'a list) dict \<Rightarrow> (nat, 'a list) dict" where
  "append_at k x d = (case k of None \<Rightarrow> d | Some k \<Rightarrow> dict_set k (dict_get_or d k [] @ [x]) d)"

record registration =
  rg_console_cls :: "nat option"
  rg_commands_cls :: "nat option"
  rg_name :: "string option"
  rg_description :: string
  rg_alias :: alias_arg
  rg_style :: command_style
  rg_completer :: class_arg
  rg_validator :: class_arg
  rg_arg_spec :: "arg_spec option"
  rg_exposure :: exposure_arg

definition register :: "func_obj \<Rightarrow> registration \<Rightarrow> command_registry \<Rightarrow> command_def res \<times> command_registry" where
  "register f a r =
    (case check_class_args (rg_completer a) (rg_validator a) of
       Inl e \<Rightarrow> (Inl e, r)
     | Inr _ \<Rightarrow>
         let name = (case rg_name a of None \<Rightarrow> fn_name f | Some n \<Rightarrow> n);
             i = new_command_info (define_command_style name (rg_style a)) (rg_description a)
                   (class_of (rg_completer a)) (class_of (rg_validator a)) (rg_alias a)
                   (rg_arg_spec a) (rg_exposure a);
             d = def_of_info (f\<lparr>fn_info := Some i\<rparr>) i (ci_arg_spec i)
         in (Inr d,
             r\<lparr>cr_commands_defs := append_at (rg_commands_cls a) d (cr_commands_defs r),
               cr_console_defs := append_at (rg_console_cls a) d (cr_console_defs r)\<rparr>))"

text \<open>The decorator \<open>register_command\<close>: the function with its information.\<close>

definition register_command :: "func_obj \<Rightarrow> string \<Rightarrow> registration \<Rightarrow> func_obj res" where
  "register_command f name a =
    (case check_class_args (rg_completer a) (rg_validator a) of
       Inl e \<Rightarrow> Inl e
     | Inr _ \<Rightarrow>
         Inr (f\<lparr>fn_info := Some (new_command_info
           (define_command_style name (rg_style a))
           (rg_description a) (class_of (rg_completer a)) (class_of (rg_validator a)) (rg_alias a)
           (rg_arg_spec a) (rg_exposure a))\<rparr>))"

text \<open>
  The commands of a class: its public members that are functions with command information, in
  the order of \<open>dir\<close>. \<open>mems\<close> gives the functions among a class's members, by name.
\<close>

type_synonym members = "nat \<Rightarrow> (string \<times> func_obj) list"

definition member_def :: "string \<times> func_obj \<Rightarrow> command_def option" where
  "member_def m =
    (case fn_info (snd m) of
       None \<Rightarrow> None
     | Some i \<Rightarrow>
         if take 1 (fst m) = ''_'' then None
         else Some (def_of_info (snd m) i
                (Some (case ci_arg_spec i of
                         Some s \<Rightarrow> s
                       | None \<Rightarrow> from_signature (fn_params (snd m)) True))))"

definition collect_from_commands_cls ::
  "members \<Rightarrow> nat \<Rightarrow> command_registry \<Rightarrow> command_def list \<times> command_registry" where
  "collect_from_commands_cls mems cls r =
    (case map_of (cr_commands_defs r) cls of
       Some defs \<Rightarrow> (defs, r)
     | None \<Rightarrow>
         let defs = List.map_filter member_def (mems cls)
         in (defs, r\<lparr>cr_commands_defs := dict_set cls defs (cr_commands_defs r)\<rparr>))"

definition get_command_defs_for_console ::
  "members \<Rightarrow> nat \<Rightarrow> command_registry \<Rightarrow> command_def list \<times> command_registry" where
  "get_command_defs_for_console mems console_cls r =
    (let (defs, r1) = (case get_commands_cls r console_cls of
                         None \<Rightarrow> ([], r)
                       | Some c \<Rightarrow> collect_from_commands_cls mems c r)
     in (defs @ dict_get_or (cr_console_defs r1) console_cls [], r1))"

text \<open>
  The decorator \<open>commands\<close> on a console class. The binding is an attribute of the class,
  which a class inherits along its method resolution order \<open>mro\<close>.
\<close>

definition class_attr :: "(nat \<Rightarrow> nat list) \<Rightarrow> (nat, nat) dict \<Rightarrow> nat \<Rightarrow> nat option" where
  "class_attr mro attrs k =
    (case List.map_filter (map_of attrs) (mro k) of [] \<Rightarrow> None | x # _ \<Rightarrow> Some x)"

definition commands_decorator ::
  "(nat \<Rightarrow> nat list) \<Rightarrow> (nat \<Rightarrow> bool) \<Rightarrow> (nat \<Rightarrow> bool) \<Rightarrow> nat \<Rightarrow> nat
   \<Rightarrow> (nat, nat) dict \<times> command_registry \<Rightarrow> unit res \<times> (nat, nat) dict \<times> command_registry" where
  "commands_decorator mro is_commands is_console commands_cls console_cls s =
    (case s of (attrs, r) \<Rightarrow>
       if \<not> is_commands commands_cls
       then (Inl (PyExc ConsoleInitExceptionC ''Commands must inherit BaseCommands''), s)
       else if \<not> is_console console_cls
       then (Inl (PyExc ConsoleInitExceptionC ''commands decorator must target a Console class''), s)
       else if class_attr mro attrs console_cls \<noteq> None \<and>
               class_attr mro attrs console_cls \<noteq> Some commands_cls
       then (Inl (PyExc ConsoleInitExceptionC ''already binds to another class''), s)
       else (Inr (), dict_set console_cls commands_cls attrs,
             register_console_commands console_cls commands_cls r))"

section \<open>The tables of a command object\<close>

text \<open>
  \<open>BaseCommands\<close>. \<open>mk c n\<close> is what calling the class \<open>c\<close> with \<open>n\<close>
  arguments gives: an object, or what its constructor raises; \<open>default_validator\<close> is
  \<open>DummyValidator()\<close>.
\<close>

record base_commands =
  bc_console_name :: string
  bc_defs :: "command_def list"
  bc_by_name :: "(string, command_def) dict"
  bc_by_id :: "(string, command_def) dict"
  bc_funcs :: "(string, func_obj) dict"
  bc_completers :: "(string, nat option) dict"
  bc_validators :: "(string, nat option) dict"

type_synonym constructor = "nat \<Rightarrow> nat \<Rightarrow> nat res"

definition build_completer :: "constructor \<Rightarrow> nat \<Rightarrow> nat res" where
  "build_completer mk c =
    (case mk c 2 of
       Inr x \<Rightarrow> Inr x
     | Inl e \<Rightarrow>
         if \<not> isinstance_exc e TypeErrorC then Inl e
         else case mk c 1 of
                Inr x \<Rightarrow> Inr x
              | Inl e' \<Rightarrow>
                  if isinstance_exc e' TypeErrorC
                  then Inl (PyExc ConsoleInitExceptionC ''Completer init failed. Use completer_from(...) to adapt prompt_toolkit completers.'')
                  else Inl e')"

text \<open>\<open>None\<close> is the \<open>DummyValidator\<close>.\<close>

definition build_validator :: "constructor \<Rightarrow> nat option \<Rightarrow> nat option res" where
  "build_validator mk v =
    (case v of
       None \<Rightarrow> Inr None
     | Some c \<Rightarrow>
         (case mk c 3 of
            Inr x \<Rightarrow> Inr (Some x)
          | Inl e \<Rightarrow>
              if isinstance_exc e TypeErrorC then map_sum id Some (mk c 2) else Inl e))"

definition map_name ::
  "constructor \<Rightarrow> command_def \<Rightarrow> string \<Rightarrow> base_commands \<Rightarrow> base_commands res" where
  "map_name mk d name b =
    (case (case cd_completer d of None \<Rightarrow> Inr None | Some c \<Rightarrow> map_sum id Some (build_completer mk c)) of
       Inl e \<Rightarrow> Inl e
     | Inr cmpl \<Rightarrow>
         (case build_validator mk (cd_validator d) of
            Inl e \<Rightarrow> Inl e
          | Inr val \<Rightarrow>
              Inr (b\<lparr>bc_funcs := dict_set name (cd_func d) (bc_funcs b),
                     bc_by_name := dict_set name d (bc_by_name b),
                     bc_completers := dict_set name cmpl (bc_completers b),
                     bc_validators := dict_set name val (bc_validators b)\<rparr>)))"

fun fold_res :: "('a \<Rightarrow> 'b \<Rightarrow> 'b res) \<Rightarrow> 'a list \<Rightarrow> 'b \<Rightarrow> 'b res" where
  "fold_res f [] b = Inr b"
| "fold_res f (x # xs) b = (case f x b of Inl e \<Rightarrow> Inl e | Inr b' \<Rightarrow> fold_res f xs b')"

definition def_command_id :: "string \<Rightarrow> command_def \<Rightarrow> string" where
  "def_command_id console_name d = build_command_id console_name (cd_func_name d)"

definition map_components ::
  "constructor \<Rightarrow> command_def \<Rightarrow> base_commands \<Rightarrow> base_commands res" where
  "map_components mk d b =
    fold_res (map_name mk d) (all_names d)
      (b\<lparr>bc_by_id := dict_set (def_command_id (bc_console_name b) d) d (bc_by_id b)\<rparr>)"

definition new_base_commands ::
  "constructor \<Rightarrow> members \<Rightarrow> string \<Rightarrow> nat \<Rightarrow> nat \<Rightarrow> command_registry
   \<Rightarrow> base_commands res \<times> command_registry" where
  "new_base_commands mk mems console_name console_cls commands_cls r =
    (let (defs, r1) = get_command_defs_for_console mems console_cls r;
         (defs, r2) = (if defs = [] then collect_from_commands_cls mems commands_cls r1 else (defs, r1))
     in (fold_res (map_components mk) defs
           \<lparr>bc_console_name = console_name, bc_defs = defs, bc_by_name = [], bc_by_id = [],
            bc_funcs = [], bc_completers = [], bc_validators = []\<rparr>, r2))"

definition get_command_def_by_id :: "base_commands \<Rightarrow> string \<Rightarrow> command_def option" where
  "get_command_def_by_id b i = map_of (bc_by_id b) i"

definition get_command_def :: "base_commands \<Rightarrow> string \<Rightarrow> command_def option" where
  "get_command_def b name =
    (case map_of (bc_by_id b) name of Some d \<Rightarrow> Some d | None \<Rightarrow> map_of (bc_by_name b) name)"

definition get_command_id :: "base_commands \<Rightarrow> string \<Rightarrow> string option" where
  "get_command_id b name =
    map_option (def_command_id (bc_console_name b)) (map_of (bc_by_name b) name)"

definition deserialize_args :: "command_def \<Rightarrow> string \<Rightarrow> string list res" where
  "deserialize_args d raw_text = tokenize_cmd raw_text"

section \<open>Validation and completion\<close>

text \<open>The specification the constructors of \<open>GeneralValidator\<close> and \<open>GeneralCompleter\<close> keep.\<close>

definition validator_spec :: "func_obj \<Rightarrow> arg_spec option \<Rightarrow> arg_spec" where
  "validator_spec f spec = (case spec of None \<Rightarrow> from_signature (fn_params f) True | Some s \<Rightarrow> s)"

definition completer_spec :: "arg_spec option \<Rightarrow> arg_spec" where
  "completer_spec spec = (case spec of None \<Rightarrow> default_arg_spec | Some s \<Rightarrow> s)"

text \<open>
  \<open>GeneralValidator.validate\<close>; \<open>custom\<close> is the subclass's hook, called with the arguments
  and the text, and on a \<open>TypeError\<close> with the text alone.
\<close>

definition general_validate ::
  "arg_spec \<Rightarrow> (string list option \<Rightarrow> string \<Rightarrow> unit res) \<Rightarrow> string \<Rightarrow> unit res" where
  "general_validate spec custom txt =
    (case (case tokenize_cmd txt of
             Inl e \<Rightarrow> Inl e
           | Inr args \<Rightarrow> (case validate_count spec (int (length args)) of Inl e \<Rightarrow> Inl e | Inr _ \<Rightarrow> Inr args)) of
       Inl e \<Rightarrow>
         if isinstance_exc e ValidationErrorC then Inl e
         else if isinstance_exc e ValueErrorC then Inl (PyExc ValidationErrorC (exc_msg e))
         else Inl e
     | Inr args \<Rightarrow>
         (case custom (Some args) txt of
            Inr _ \<Rightarrow> Inr ()
          | Inl e \<Rightarrow> if isinstance_exc e TypeErrorC then custom None txt else Inl e))"

text \<open>\<open>CommandValidator.validate\<close>: \<open>check v\<close> runs a command's own validator.\<close>

definition command_validate ::
  "(nat option \<Rightarrow> string \<Rightarrow> unit res) \<Rightarrow> bool \<Rightarrow> base_commands \<Rightarrow> string \<Rightarrow> unit res" where
  "command_validate check enable_undefined b txt =
    (case (case split_cmd txt of
             Inl e \<Rightarrow> Inl e
           | Inr (token, arg_text, _) \<Rightarrow>
               (case map_of (bc_validators b) token of
                  Some v \<Rightarrow> check v arg_text
                | None \<Rightarrow>
                    if enable_undefined then Inr ()
                    else Inl (PyExc ValidationErrorC ''Bad command''))) of
       Inl e \<Rightarrow> if isinstance_exc e ValueErrorC then Inr () else Inl e
     | Inr _ \<Rightarrow> Inr ())"

definition allow_complete_for_spec :: "arg_spec \<Rightarrow> string \<Rightarrow> string list \<Rightarrow> bool" where
  "allow_complete_for_spec spec txt args =
    (case as_max spec of
       None \<Rightarrow> True
     | Some mx \<Rightarrow>
         if txt \<noteq> [] \<and> py_space (last txt) then int (length args) < mx
         else int (length args) \<le> mx)"

text \<open>What \<open>GeneralCompleter\<close> asks for candidates with: the arguments, when it completes at all.\<close>

definition completion_args :: "arg_spec \<Rightarrow> string \<Rightarrow> string list option" where
  "completion_args spec txt =
    (case tokenize_cmd txt of
       Inl _ \<Rightarrow> None
     | Inr args \<Rightarrow> if allow_complete_for_spec spec txt args then Some args else None)"

text \<open>
  The completions: \<open>GeneralCompleter\<close> hands its candidates to a \<open>WordCompleter\<close>, an adapter
  leaves them to the completer of prompt_toolkit it wraps; both stay silent where no argument
  may follow.
\<close>

definition general_completions ::
  "(string list \<Rightarrow> string \<Rightarrow> 'w list) \<Rightarrow> ('w list \<Rightarrow> string \<Rightarrow> 'c list) \<Rightarrow> arg_spec \<Rightarrow> string \<Rightarrow> 'c list" where
  "general_completions candidates word_completer spec txt =
    (case completion_args spec txt of
       None \<Rightarrow> []
     | Some args \<Rightarrow> (let ws = candidates args txt in if ws = [] then [] else word_completer ws txt))"

definition adapter_completions :: "(string \<Rightarrow> 'c list) \<Rightarrow> arg_spec \<Rightarrow> string \<Rightarrow> 'c list" where
  "adapter_completions inner spec txt =
    (case completion_args spec txt of None \<Rightarrow> [] | Some _ \<Rightarrow> inner txt)"

record completer_adapter =
  ca_cls :: "nat option"
  ca_kwargs :: "(string, pyval) dict"

definition completer_from :: "nat \<Rightarrow> (string, pyval) dict \<Rightarrow> completer_adapter" where
  "completer_from c kwargs = \<lparr>ca_cls = Some c, ca_kwargs = kwargs\<rparr>"

definition new_adapter :: "(nat \<Rightarrow> (string, pyval) dict \<Rightarrow> 'c res) \<Rightarrow> completer_adapter \<Rightarrow> 'c res" where
  "new_adapter mk_inner a =
    (case ca_cls a of
       None \<Rightarrow> Inl (PyExc ValueErrorC ''completer_cls must be set for adapter'')
     | Some c \<Rightarrow> mk_inner c (ca_kwargs a))"

end
