(* ===== verification/ConsoleRegistry.thy ===== *)
theory ConsoleRegistry
  imports Commands "HOL-Library.Char_ord" "HOL-Library.List_Lexorder"
begin

text \<open>
  The console registry (\<open>consoles/registry.py\<close>, \<open>consoles/decorators.py\<close>): the root
  console, the sub consoles under their names, the tree of names and the registration with a
  manager. A console class is a record of what the registry reads of it.
\<close>

section \<open>Console classes\<close>

datatype kwargs_attr = NoKwargs | Kwargs "(string, pyval) dict" | OtherKwargs

record console_class =
  kc_id :: nat
  kc_name :: string                        \<comment> \<open>\<open>__name__\<close>\<close>
  kc_module :: string
  kc_console_name :: "string option"
  kc_CONSOLE_NAME :: "string option"
  kc_kwargs :: kwargs_attr
  kc_is_main :: bool                       \<comment> \<open>a subclass of \<open>MainConsole\<close>\<close>
  kc_is_sub :: bool                        \<comment> \<open>a subclass of \<open>SubConsole\<close>\<close>

definition get_console_name :: "console_class \<Rightarrow> string" where
  "get_console_name k =
    (if truthy_str (kc_console_name k) then the (kc_console_name k)
     else if truthy_str (kc_CONSOLE_NAME k) then the (kc_CONSOLE_NAME k)
     else map lower_char (kc_name k))"

definition get_console_kwargs :: "console_class \<Rightarrow> (string, pyval) dict res" where
  "get_console_kwargs k =
    (case kc_kwargs k of
       NoKwargs \<Rightarrow> Inr []
     | Kwargs d \<Rightarrow> Inr d
     | OtherKwargs \<Rightarrow> Inl (PyExc ConsoleInitExceptionC ''console_kwargs must be dict''))"

section \<open>The registry\<close>

record sub_entry =
  se_cls :: console_class
  se_parent :: string
  se_name :: string

record console_registry =
  cg_root_cls :: "console_class option"
  cg_root_name :: "string option"
  cg_subs :: "(string, sub_entry) dict"

definition new_console_registry :: console_registry where
  "new_console_registry = \<lparr>cg_root_cls = None, cg_root_name = None, cg_subs = []\<rparr>"

definition set_root :: "console_class \<Rightarrow> console_registry \<Rightarrow> unit res \<times> console_registry" where
  "set_root k g =
    (if cg_root_cls g \<noteq> None
     then (Inl (PyExc ConsoleInitExceptionC ''Root console already set''), g)
     else (Inr (), g\<lparr>cg_root_cls := Some k, cg_root_name := Some (get_console_name k)\<rparr>))"

definition name_taken :: "string \<Rightarrow> console_registry \<Rightarrow> bool" where
  "name_taken name g \<longleftrightarrow> Some name = cg_root_name g \<or> map_of (cg_subs g) name \<noteq> None"

definition duplicate_name :: "string \<Rightarrow> pyexc" where
  "duplicate_name name = PyExc ConsoleInitExceptionC (''Console name duplicate ['' @ name @ '']'')"

definition put_sub :: "console_class \<Rightarrow> string \<Rightarrow> string \<Rightarrow> console_registry \<Rightarrow> console_registry" where
  "put_sub k parent name g =
    g\<lparr>cg_subs := dict_set name \<lparr>se_cls = k, se_parent = parent, se_name = name\<rparr> (cg_subs g)\<rparr>"

definition add_sub :: "console_class \<Rightarrow> string \<Rightarrow> console_registry \<Rightarrow> unit res \<times> console_registry" where
  "add_sub k parent g =
    (let name = get_console_name k in
     if name_taken name g then (Inl (duplicate_name name), g) else (Inr (), put_sub k parent name g))"

definition resolve_instance_name :: "string \<Rightarrow> string \<Rightarrow> string" where
  "resolve_instance_name parent inst =
    (let pre = parent @ ''_'' in if startswith inst pre then inst else pre @ inst)"

text \<open>The loop of \<open>add_multi\<close>; a key or value that is no string is \<open>None\<close>.\<close>

fun add_instances ::
  "console_class \<Rightarrow> (string option \<times> string option) list \<Rightarrow> console_registry
   \<Rightarrow> unit res \<times> console_registry" where
  "add_instances k [] g = (Inr (), g)"
| "add_instances k ((p, i) # rest) g =
    (if \<not> truthy_str p
     then (Inl (PyExc ConsoleInitExceptionC ''Multi console parent name is empty''), g)
     else if \<not> truthy_str i
     then (Inl (PyExc ConsoleInitExceptionC ''Multi console instance name is empty''), g)
     else
       let name = resolve_instance_name (the p) (the i) in
       if name_taken name g then (Inl (duplicate_name name), g)
       else add_instances k rest (put_sub k (the p) name g))"

definition add_multi ::
  "console_class \<Rightarrow> (string option \<times> string option) list option \<Rightarrow> console_registry
   \<Rightarrow> unit res \<times> console_registry" where
  "add_multi k parent_map g =
    (case parent_map of
       None \<Rightarrow> (Inl (PyExc ConsoleInitExceptionC ''Multi console mapping is empty''), g)
     | Some [] \<Rightarrow> (Inl (PyExc ConsoleInitExceptionC ''Multi console mapping is empty''), g)
     | Some ps \<Rightarrow> add_instances k ps g)"

definition get_root :: "console_registry \<Rightarrow> (console_class \<times> string) option" where
  "get_root g =
    (case cg_root_cls g of
       None \<Rightarrow> None
     | Some k \<Rightarrow>
         Some (k, if truthy_str (cg_root_name g) then the (cg_root_name g) else get_console_name k))"

text \<open>What \<open>iter_consoles\<close> yields: name, class and parent.\<close>

definition iter_consoles :: "console_registry \<Rightarrow> (string \<times> console_class \<times> string option) list" where
  "iter_consoles g =
    (case get_root g of None \<Rightarrow> [] | Some (k, name) \<Rightarrow> [(name, k, None)]) @
    map (\<lambda>(name, e). (name, se_cls e, Some (se_parent e))) (cg_subs g)"

subsection \<open>The tree\<close>

record console_tree =
  ct_root :: string
  ct_children :: "(string, string list) dict"

definition add_child :: "string \<times> sub_entry \<Rightarrow> (string, string list) dict \<Rightarrow> (string, string list) dict" where
  "add_child = (\<lambda>(name, e) d. dict_set (se_parent e) (dict_get_or d (se_parent e) [] @ [name]) d)"

definition ensure_key :: "string \<Rightarrow> (string, string list) dict \<Rightarrow> (string, string list) dict" where
  "ensure_key name d = (if map_of d name = None then dict_set name [] d else d)"

definition build_console_tree :: "string \<Rightarrow> (string, sub_entry) dict \<Rightarrow> console_tree" where
  "build_console_tree root_name subs =
    (let children = fold add_child subs [];
         sorted = map (\<lambda>(p, ns). (p, sort ns)) children
     in \<lparr>ct_root = root_name, ct_children = fold ensure_key (root_name # dict_keys subs) sorted\<rparr>)"

definition get_console_tree :: "console_registry \<Rightarrow> console_tree option" where
  "get_console_tree g =
    (case get_root g of
       None \<Rightarrow> None
     | Some (_, name) \<Rightarrow> if name = [] then None else Some (build_console_tree name (cg_subs g)))"

record console_row =
  cw_name :: string
  cw_parent :: "string option"
  cw_type :: string
  cw_module :: string

definition get_console_map :: "console_registry \<Rightarrow> (string, console_row) dict" where
  "get_console_map g =
    fold (\<lambda>(name, k, p). dict_set name
            \<lparr>cw_name = name, cw_parent = p, cw_type = kc_name k, cw_module = kc_module k\<rparr>)
      (iter_consoles g) []"

subsection \<open>Registering with a manager\<close>

text \<open>What the registry writes in a \<open>ConsoleManager\<close>.\<close>

record manager_names =
  mn_registry :: "(string, console_class \<times> (string, pyval) dict) dict"
  mn_root_name :: "string option"
  mn_tree :: "console_tree option"

fun register_subs ::
  "(string \<times> sub_entry) list \<Rightarrow> 'a manager_names_scheme \<Rightarrow> unit res \<times> 'a manager_names_scheme" where
  "register_subs [] m = (Inr (), m)"
| "register_subs ((name, e) # rest) m =
    (case get_console_kwargs (se_cls e) of
       Inl x \<Rightarrow> (Inl x, m)
     | Inr kw \<Rightarrow> register_subs rest (m\<lparr>mn_registry := dict_set name (se_cls e, kw) (mn_registry m)\<rparr>))"

definition orphan :: "'a manager_names_scheme \<Rightarrow> string \<times> sub_entry \<Rightarrow> bool" where
  "orphan m e \<longleftrightarrow> map_of (mn_registry m) (se_parent (snd e)) = None"

definition register_all ::
  "console_registry \<Rightarrow> 'a manager_names_scheme \<Rightarrow> unit res \<times> 'a manager_names_scheme" where
  "register_all g m =
    (case cg_root_cls g of
       None \<Rightarrow> (Inl (PyExc ConsoleInitExceptionC ''Root console not set''), m)
     | Some k \<Rightarrow>
         let root = (case cg_root_name g of None \<Rightarrow> [] | Some n \<Rightarrow> n);
             m1 = m\<lparr>mn_root_name := cg_root_name g\<rparr>
         in case get_console_kwargs k of
              Inl e \<Rightarrow> (Inl e, m1)
            | Inr kw \<Rightarrow>
                let m2 = m1\<lparr>mn_registry := dict_set root (k, kw) (mn_registry m1)\<rparr> in
                (case register_subs (cg_subs g) m2 of
                   (Inl e, m3) \<Rightarrow> (Inl e, m3)
                 | (Inr _, m3) \<Rightarrow>
                     (case find (orphan m3) (cg_subs g) of
                        Some (name, e) \<Rightarrow>
                          (Inl (PyExc ConsoleInitExceptionC
                             (''Parent console ['' @ se_parent e @ ''] for ['' @ name @ ''] not registered'')), m3)
                      | None \<Rightarrow> (Inr (), m3\<lparr>mn_tree := Some (build_console_tree root (cg_subs g))\<rparr>))))"

section \<open>The decorators\<close>

definition root_decorator :: "console_class \<Rightarrow> console_registry \<Rightarrow> unit res \<times> console_registry" where
  "root_decorator k g =
    (if \<not> kc_is_main k
     then (Inl (PyExc ConsoleInitExceptionC ''Root console must inherit MainConsole''), g)
     else set_root k g)"

definition sub_decorator :: "string option \<Rightarrow> console_class \<Rightarrow> console_registry \<Rightarrow> unit res \<times> console_registry" where
  "sub_decorator parent k g =
    (if \<not> truthy_str parent
     then (Inl (PyExc ConsoleInitExceptionC ''Sub console parent name is empty''), g)
     else if \<not> kc_is_sub k
     then (Inl (PyExc ConsoleInitExceptionC ''Sub console must inherit SubConsole''), g)
     else add_sub k (the parent) g)"

definition multi_decorator ::
  "(string option \<times> string option) list option \<Rightarrow> console_class \<Rightarrow> console_registry
   \<Rightarrow> unit res \<times> console_registry" where
  "multi_decorator parent_map k g =
    (if parent_map = None \<or> parent_map = Some []
     then (Inl (PyExc ConsoleInitExceptionC ''Multi console mapping is empty''), g)
     else if \<not> kc_is_sub k
     then (Inl (PyExc ConsoleInitExceptionC ''Multi console must inherit SubConsole''), g)
     else add_multi k parent_map g)"

end
