(* ===== verification/ConsoleRegistryFacts.thy ===== *)
theory ConsoleRegistryFacts
  imports ConsoleRegistry
begin

text \<open>
  What holds of the console registry: names stay unique, and the tree is the parent relation.
\<close>

section \<open>Unique names\<close>

definition registry_ok :: "console_registry \<Rightarrow> bool" where
  "registry_ok g \<longleftrightarrow> dict_ok (cg_subs g) \<and>
    (case cg_root_cls g of
       None \<Rightarrow> cg_root_name g = None
     | Some k \<Rightarrow> get_console_name k \<noteq> [] \<and> cg_root_name g = Some (get_console_name k) \<and>
         map_of (cg_subs g) (get_console_name k) = None)"

definition console_names :: "console_registry \<Rightarrow> string list" where
  "console_names g = map fst (iter_consoles g)"

lemma console_names_eq:
  "console_names g = (case get_root g of None \<Rightarrow> [] | Some (k, n) \<Rightarrow> [n]) @ dict_keys (cg_subs g)"
  by (auto simp: console_names_def iter_consoles_def comp_def split_beta split: option.split)

lemma get_root_ok:
  "registry_ok g \<Longrightarrow> get_root g = map_option (\<lambda>k. (k, get_console_name k)) (cg_root_cls g)"
  by (auto simp: registry_ok_def get_root_def truthy_str_def split: option.splits)

lemma registry_ok_distinct: "registry_ok g \<Longrightarrow> distinct (console_names g)"
  by (auto simp: console_names_eq get_root_ok registry_ok_def dict_ok_def map_of_eq_None split: option.splits)

lemma registry_ok_put:
  "registry_ok g \<Longrightarrow> \<not> name_taken n g \<Longrightarrow> registry_ok (put_sub k p n g)"
  by (auto simp: registry_ok_def name_taken_def put_sub_def dict_simps split: option.splits)

lemma registry_ok_add_sub: "registry_ok g \<Longrightarrow> registry_ok (snd (add_sub k p g))"
  by (simp add: add_sub_def Let_def registry_ok_put)

lemma registry_ok_instances: "registry_ok g \<Longrightarrow> registry_ok (snd (add_instances k ps g))"
  by (induction k ps g rule: add_instances.induct) (simp_all add: Let_def registry_ok_put)

lemma registry_ok_add_multi: "registry_ok g \<Longrightarrow> registry_ok (snd (add_multi k pm g))"
  by (auto simp: add_multi_def registry_ok_instances split: option.split list.split)

lemma registry_ok_set_root:
  "registry_ok g \<Longrightarrow> get_console_name k \<noteq> [] \<Longrightarrow> map_of (cg_subs g) (get_console_name k) = None \<Longrightarrow>
   registry_ok (snd (set_root k g))"
  by (auto simp: registry_ok_def set_root_def split: option.splits)

lemma registry_ok_new [simp]: "registry_ok new_console_registry"
  by (simp add: registry_ok_def new_console_registry_def)

text \<open>The decorators as the operations of modules that declare consoles.\<close>

datatype console_decl =
    DeclRoot console_class
  | DeclSub "string option" console_class
  | DeclMulti "(string option \<times> string option) list option" console_class

fun declare_console :: "console_decl \<Rightarrow> console_registry \<Rightarrow> unit res \<times> console_registry" where
  "declare_console (DeclRoot k) = root_decorator k"
| "declare_console (DeclSub p k) = sub_decorator p k"
| "declare_console (DeclMulti pm k) = multi_decorator pm k"

fun is_root_decl :: "console_decl \<Rightarrow> bool" where
  "is_root_decl (DeclRoot k) = True"
| "is_root_decl _ = False"

lemma registry_ok_declare:
  "registry_ok g \<Longrightarrow> \<not> is_root_decl d \<Longrightarrow> registry_ok (snd (declare_console d g))"
  by (cases d) (simp_all add: sub_decorator_def multi_decorator_def registry_ok_add_sub registry_ok_add_multi)

lemma registry_ok_declare_all:
  "registry_ok g \<Longrightarrow> list_all (\<lambda>d. \<not> is_root_decl d) ds \<Longrightarrow>
   registry_ok (fold (\<lambda>d g. snd (declare_console d g)) ds g)"
  by (induction ds arbitrary: g) (simp_all add: registry_ok_declare)

text \<open>C33: console names are unique. When the root is declared first, then after any sub and multi
  declarations, refused ones and half-applied ones included, no two consoles that
  \<open>iter_consoles\<close> yields have the same name.\<close>

theorem console_names_unique:
  assumes "kc_name k \<noteq> []" and "list_all (\<lambda>d. \<not> is_root_decl d) ds"
  shows "distinct (map fst (iter_consoles
    (fold (\<lambda>d g. snd (declare_console d g)) ds (snd (declare_console (DeclRoot k) new_console_registry)))))"
proof -
  have "get_console_name k \<noteq> []"
    using assms(1) by (auto simp: get_console_name_def truthy_str_def)
  then have "registry_ok (snd (set_root k new_console_registry))"
    by (intro registry_ok_set_root registry_ok_new) (simp_all add: new_console_registry_def)
  then have "registry_ok (snd (declare_console (DeclRoot k) new_console_registry))"
    by (simp add: root_decorator_def)
  from registry_ok_distinct [OF registry_ok_declare_all [OF this assms(2)]]
  show ?thesis by (simp add: console_names_def)
qed

definition demo_console :: "nat \<Rightarrow> string \<Rightarrow> bool \<Rightarrow> console_class" where
  "demo_console i n main = \<lparr>kc_id = i, kc_name = n, kc_module = ''m'', kc_console_name = None,
    kc_CONSOLE_NAME = None, kc_kwargs = NoKwargs, kc_is_main = main, kc_is_sub = \<not> main\<rparr>"

definition demo_decls :: "console_decl list" where
  "demo_decls = [DeclSub (Some ''root'') (demo_console 2 ''Mod'' False),
    DeclMulti (Some [(Some ''root'', Some ''x''), (Some ''mod'', Some ''x'')]) (demo_console 3 ''X'' False),
    DeclSub (Some ''mod'') (demo_console 4 ''Root'' False)]"

definition demo_consoles :: console_registry where
  "demo_consoles = fold (\<lambda>d g. snd (declare_console d g)) demo_decls
     (snd (declare_console (DeclRoot (demo_console 1 ''Root'' True)) new_console_registry))"

lemma console_names_unique_witness:
  "distinct (map fst (iter_consoles demo_consoles)) \<and> length (iter_consoles demo_consoles) = 4"
proof -
  have "kc_name (demo_console 1 ''Root'' True) \<noteq> []" "list_all (\<lambda>d. \<not> is_root_decl d) demo_decls"
    "length (iter_consoles demo_consoles) = 4" by code_simp+
  then show ?thesis using console_names_unique unfolding demo_consoles_def by blast
qed

text \<open>
  \<open>set_root\<close> does not look at the sub consoles: declared after a sub console of its name,
  the root shares the name with it.
\<close>

lemma late_root_duplicates_name:
  "map fst (iter_consoles (snd (set_root (demo_console 1 ''Root'' True)
     (snd (add_sub (demo_console 2 ''Root'' False) ''root'' new_console_registry))))) = [''root'', ''root'']"
  by code_simp

section \<open>The tree is the parent relation\<close>

lemma add_child_get:
  "map_of (fold add_child es d) p =
    (if map_of d p = None \<and> (\<forall>e \<in> set es. se_parent (snd e) \<noteq> p) then None
     else Some (dict_get_or d p [] @ map fst (filter (\<lambda>e. se_parent (snd e) = p) es)))"
proof (induction es arbitrary: d)
  case Nil
  then show ?case by (simp add: dict_get_or_def split: option.split)
next
  case (Cons e es)
  then show ?case
    by (cases e) (auto simp: add_child_def dict_simps dict_get_or_def split: option.splits)
qed

lemma ensure_key_get:
  "map_of (fold ensure_key ns d) p =
    (case map_of d p of Some x \<Rightarrow> Some x | None \<Rightarrow> if p \<in> set ns then Some [] else None)"
  by (induction ns arbitrary: d) (auto simp: ensure_key_def dict_simps split: option.split)

lemma map_of_sorted: "map_of (map (\<lambda>(p, ns). (p, f ns)) d) p = map_option f (map_of d p)"
  by (induction d) auto

text \<open>C20: the console tree refines the parent relation. In the tree of a registry every console
  has a list of children: exactly the consoles registered with it as their parent, in
  alphabetical order and without repetition.\<close>

theorem tree_is_parent_relation:
  assumes "dict_ok subs" and "n \<in> set (rt # dict_keys subs)"
  shows "\<exists>cs. map_of (ct_children (build_console_tree rt subs)) n = Some cs \<and> sorted cs \<and> distinct cs \<and>
    (\<forall>c. c \<in> set cs \<longleftrightarrow> (\<exists>e. map_of subs c = Some e \<and> se_parent e = n))"
proof -
  define cs where "cs = sort (map fst (filter (\<lambda>e. se_parent (snd e) = n) subs))"
  have "map_of (fold add_child subs []) n =
      (if \<forall>e \<in> set subs. se_parent (snd e) \<noteq> n then None
       else Some (map fst (filter (\<lambda>e. se_parent (snd e) = n) subs)))"
    using add_child_get [of subs "[]" n] by (simp add: dict_get_or_def)
  moreover have "filter (\<lambda>e. se_parent (snd e) = n) subs = []" if "\<forall>e \<in> set subs. se_parent (snd e) \<noteq> n"
    using that by simp
  ultimately have "map_of (ct_children (build_console_tree rt subs)) n = Some cs"
    using assms(2) unfolding build_console_tree_def Let_def
    by (simp add: ensure_key_get map_of_sorted cs_def del: fold.simps)
  moreover have "sorted cs" by (simp add: cs_def)
  moreover have "distinct cs"
    using assms(1) by (simp add: cs_def dict_ok_def distinct_map_filter)
  moreover have "c \<in> set cs \<longleftrightarrow> (\<exists>e. map_of subs c = Some e \<and> se_parent e = n)" for c
    using dict_mem_iff [OF assms(1)] by (force simp: cs_def)
  ultimately show ?thesis by blast
qed

lemma tree_is_parent_relation_witness:
  "\<exists>cs. map_of (ct_children (build_console_tree ''root'' (cg_subs demo_consoles))) ''root'' = Some cs \<and>
     set cs = {''mod'', ''root_x''} \<and> sorted cs"
proof -
  have "dict_ok (cg_subs demo_consoles)" unfolding dict_ok_def by code_simp
  from tree_is_parent_relation [OF this, of "''root''" "''root''"]
  obtain cs where cs: "map_of (ct_children (build_console_tree ''root'' (cg_subs demo_consoles))) ''root'' = Some cs"
    "sorted cs" by auto
  moreover have "map_of (ct_children (build_console_tree ''root'' (cg_subs demo_consoles))) ''root'' =
      Some [''mod'', ''root_x'']" by code_simp
  ultimately show ?thesis by auto
qed

end
