(* ===== verification/Packages.thy ===== *)
theory Packages
  imports ConsoleRegistryFacts
begin

text \<open>
  What the packages export and how console modules are loaded: the lazy \<open>__getattr__\<close> of
  \<open>python_tty/__init__.py\<close> and \<open>executor/__init__.py\<close>, and \<open>consoles/loader.py\<close>. An exported
  object is named by its module and its name there. The body of a console module is a parameter
  that takes the modules loaded so far and the console registry to new ones.
\<close>

section \<open>Lazy exports\<close>

type_synonym export = "string \<times> string"

definition package_all :: "string list" where
  "package_all = [''UIEvent'', ''UIEventLevel'', ''EventBase'', ''RuntimeEvent'', ''RuntimeEventKind'',
     ''UIEventListener'', ''UIEventSpeaker'', ''ConsoleFactory'', ''Config'', ''proxy_print'']"

definition event_exports :: "(string \<times> export) list" where
  "event_exports = map (\<lambda>n. (n, (''python_tty.runtime.events'', n)))
     [''UIEvent'', ''UIEventLevel'', ''EventBase'', ''RuntimeEvent'', ''RuntimeEventKind'', ''UIEventListener'',
      ''UIEventSpeaker'']"

text \<open>The name is an identifier, so its \<open>repr\<close> is the name between single quotes.\<close>

definition quoted :: "string \<Rightarrow> string" where
  "quoted s = CHR 0x27 # s @ [CHR 0x27]"

definition no_attribute :: "string \<Rightarrow> string \<Rightarrow> pyexc" where
  "no_attribute package name =
    PyExc AttributeErrorC (''module '' @ quoted package @ '' has no attribute '' @ quoted name)"

definition package_getattr :: "string \<Rightarrow> export res" where
  "package_getattr name =
    (if name = ''Config'' then Inr (''python_tty.config'', ''Config'')
     else if name = ''ConsoleFactory'' then Inr (''python_tty.console_factory'', ''ConsoleFactory'')
     else if name = ''proxy_print'' then Inr (''python_tty.runtime.router'', ''proxy_print'')
     else case map_of event_exports name of
            Some x \<Rightarrow> Inr x
          | None \<Rightarrow> Inl (no_attribute ''python_tty'' name))"

definition executor_all :: "string list" where
  "executor_all = [''CommandExecutor'', ''Invocation'', ''RunState'', ''RunStatus'']"

definition executor_getattr :: "string \<Rightarrow> export res" where
  "executor_getattr name =
    (if name = ''CommandExecutor'' then Inr (''python_tty.executor.executor'', ''CommandExecutor'')
     else if name = ''Invocation'' then Inr (''python_tty.executor.models'', ''Invocation'')
     else if name = ''RunState'' then Inr (''python_tty.executor.models'', ''RunState'')
     else if name = ''RunStatus'' then Inr (''python_tty.executor.models'', ''RunStatus'')
     else Inl (no_attribute ''python_tty.executor'' name))"

text \<open>Both tables answer for exactly the names of \<open>__all__\<close>, each with the object of that name.\<close>

lemma package_exports_resolve:
  "(\<exists>m. package_getattr name = Inr (m, name)) \<longleftrightarrow> name \<in> set package_all"
  "package_getattr name = Inr (m, n) \<Longrightarrow> n = name"
  by (auto simp: package_getattr_def package_all_def event_exports_def split: if_splits)

lemma executor_exports_resolve:
  "(\<exists>m. executor_getattr name = Inr (m, name)) \<longleftrightarrow> name \<in> set executor_all"
  "executor_getattr name = Inr (m, n) \<Longrightarrow> n = name"
  by (auto simp: executor_getattr_def executor_all_def split: if_splits)

section \<open>Loading console modules\<close>

record import_state =
  im_loaded :: "string list"           \<comment> \<open>\<open>sys.modules\<close>\<close>
  im_registry :: console_registry

type_synonym module_body = "string \<Rightarrow> import_state \<Rightarrow> unit res \<times> import_state"

text \<open>
  \<open>importlib.import_module\<close>: the body runs once, with the module already listed; when it raises,
  the module is no longer listed, what it did to the registry stays.
\<close>

definition import_module :: "module_body \<Rightarrow> string \<Rightarrow> import_state \<Rightarrow> unit res \<times> import_state" where
  "import_module body name st =
    (if name \<in> set (im_loaded st) then (Inr (), st)
     else case body name (st\<lparr>im_loaded := name # im_loaded st\<rparr>) of
            (Inl e, st1) \<Rightarrow> (Inl e, st1\<lparr>im_loaded := removeAll name (im_loaded st1)\<rparr>)
          | (Inr _, st1) \<Rightarrow> (Inr (), st1))"

fun import_modules :: "module_body \<Rightarrow> string list \<Rightarrow> import_state \<Rightarrow> unit res \<times> import_state" where
  "import_modules body [] st = (Inr (), st)"
| "import_modules body (name # rest) st =
    (case import_module body name st of
       (Inl e, st1) \<Rightarrow> (Inl e, st1)
     | (Inr _, st1) \<Rightarrow> import_modules body rest st1)"

datatype modules_arg = DefaultModules | ModuleSeq "string list" | ModuleOne string

definition DEFAULT_CONSOLE_MODULES :: "string list" where
  "DEFAULT_CONSOLE_MODULES = []"

text \<open>\<open>defaults\<close> is the module global, which an application may rebind.\<close>

definition load_consoles ::
  "module_body \<Rightarrow> string list \<Rightarrow> modules_arg \<Rightarrow> import_state \<Rightarrow> unit res \<times> import_state" where
  "load_consoles body defaults modules st =
    import_modules body
      (case modules of DefaultModules \<Rightarrow> defaults | ModuleSeq ms \<Rightarrow> ms | ModuleOne m \<Rightarrow> [m]) st"

text \<open>A module that only declares consoles, up to the declaration that is refused.\<close>

fun declare_each :: "console_decl list \<Rightarrow> console_registry \<Rightarrow> unit res \<times> console_registry" where
  "declare_each [] g = (Inr (), g)"
| "declare_each (d # ds) g =
    (case declare_console d g of (Inl e, g1) \<Rightarrow> (Inl e, g1) | (Inr _, g1) \<Rightarrow> declare_each ds g1)"

definition declaring :: "(string \<Rightarrow> console_decl list) \<Rightarrow> module_body" where
  "declaring decls name st =
    (case declare_each (decls name) (im_registry st) of (out, g) \<Rightarrow> (out, st\<lparr>im_registry := g\<rparr>))"

section \<open>Modules load once\<close>

text \<open>No module unloads one that was loaded before it.\<close>

definition keeps_loaded :: "module_body \<Rightarrow> bool" where
  "keeps_loaded body \<longleftrightarrow> (\<forall>name st. set (im_loaded st) \<subseteq> set (im_loaded (snd (body name st))))"

lemma declaring_keeps_loaded: "keeps_loaded (declaring decls)"
  by (simp add: keeps_loaded_def declaring_def split_beta)

lemma import_module_loads:
  assumes "keeps_loaded body" and "import_module body name st = (Inr (), st1)"
  shows "insert name (set (im_loaded st)) \<subseteq> set (im_loaded st1)"
proof (cases "name \<in> set (im_loaded st)")
  case False
  let ?st = "st\<lparr>im_loaded := name # im_loaded st\<rparr>"
  have "st1 = snd (body name ?st)"
    using assms(2) False by (auto simp: import_module_def split: prod.splits sum.splits)
  moreover have "set (im_loaded ?st) \<subseteq> set (im_loaded (snd (body name ?st)))"
    using assms(1) unfolding keeps_loaded_def by blast
  ultimately show ?thesis by simp
qed (use assms(2) in \<open>auto simp: import_module_def\<close>)

lemma import_modules_loads:
  assumes "keeps_loaded body"
  shows "import_modules body names st = (Inr (), st1) \<Longrightarrow> set names \<union> set (im_loaded st) \<subseteq> set (im_loaded st1)"
proof (induction names arbitrary: st)
  case (Cons name names)
  obtain st2 where st2: "import_module body name st = (Inr (), st2)" "import_modules body names st2 = (Inr (), st1)"
    using Cons.prems by (auto split: prod.splits sum.splits)
  show ?case using import_module_loads [OF assms st2(1)] Cons.IH [OF st2(2)] by auto
qed simp

lemma import_loaded_modules: "set names \<subseteq> set (im_loaded st) \<Longrightarrow> import_modules body names st = (Inr (), st)"
  by (induction names) (simp_all add: import_module_def)

text \<open>Loading again what was loaded does nothing: no console is registered twice.\<close>

lemma load_consoles_once:
  assumes "keeps_loaded body" and "load_consoles body defaults modules st = (Inr (), st1)"
  shows "load_consoles body defaults modules st1 = (Inr (), st1)"
  using import_modules_loads [OF assms(1)] assms(2) import_loaded_modules [of _ st1 body]
  by (simp add: load_consoles_def)

text \<open>What the factory loads is nothing while nobody rebinds the default.\<close>

lemma load_default_nothing: "load_consoles body DEFAULT_CONSOLE_MODULES DefaultModules st = (Inr (), st)"
  by (simp add: load_consoles_def DEFAULT_CONSOLE_MODULES_def)

text \<open>
  A load that failed cannot be repeated: the module runs again on the registry it left half filled,
  and the second attempt reports the root it finds there in place of the first error.
\<close>

definition demo_modules :: "string \<Rightarrow> console_decl list" where
  "demo_modules name = [DeclRoot (demo_console 1 ''Root'' True), DeclSub None (demo_console 2 ''Mod'' False)]"

definition demo_load :: "import_state \<Rightarrow> unit res \<times> import_state" where
  "demo_load = load_consoles (declaring demo_modules) DEFAULT_CONSOLE_MODULES (ModuleOne ''app'')"

lemma failed_load_spoils_retry:
  "let (first, st) = demo_load \<lparr>im_loaded = [], im_registry = new_console_registry\<rparr> in
     first = Inl (PyExc ConsoleInitExceptionC ''Sub console parent name is empty'') \<and> im_loaded st = [] \<and>
     fst (demo_load st) = Inl (PyExc ConsoleInitExceptionC ''Root console already set'')"
  by code_simp

end
