(* ===== verification/Events.thy ===== *)
theory Events
  imports Models
begin

text \<open>
  Runtime and UI events (\<open>runtime/events.py\<close>). \<open>EventBase\<close> is the record
  \<open>event_base\<close>, which a \<open>UIEvent\<close> does not extend and a \<open>RuntimeEvent\<close> extends
  with its kind and with the attributes the executor or the router attach later
  (\<open>_attach_event_context\<close>, \<open>_attach_runtime_context\<close>); an attribute that was never
  set reads as \<open>None\<close>, as the code's \<open>getattr(event, name, None)\<close> does.
\<close>

section \<open>Levels\<close>

datatype ui_level = TEXT | INFO | WARNING | ERROR | SUCCESS | FAILURE | DEBUG

fun level_value :: "ui_level \<Rightarrow> int" where
  "level_value TEXT = -1"
| "level_value INFO = 0"
| "level_value WARNING = 1"
| "level_value ERROR = 2"
| "level_value SUCCESS = 3"
| "level_value FAILURE = 4"
| "level_value DEBUG = 5"

definition map_level :: "int \<Rightarrow> ui_level option" where
  "map_level code =
    (if code = 0 then Some INFO
     else if code = 1 then Some WARNING
     else if code = 2 then Some ERROR
     else if code = 3 then Some SUCCESS
     else if code = 4 then Some FAILURE
     else if code = 5 then Some DEBUG
     else None)"

text \<open>What a caller may pass as a level: a \<open>UIEventLevel\<close>, an integer, or nothing.\<close>

datatype level_arg = NoLevel | Level ui_level | LevelInt int

lemma map_level_value: "l \<noteq> TEXT \<Longrightarrow> map_level (level_value l) = Some l"
  by (cases l) (simp_all add: map_level_def)

lemma map_level_SomeD: "map_level c = Some l \<Longrightarrow> level_value l = c \<and> l \<noteq> TEXT"
  by (auto simp: map_level_def split: if_splits)

section \<open>Kinds\<close>

datatype event_kind = STATE | STDOUT | LOG

fun kind_value :: "event_kind \<Rightarrow> string" where
  "kind_value STATE = ''state''"
| "kind_value STDOUT = ''stdout''"
| "kind_value LOG = ''log''"

datatype kind_arg = NoKind | Kind event_kind | KindValue pyval

definition kind_of_value :: "pyval \<Rightarrow> event_kind option" where
  "kind_of_value v =
    (if v = VStr ''state'' then Some STATE
     else if v = VStr ''stdout'' then Some STDOUT
     else if v = VStr ''log'' then Some LOG
     else None)"

fun normalize_runtime_kind :: "kind_arg \<Rightarrow> event_kind option" where
  "normalize_runtime_kind (Kind k) = Some k"
| "normalize_runtime_kind NoKind = None"
| "normalize_runtime_kind (KindValue v) = kind_of_value v"

lemma kind_of_value_roundtrip: "kind_of_value (VStr (kind_value k)) = Some k"
  by (cases k) (simp_all add: kind_of_value_def)

section \<open>Events\<close>

record event_base =
  ev_msg :: pyval
  ev_level :: level_arg
  ev_run_id :: "string option"
  ev_event_type :: "string option"
  ev_payload :: pyval
  ev_source :: "string option"
  ev_ts :: "real option"
  ev_seq :: "int option"

type_synonym ui_event = event_base

record runtime_event = event_base +
  ev_kind :: "event_kind option"
  ev_session_id :: "string option"
  ev_parent_run_id :: "string option"
  ev_depth :: "int option"
  ev_origin_source :: "string option"
  ev_principal :: "string option"
  ev_lock_key :: "string option"
  ev_command_id :: "string option"
  ev_callable_meta :: "(string, pyval) dict option"

text \<open>
  \<open>EventBase.__init__\<close>: the timestamp is the clock's when the caller gives none; \<open>now\<close>
  is what \<open>time.time()\<close> returns there.
\<close>

definition event_ts :: "real \<Rightarrow> real option \<Rightarrow> real option" where
  "event_ts now ts = (case ts of None \<Rightarrow> Some now | Some t \<Rightarrow> Some t)"

definition mk_ui_event ::
  "real \<Rightarrow> pyval \<Rightarrow> level_arg \<Rightarrow> string option \<Rightarrow> string option \<Rightarrow> pyval \<Rightarrow> string option
   \<Rightarrow> real option \<Rightarrow> int option \<Rightarrow> ui_event" where
  "mk_ui_event now msg level run_id event_type payload source ts seq =
    \<lparr>ev_msg = msg, ev_level = level, ev_run_id = run_id, ev_event_type = event_type,
     ev_payload = payload, ev_source = source, ev_ts = event_ts now ts, ev_seq = seq\<rparr>"

definition mk_runtime_event ::
  "real \<Rightarrow> kind_arg \<Rightarrow> pyval \<Rightarrow> level_arg \<Rightarrow> string option \<Rightarrow> string option \<Rightarrow> pyval
   \<Rightarrow> string option \<Rightarrow> real option \<Rightarrow> int option \<Rightarrow> runtime_event" where
  "mk_runtime_event now kind msg level run_id event_type payload source ts seq =
    \<lparr>ev_msg = msg, ev_level = level, ev_run_id = run_id, ev_event_type = event_type,
     ev_payload = payload, ev_source = source, ev_ts = event_ts now ts, ev_seq = seq,
     ev_kind = normalize_runtime_kind kind, ev_session_id = None, ev_parent_run_id = None,
     ev_depth = None, ev_origin_source = None, ev_principal = None, ev_lock_key = None,
     ev_command_id = None, ev_callable_meta = None\<rparr>"

text \<open>
  \<open>RuntimeEvent.to_ui_event\<close>: every base field is copied, and the timestamp is passed on,
  so the constructor's clock read happens only for an event without one.
\<close>

definition to_ui_event :: "real \<Rightarrow> runtime_event \<Rightarrow> ui_event" where
  "to_ui_event now e =
    mk_ui_event now (ev_msg e) (ev_level e) (ev_run_id e) (ev_event_type e) (ev_payload e)
      (ev_source e) (ev_ts e) (ev_seq e)"

lemmas event_defs = mk_ui_event_def mk_runtime_event_def to_ui_event_def event_ts_def

lemma to_ui_event_truncate:
  "ev_ts e = Some t \<Longrightarrow> to_ui_event now e = event_base.truncate e"
  by (simp add: event_defs event_base.defs)

text \<open>
  \<open>_is_terminal_event\<close>, defined alike in \<open>session/manager.py\<close>,
  \<open>session/callbacks.py\<close> and \<open>frontends/rpc/core.py\<close>.
\<close>

definition terminal_types :: "string list" where
  "terminal_types = [''success'', ''failure'', ''cancelled'', ''timeout'']"

definition is_terminal_event :: "runtime_event \<Rightarrow> bool" where
  "is_terminal_event e \<longleftrightarrow>
    ev_kind e = Some STATE \<and>
    (case ev_event_type e of None \<Rightarrow> False | Some t \<Rightarrow> t \<in> set terminal_types)"

section \<open>UIEventSpeaker\<close>

text \<open>
  The speaker keeps its listeners in a list; listeners are objects, here numbers.
  \<open>list.remove\<close> raises \<open>ValueError\<close> for an unknown listener. Notifying hands the event to
  every listener in order: the result is the list of deliveries.
\<close>

type_synonym listener = nat

definition add_event_listener :: "listener \<Rightarrow> listener list \<Rightarrow> listener list" where
  "add_event_listener l ls = ls @ [l]"

definition remove_event_listener :: "listener \<Rightarrow> listener list \<Rightarrow> listener list res" where
  "remove_event_listener l ls =
    (if l \<in> set ls then Inr (remove1 l ls)
     else Inl (PyExc ValueErrorC ''list.remove(x): x not in list''))"

definition notify_event_listeners :: "listener list \<Rightarrow> ui_event \<Rightarrow> (listener \<times> ui_event) list" where
  "notify_event_listeners ls e = map (\<lambda>l. (l, e)) ls"

lemma add_remove_listener:
  "l \<notin> set ls \<Longrightarrow> remove_event_listener l (add_event_listener l ls) = Inr ls"
  by (induction ls) (auto simp: remove_event_listener_def add_event_listener_def)

end
