(* ===== verification/EventBus.thy ===== *)
theory EventBus
  imports Events
begin

text \<open>
  \<open>asyncio.Queue\<close> as far as the program uses it, and the per-run event bus
  (\<open>runtime/event_bus.py\<close>). Queues are objects shared between the bus and its consumers, so
  the bus record holds them in a heap: the subscriber lists hold addresses, and a consumer
  keeps the address that \<open>subscribe\<close> returned.
\<close>

section \<open>asyncio.Queue\<close>

record 'a aqueue =
  q_items :: "'a list"
  q_max :: int

definition new_queue :: "int \<Rightarrow> 'a aqueue" where
  "new_queue maxsize = \<lparr>q_items = [], q_max = maxsize\<rparr>"

definition q_full :: "'a aqueue \<Rightarrow> bool" where
  "q_full q \<longleftrightarrow> 0 < q_max q \<and> q_max q \<le> int (length (q_items q))"

text \<open>\<open>put_nowait\<close>: \<open>None\<close> is the exception \<open>asyncio.QueueFull\<close>.\<close>

definition put_nowait :: "'a \<Rightarrow> 'a aqueue \<Rightarrow> 'a aqueue option" where
  "put_nowait x q = (if q_full q then None else Some (q\<lparr>q_items := q_items q @ [x]\<rparr>))"

text \<open>\<open>try: queue.put_nowait(x) except QueueFull: continue\<close>.\<close>

definition put_or_skip :: "'a \<Rightarrow> 'a aqueue \<Rightarrow> 'a aqueue" where
  "put_or_skip x q = (case put_nowait x q of None \<Rightarrow> q | Some q' \<Rightarrow> q')"

definition get_nowait :: "'a aqueue \<Rightarrow> ('a \<times> 'a aqueue) option" where
  "get_nowait q = (case q_items q of [] \<Rightarrow> None | x # xs \<Rightarrow> Some (x, q\<lparr>q_items := xs\<rparr>))"

definition queue_ok :: "'a aqueue \<Rightarrow> bool" where
  "queue_ok q \<longleftrightarrow> (0 < q_max q \<longrightarrow> int (length (q_items q)) \<le> q_max q)"

lemmas queue_defs = new_queue_def q_full_def put_nowait_def put_or_skip_def get_nowait_def

lemma put_or_skip_max [simp]: "q_max (put_or_skip x q) = q_max q"
  by (simp add: queue_defs)

lemma put_or_skip_unbounded:
  "q_max q \<le> 0 \<Longrightarrow> put_or_skip x q = q\<lparr>q_items := q_items q @ [x]\<rparr>"
  by (simp add: queue_defs)

lemma queue_ok_new [simp]: "queue_ok (new_queue m)"
  by (simp add: queue_ok_def new_queue_def)

lemma queue_ok_put [simp]: "queue_ok q \<Longrightarrow> queue_ok (put_or_skip x q)"
  by (auto simp: queue_ok_def queue_defs)

section \<open>The bus\<close>

record bus =
  b_subs :: "(string, nat list) dict"
  b_hist :: "(string, runtime_event list) dict"
  b_max :: "int option"
  b_ttl :: "real option"
  b_queues :: "nat \<Rightarrow> runtime_event aqueue"
  b_next :: nat

definition new_bus :: "int option \<Rightarrow> real option \<Rightarrow> bus" where
  "new_bus max_events ttl_seconds =
    \<lparr>b_subs = [], b_hist = [], b_max = max_events, b_ttl = ttl_seconds,
     b_queues = (\<lambda>_. new_queue 0), b_next = 0\<rparr>"

definition history :: "bus \<Rightarrow> string \<Rightarrow> runtime_event list" where
  "history b run_id = dict_get_or (b_hist b) run_id []"

definition subscribers :: "bus \<Rightarrow> string \<Rightarrow> nat list" where
  "subscribers b run_id = dict_get_or (b_subs b) run_id []"

subsection \<open>Pruning\<close>

text \<open>
  \<open>_prune_history\<close>. The time-to-live loop pops from the front while the front is older than
  the cutoff. The size bound is \<open>del history[:-max_events]\<close>: \<open>slice_stop\<close> is Python's
  stop index of \<open>[:i]\<close>, which for a negative \<open>i\<close> counts from the end and for
  \<open>i = 0\<close> (that is, \<open>-0\<close>) is \<open>0\<close>.
\<close>

definition slice_stop :: "int \<Rightarrow> nat \<Rightarrow> nat" where
  "slice_stop i n = (if i < 0 then nat (max 0 (int n + i)) else min (nat i) n)"

definition del_slice_to :: "int \<Rightarrow> 'a list \<Rightarrow> 'a list" where
  "del_slice_to i xs = drop (slice_stop i (length xs)) xs"

definition expired_front :: "real \<Rightarrow> runtime_event \<Rightarrow> bool" where
  "expired_front cutoff e = (case ev_ts e of None \<Rightarrow> False | Some ts \<Rightarrow> ts < cutoff)"

definition prune_ttl :: "real \<Rightarrow> real option \<Rightarrow> runtime_event list \<Rightarrow> runtime_event list" where
  "prune_ttl now ttl h =
    (case ttl of None \<Rightarrow> h | Some t \<Rightarrow> dropWhile (expired_front (now - t)) h)"

definition prune_max :: "int option \<Rightarrow> 'a list \<Rightarrow> 'a list" where
  "prune_max mx h =
    (case mx of None \<Rightarrow> h
     | Some m \<Rightarrow> if 0 \<le> m \<and> m < int (length h) then del_slice_to (- m) h else h)"

definition prune_history :: "real \<Rightarrow> string \<Rightarrow> bus \<Rightarrow> bus" where
  "prune_history now run_id b =
    (case map_of (b_hist b) run_id of
       None \<Rightarrow> b
     | Some h \<Rightarrow>
         if h = [] then b
         else b\<lparr>b_hist := dict_set run_id (prune_max (b_max b) (prune_ttl now (b_ttl b) h))
                           (b_hist b)\<rparr>)"

subsection \<open>Publishing and subscribing\<close>

definition put_all :: "runtime_event \<Rightarrow> nat list \<Rightarrow> (nat \<Rightarrow> runtime_event aqueue)
    \<Rightarrow> (nat \<Rightarrow> runtime_event aqueue)" where
  "put_all e qs heap = fold (\<lambda>q h. h(q := put_or_skip e (h q))) qs heap"

definition publish :: "real \<Rightarrow> string option \<Rightarrow> runtime_event \<Rightarrow> bus \<Rightarrow> bus" where
  "publish now run_id e b =
    (case run_id of None \<Rightarrow> b
     | Some r \<Rightarrow>
         let b1 = b\<lparr>b_hist := dict_set r (history b r @ [e]) (b_hist b)\<rparr>;
             b2 = prune_history now r b1
         in b2\<lparr>b_queues := put_all e (subscribers b2 r) (b_queues b2)\<rparr>)"

text \<open>
  The replay loop of \<open>subscribe\<close>: \<open>put_nowait\<close> is not guarded there, so a replay longer
  than the queue raises \<open>QueueFull\<close> and leaves the queue with what was put before.
\<close>

fun replay :: "runtime_event list \<Rightarrow> runtime_event aqueue \<Rightarrow> bool \<times> runtime_event aqueue" where
  "replay [] q = (True, q)"
| "replay (e # es) q =
    (case put_nowait e q of None \<Rightarrow> (False, q) | Some q' \<Rightarrow> replay es q')"

definition event_seq0 :: "runtime_event \<Rightarrow> int" where
  "event_seq0 e = (case ev_seq e of None \<Rightarrow> 0 | Some s \<Rightarrow> s)"

definition replayed :: "bus \<Rightarrow> string \<Rightarrow> int option \<Rightarrow> runtime_event list" where
  "replayed b run_id since =
    (case since of None \<Rightarrow> []
     | Some s \<Rightarrow> if 0 \<le> s then filter (\<lambda>e. s < event_seq0 e) (history b run_id) else [])"

definition subscribe :: "string \<Rightarrow> int option \<Rightarrow> int \<Rightarrow> bus \<Rightarrow> nat res \<times> bus" where
  "subscribe run_id since maxsize b =
    (let q = b_next b;
         b1 = b\<lparr>b_subs := dict_set run_id (subscribers b run_id @ [q]) (b_subs b),
                b_next := Suc q\<rparr>;
         (ok, queue) = replay (replayed b run_id since) (new_queue maxsize);
         b2 = b1\<lparr>b_queues := (b_queues b1)(q := queue)\<rparr>
     in (if ok then Inr q else Inl (PyExc QueueFullC ''''), b2))"

definition unsubscribe :: "string \<Rightarrow> nat \<Rightarrow> bus \<Rightarrow> bus" where
  "unsubscribe run_id q b =
    (case map_of (b_subs b) run_id of
       None \<Rightarrow> b
     | Some qs \<Rightarrow>
         if qs = [] then b
         else if q \<notin> set qs then b
         else if remove1 q qs = [] then b\<lparr>b_subs := dict_pop run_id (b_subs b)\<rparr>
         else b\<lparr>b_subs := dict_set run_id (remove1 q qs) (b_subs b)\<rparr>)"

definition drop_run :: "string \<Rightarrow> bus \<Rightarrow> bus" where
  "drop_run run_id b =
    b\<lparr>b_subs := dict_pop run_id (b_subs b), b_hist := dict_pop run_id (b_hist b)\<rparr>"

lemmas bus_defs = new_bus_def prune_history_def publish_def unsubscribe_def drop_run_def

section \<open>Well-formed buses\<close>

text \<open>
  Every subscriber address was handed out by \<open>subscribe\<close>, is on one run's list only and
  once, and every queue respects its bound.
\<close>

definition bus_ok :: "bus \<Rightarrow> bool" where
  "bus_ok b \<longleftrightarrow> dict_ok (b_subs b) \<and> dict_ok (b_hist b) \<and>
    (\<forall>r. distinct (subscribers b r)) \<and>
    (\<forall>r q. q \<in> set (subscribers b r) \<longrightarrow> q < b_next b) \<and>
    (\<forall>r r' q. q \<in> set (subscribers b r) \<longrightarrow> q \<in> set (subscribers b r') \<longrightarrow> r = r') \<and>
    (\<forall>q. queue_ok (b_queues b q))"

lemma bus_ok_new [simp]: "bus_ok (new_bus mx ttl)"
  by (simp add: bus_ok_def new_bus_def subscribers_def dict_get_or_def)

lemma put_all_other: "q \<notin> set qs \<Longrightarrow> put_all e qs heap q = heap q"
  unfolding put_all_def by (induction qs arbitrary: heap) auto

lemma put_all_member:
  "distinct qs \<Longrightarrow> q \<in> set qs \<Longrightarrow> put_all e qs heap q = put_or_skip e (heap q)"
proof (induction qs arbitrary: heap)
  case Nil
  then show ?case by simp
next
  case (Cons x qs)
  show ?case
  proof (cases "q = x")
    case True
    with Cons.prems have "q \<notin> set qs" by simp
    then show ?thesis
      using put_all_other [of q qs e "heap(x := put_or_skip e (heap x))"] True
      by (simp add: put_all_def)
  next
    case False
    with Cons.prems have "put_all e qs (heap(x := put_or_skip e (heap x))) q
        = put_or_skip e ((heap(x := put_or_skip e (heap x))) q)"
      by (intro Cons.IH) auto
    with False show ?thesis by (simp add: put_all_def)
  qed
qed

lemma put_all_queue_ok: "(\<forall>q. queue_ok (heap q)) \<Longrightarrow> queue_ok (put_all e qs heap q)"
  unfolding put_all_def by (induction qs arbitrary: heap q) auto

subsection \<open>What publishing does to history, subscribers and queues\<close>

lemma prune_history_frame [simp]:
  "b_subs (prune_history now r b) = b_subs b"
  "b_queues (prune_history now r b) = b_queues b"
  "b_next (prune_history now r b) = b_next b"
  "b_max (prune_history now r b) = b_max b"
  "b_ttl (prune_history now r b) = b_ttl b"
  "subscribers (prune_history now r b) r' = subscribers b r'"
  by (cases "map_of (b_hist b) r"; simp add: prune_history_def subscribers_def)+

lemma prune_ttl_Nil: "prune_max mx (prune_ttl now ttl []) = []"
  by (cases ttl; cases mx) (simp_all add: prune_max_def prune_ttl_def del_slice_to_def)

lemma prune_history_hist:
  "history (prune_history now r b) r' =
    (if r' = r then prune_max (b_max b) (prune_ttl now (b_ttl b) (history b r)) else history b r')"
proof (cases "map_of (b_hist b) r")
  case None
  then have "history b r = []" by (simp add: history_def dict_get_or_def)
  with None show ?thesis by (simp add: prune_history_def prune_ttl_Nil)
next
  case (Some h)
  then have h: "history b r = h" by (simp add: history_def dict_get_or_def)
  show ?thesis
  proof (cases "h = []")
    case True
    with Some h show ?thesis by (simp add: prune_history_def prune_ttl_Nil)
  next
    case False
    with Some h show ?thesis by (simp add: prune_history_def) (simp add: history_def dict_simps)
  qed
qed

lemma dict_ok_prune_history: "dict_ok (b_hist b) \<Longrightarrow> dict_ok (b_hist (prune_history now r b))"
  by (simp add: prune_history_def split: option.split)

lemma publish_None [simp]: "publish now None e b = b"
  by (simp add: publish_def)

lemma publish_frame [simp]:
  "b_subs (publish now r e b) = b_subs b"
  "b_next (publish now r e b) = b_next b"
  "b_max (publish now r e b) = b_max b"
  "b_ttl (publish now r e b) = b_ttl b"
  "subscribers (publish now r e b) r' = subscribers b r'"
  by (cases r; simp add: publish_def Let_def subscribers_def)+

lemma history_publish:
  "history (publish now (Some r) e b) r' =
    (if r' = r then prune_max (b_max b) (prune_ttl now (b_ttl b) (history b r @ [e]))
     else history b r')"
proof -
  let ?b1 = "b\<lparr>b_hist := dict_set r (history b r @ [e]) (b_hist b)\<rparr>"
  have "history (publish now (Some r) e b) r' = history (prune_history now r ?b1) r'"
    by (simp add: publish_def Let_def history_def)
  then show ?thesis
    by (simp add: prune_history_hist) (simp add: history_def dict_simps)
qed

lemma queues_publish:
  assumes "bus_ok b"
  shows "b_queues (publish now (Some r) e b) q =
    (if q \<in> set (subscribers b r) then put_or_skip e (b_queues b q) else b_queues b q)"
proof -
  have heap: "b_queues (publish now (Some r) e b) = put_all e (subscribers b r) (b_queues b)"
    by (simp add: publish_def Let_def) (simp add: subscribers_def)
  have "distinct (subscribers b r)" using assms by (simp add: bus_ok_def)
  then show ?thesis by (simp add: heap put_all_member put_all_other)
qed

lemma bus_ok_publish [simp]: "bus_ok b \<Longrightarrow> bus_ok (publish now r e b)"
proof (cases r)
  case (Some rid)
  assume ok: "bus_ok b"
  have hist: "dict_ok (b_hist (publish now (Some rid) e b))"
    using ok by (simp add: publish_def Let_def bus_ok_def dict_ok_prune_history)
  from ok show ?thesis
    unfolding Some bus_ok_def using hist
    by (simp add: queues_publish [OF ok])
qed simp

subsection \<open>Subscribing, unsubscribing and dropping\<close>

lemma replay_ok:
  "q_max q \<le> 0 \<Longrightarrow> replay es q = (True, q\<lparr>q_items := q_items q @ es\<rparr>)"
  by (induction es arbitrary: q) (simp_all add: queue_defs)

lemma replay_bounded:
  assumes "0 < q_max q" and "int (length (q_items q)) \<le> q_max q"
  shows "replay es q =
    (int (length (q_items q) + length es) \<le> q_max q,
     q\<lparr>q_items := q_items q @ take (nat (q_max q) - length (q_items q)) es\<rparr>)"
  using assms
proof (induction es arbitrary: q)
  case Nil
  then show ?case by simp
next
  case (Cons e es)
  show ?case
  proof (cases "int (length (q_items q)) = q_max q")
    case True
    with Cons.prems show ?thesis by (simp add: queue_defs)
  next
    case False
    with Cons.prems have lt: "int (length (q_items q)) < q_max q" by simp
    let ?q = "q\<lparr>q_items := q_items q @ [e]\<rparr>"
    have step: "replay (e # es) q = replay es ?q"
      using lt by (simp add: queue_defs)
    have "replay es ?q = (int (length (q_items ?q) + length es) \<le> q_max ?q,
        ?q\<lparr>q_items := q_items ?q @ take (nat (q_max ?q) - length (q_items ?q)) es\<rparr>)"
      using Cons.prems lt by (intro Cons.IH) simp_all
    moreover have "nat (q_max q) - length (q_items q) = Suc (nat (q_max q) - Suc (length (q_items q)))"
      using lt by linarith
    ultimately show ?thesis unfolding step by simp
  qed
qed

lemma queue_ok_replay: "queue_ok q \<Longrightarrow> queue_ok (snd (replay es q))"
proof (induction es arbitrary: q)
  case (Cons e es)
  show ?case
  proof (cases "put_nowait e q")
    case (Some q')
    with Cons.prems have "queue_ok q'"
      using queue_ok_put [of q e] by (simp add: put_or_skip_def)
    with Some show ?thesis by (simp add: Cons.IH)
  qed (use Cons.prems in simp)
qed simp

lemma snd_subscribe:
  "snd (subscribe r since m b) =
    b\<lparr>b_subs := dict_set r (subscribers b r @ [b_next b]) (b_subs b), b_next := Suc (b_next b),
      b_queues := (b_queues b)(b_next b := snd (replay (replayed b r since) (new_queue m)))\<rparr>"
  by (simp add: subscribe_def Let_def split_beta)

lemma subscribers_subscribe:
  "subscribers (snd (subscribe r since m b)) r' =
    (if r' = r then subscribers b r @ [b_next b] else subscribers b r')"
  by (simp add: snd_subscribe) (simp add: subscribers_def dict_simps)

lemma subscribe_result:
  "fst (subscribe r since m b) =
    (if fst (replay (replayed b r since) (new_queue m)) then Inr (b_next b)
     else Inl (PyExc QueueFullC ''''))"
  by (simp add: subscribe_def Let_def split_beta)

lemma bus_ok_subscribe [simp]: "bus_ok b \<Longrightarrow> bus_ok (snd (subscribe r since m b))"
proof -
  assume ok: "bus_ok b"
  let ?b = "snd (subscribe r since m b)"
  have new: "b_next b \<notin> set (subscribers b r')" for r'
    using ok by (auto simp: bus_ok_def)
  have "queue_ok (b_queues ?b q)" for q
    using ok queue_ok_replay [of "new_queue m"] by (simp add: snd_subscribe bus_ok_def)
  moreover have "q < b_next ?b" if "q \<in> set (subscribers ?b r')" for q r'
    using ok that unfolding bus_ok_def subscribers_subscribe
    by (auto simp: snd_subscribe less_Suc_eq split: if_splits)
  moreover have "dict_ok (b_subs ?b)" "dict_ok (b_hist ?b)"
    using ok by (simp_all add: snd_subscribe bus_ok_def)
  moreover have "distinct (subscribers ?b r')" for r'
    using ok new by (simp add: subscribers_subscribe bus_ok_def)
  moreover have "r1 = r2" if "q \<in> set (subscribers ?b r1)" "q \<in> set (subscribers ?b r2)" for r1 r2 q
    using ok new that unfolding bus_ok_def subscribers_subscribe
    by (auto split: if_splits)
  ultimately show ?thesis unfolding bus_ok_def by blast
qed

lemma subscribers_unsubscribe:
  "dict_ok (b_subs b) \<Longrightarrow>
   subscribers (unsubscribe r q b) r' =
    (if r' = r then remove1 q (subscribers b r) else subscribers b r')"
  by (auto simp: unsubscribe_def subscribers_def dict_get_or_def dict_simps remove1_idem
      split: option.splits)

lemma unsubscribe_frame [simp]:
  "b_hist (unsubscribe r q b) = b_hist b" "b_queues (unsubscribe r q b) = b_queues b"
  "b_next (unsubscribe r q b) = b_next b" "b_max (unsubscribe r q b) = b_max b"
  "b_ttl (unsubscribe r q b) = b_ttl b"
  by (simp_all add: unsubscribe_def split: option.split)

lemma bus_ok_unsubscribe [simp]: "bus_ok b \<Longrightarrow> bus_ok (unsubscribe r q b)"
proof -
  assume ok: "bus_ok b"
  then have subs: "dict_ok (b_subs b)" by (simp add: bus_ok_def)
  have "dict_ok (b_subs (unsubscribe r q b))"
    using subs by (simp add: unsubscribe_def split: option.split)
  with ok show ?thesis
    unfolding bus_ok_def subscribers_unsubscribe [OF subs]
    by (auto dest: notin_set_remove1 set_remove1_subset [THEN subsetD])
qed

lemma drop_run_simps [simp]:
  "history (drop_run r b) r' = (if r' = r then [] else history b r')"
  "subscribers (drop_run r b) r' = (if r' = r then [] else subscribers b r')"
  "b_queues (drop_run r b) = b_queues b" "b_next (drop_run r b) = b_next b"
  by (simp_all add: drop_run_def history_def subscribers_def dict_simps)

lemma bus_ok_drop [simp]: "bus_ok b \<Longrightarrow> bus_ok (drop_run r b)"
  unfolding bus_ok_def by (simp add: drop_run_def subscribers_def dict_simps)

section \<open>The contract of an event stream\<close>

text \<open>
  What a consumer of events relies on: a live queue receives every published item, in order.
  The bus provides it for one run (below), the job store for its global subscribers.
\<close>

locale event_stream =
  fixes pub :: "'p \<Rightarrow> 's \<Rightarrow> 's"
    and item :: "'p \<Rightarrow> 'e"
    and inbox :: "'s \<Rightarrow> nat \<Rightarrow> 'e list"
    and live :: "'s \<Rightarrow> nat \<Rightarrow> bool"
    and ok :: "'s \<Rightarrow> bool"
  assumes ok_pub: "ok s \<Longrightarrow> ok (pub p s)"
    and live_pub: "ok s \<Longrightarrow> live s q \<Longrightarrow> live (pub p s) q"
    and inbox_pub: "ok s \<Longrightarrow> live s q \<Longrightarrow> inbox (pub p s) q = inbox s q @ [item p]"
begin

lemma ok_pub_all: "ok s \<Longrightarrow> ok (fold pub ps s)"
  by (induction ps arbitrary: s) (simp_all add: ok_pub)

lemma live_pub_all: "ok s \<Longrightarrow> live s q \<Longrightarrow> live (fold pub ps s) q"
  by (induction ps arbitrary: s) (simp_all add: ok_pub live_pub)

lemma inbox_pub_all: "ok s \<Longrightarrow> live s q \<Longrightarrow> inbox (fold pub ps s) q = inbox s q @ map item ps"
  by (induction ps arbitrary: s) (simp_all add: ok_pub live_pub inbox_pub)

end

definition publish_at :: "string \<Rightarrow> real \<times> runtime_event \<Rightarrow> bus \<Rightarrow> bus" where
  "publish_at r p b = publish (fst p) (Some r) (snd p) b"

definition bus_inbox :: "bus \<Rightarrow> nat \<Rightarrow> runtime_event list" where
  "bus_inbox b q = q_items (b_queues b q)"

definition bus_live :: "string \<Rightarrow> bus \<Rightarrow> nat \<Rightarrow> bool" where
  "bus_live r b q \<longleftrightarrow> q \<in> set (subscribers b r) \<and> q_max (b_queues b q) \<le> 0"

interpretation bus_stream: event_stream "publish_at r" snd bus_inbox "bus_live r" bus_ok
  by unfold_locales
    (auto simp: publish_at_def bus_inbox_def bus_live_def queues_publish put_or_skip_unbounded)

subsection \<open>History over a sequence of publications\<close>

definition last_n :: "nat \<Rightarrow> 'a list \<Rightarrow> 'a list" where
  "last_n n xs = drop (length xs - n) xs"

lemma last_n_all [simp]: "length xs \<le> n \<Longrightarrow> last_n n xs = xs"
  by (simp add: last_n_def)

lemma length_last_n [simp]: "length (last_n n xs) = min n (length xs)"
  by (simp add: last_n_def)

lemma last_n_append: "last_n n (last_n n xs @ ys) = last_n n (xs @ ys)"
proof (cases "length xs \<le> n")
  case False
  then have "length xs + length ys - (length xs - n + n) + (length xs - n) = length xs + length ys - n"
    by simp
  with False show ?thesis by (simp add: last_n_def)
qed simp

lemma slice_stop_neg: "0 < m \<Longrightarrow> slice_stop (- m) n = n - nat m"
  by (simp add: slice_stop_def nat_eq_iff max_def; linarith?)

lemma prune_max_pos: "0 < m \<Longrightarrow> prune_max (Some m) h = last_n (nat m) h"
  by (auto simp: prune_max_def del_slice_to_def slice_stop_neg last_n_def)

lemma prune_max_zero: "prune_max (Some 0) h = h"
  by (simp add: prune_max_def del_slice_to_def slice_stop_def)

lemma prune_ttl_None [simp]: "prune_ttl now None h = h"
  by (simp add: prune_ttl_def)

lemma publish_at_frame [simp]:
  "b_max (publish_at r p b) = b_max b" "b_ttl (publish_at r p b) = b_ttl b"
  by (simp_all add: publish_at_def)

lemma history_fold_last_n:
  assumes "b_ttl b = None" and "b_max b = Some m" and "0 < m"
    and "length (history b r) \<le> nat m"
  shows "history (fold (publish_at r) ps b) r = last_n (nat m) (history b r @ map snd ps)"
  using assms
proof (induction ps arbitrary: b)
  case Nil
  then show ?case by simp
next
  case (Cons p ps)
  have step: "history (publish_at r p b) r = last_n (nat m) (history b r @ [snd p])"
    using Cons.prems by (simp add: publish_at_def history_publish prune_max_pos)
  show ?case
    using Cons.prems by (simp add: Cons.IH step last_n_append)
qed

lemma history_fold_all:
  assumes "b_ttl b = None" and "b_max b = Some 0 \<or> b_max b = None"
  shows "history (fold (publish_at r) ps b) r = history b r @ map snd ps"
  using assms
proof (induction ps arbitrary: b)
  case Nil
  then show ?case by simp
next
  case (Cons p ps)
  have "prune_max (b_max b) h = h" for h :: "runtime_event list"
    using Cons.prems by (auto simp: prune_max_zero) (simp add: prune_max_def)
  then have "history (publish_at r p b) r = history b r @ [snd p]"
    using Cons.prems by (simp add: publish_at_def history_publish)
  with Cons show ?case by simp
qed

section \<open>Properties\<close>

text \<open>A publication of any run: its time, its run id and the event.\<close>

definition publish_any :: "real \<times> string option \<times> runtime_event \<Rightarrow> bus \<Rightarrow> bus" where
  "publish_any p b = publish (fst p) (fst (snd p)) (snd (snd p)) b"

lemma publish_any_live:
  assumes "bus_ok b" and "bus_live r b q"
  shows "bus_ok (publish_any p b) \<and> bus_live r (publish_any p b) q \<and>
    bus_inbox (publish_any p b) q =
      bus_inbox b q @ (if fst (snd p) = Some r then [snd (snd p)] else [])"
proof (cases "fst (snd p)")
  case None
  then show ?thesis using assms by (simp add: publish_any_def)
next
  case (Some r')
  have "q \<in> set (subscribers b r') \<longleftrightarrow> r' = r"
    using assms by (auto simp: bus_ok_def bus_live_def)
  then show ?thesis
    using assms Some
    by (simp add: publish_any_def bus_live_def bus_inbox_def queues_publish put_or_skip_unbounded)
qed

lemma inbox_publish_any:
  assumes "bus_ok b" and "bus_live r b q"
  shows "bus_inbox (fold publish_any ps b) q =
    bus_inbox b q @ map (\<lambda>p. snd (snd p)) (filter (\<lambda>p. fst (snd p) = Some r) ps)"
  using assms
proof (induction ps arbitrary: b)
  case (Cons p ps)
  from publish_any_live [OF Cons.prems, of p] show ?case by (simp add: Cons.IH)
qed simp

text \<open>C30: a subscription replays and then follows. An unbounded subscription from sequence
  number \<open>s\<close> succeeds, and after any further publications, to this run and to others, its
  queue holds exactly the stored events of the run numbered above \<open>s\<close>, followed by the run's
  later events in order.\<close>

theorem subscribe_replays_then_follows:
  assumes ok: "bus_ok b" and m: "m \<le> 0" and s: "0 \<le> s"
    and sub: "subscribe r (Some s) m b = (res, b1)"
  shows "\<exists>q. res = Inr q \<and>
    q_items (b_queues (fold publish_any ps b1) q) =
      filter (\<lambda>e. s < event_seq0 e) (history b r) @
      map (\<lambda>p. snd (snd p)) (filter (\<lambda>p. fst (snd p) = Some r) ps)"
proof -
  let ?q = "b_next b" and ?es = "filter (\<lambda>e. s < event_seq0 e) (history b r)"
  have b1: "b1 = snd (subscribe r (Some s) m b)" and res: "res = fst (subscribe r (Some s) m b)"
    using sub by simp_all
  have rep: "replay (replayed b r (Some s)) (new_queue m) = (True, \<lparr>q_items = ?es, q_max = m\<rparr>)"
    using m s by (simp add: replay_ok replayed_def new_queue_def)
  have "bus_ok b1" using ok by (simp add: b1)
  moreover have "bus_live r b1 ?q"
    unfolding bus_live_def b1 subscribers_subscribe using m by (simp add: snd_subscribe rep)
  moreover have "bus_inbox b1 ?q = ?es" by (simp add: bus_inbox_def b1 snd_subscribe rep)
  ultimately have "bus_inbox (fold publish_any ps b1) ?q =
      ?es @ map (\<lambda>p. snd (snd p)) (filter (\<lambda>p. fst (snd p) = Some r) ps)"
    by (simp add: inbox_publish_any)
  then show ?thesis using rep by (simp add: bus_inbox_def res subscribe_result)
qed

definition demo_event :: "int \<Rightarrow> runtime_event" where
  "demo_event n = (mk_runtime_event 0 (Kind STATE) (VStr ''e'') NoLevel None None VNone None None (Some n))"

definition demo_bus :: bus where
  "demo_bus = fold (publish_at ''a'') [(0, demo_event 1), (0, demo_event 2)] (new_bus (Some 3) None)"

lemma demo_bus_ok: "bus_ok demo_bus" "history demo_bus ''a'' = [demo_event 1, demo_event 2]"
  "b_max demo_bus = Some 3" "b_ttl demo_bus = None"
proof -
  have h: "history (new_bus (Some 3) None) ''a'' = []" by (simp add: history_def new_bus_def dict_get_or_def)
  show "bus_ok demo_bus" unfolding demo_bus_def by (intro bus_stream.ok_pub_all) simp
  show "history demo_bus ''a'' = [demo_event 1, demo_event 2]"
    unfolding demo_bus_def using h by (subst history_fold_last_n [where m = 3]) (simp_all add: new_bus_def)
qed (simp_all add: demo_bus_def, simp_all add: new_bus_def)

lemma subscribe_replays_then_follows_witness:
  "\<exists>q. fst (subscribe ''a'' (Some 1) 0 demo_bus) = Inr q \<and>
    q_items (b_queues (fold publish_any [(0, Some ''b'', demo_event 7), (0, Some ''a'', demo_event 3)]
      (snd (subscribe ''a'' (Some 1) 0 demo_bus))) q) = [demo_event 2, demo_event 3]"
proof -
  have "event_seq0 (demo_event n) = n" for n
    by (simp add: demo_event_def event_seq0_def mk_runtime_event_def)
  then show ?thesis
    using subscribe_replays_then_follows [OF demo_bus_ok(1), of 0 1 "''a''" "fst (subscribe ''a'' (Some 1) 0 demo_bus)"
      "snd (subscribe ''a'' (Some 1) 0 demo_bus)" "[(0, Some ''b'', demo_event 7), (0, Some ''a'', demo_event 3)]"]
    by (simp add: demo_bus_ok)
qed

text \<open>The history is bounded and keeps the newest events. With a positive
  \<open>max_events\<close> and no time limit, a run's history after any publications is the last
  \<open>max_events\<close> of all its events, in order.\<close>

theorem history_keeps_last:
  assumes "b_ttl b = None" and "b_max b = Some m" and "0 < m" and "length (history b r) \<le> nat m"
  shows "history (fold (publish_at r) ps b) r = last_n (nat m) (history b r @ map snd ps) \<and>
    length (history (fold (publish_at r) ps b) r) \<le> nat m"
  by (simp add: history_fold_last_n [OF assms])

lemma history_keeps_last_witness:
  "history (fold (publish_at ''a'') [(0, demo_event 3), (0, demo_event 4)] demo_bus) ''a'' =
    [demo_event 2, demo_event 3, demo_event 4]"
  using history_keeps_last [OF demo_bus_ok(4,3), of "''a''" "[(0, demo_event 3), (0, demo_event 4)]"]
  by (simp add: demo_bus_ok last_n_def)

text \<open>A maximum of zero keeps everything. With \<open>max_events = 0\<close> the slice
  \<open>history[:-0]\<close> that should delete all but the last zero events is empty, so the history
  is not bounded at all.\<close>

theorem history_max_zero_unbounded:
  assumes "b_ttl b = None" and "b_max b = Some 0"
  shows "history (fold (publish_at r) ps b) r = history b r @ map snd ps"
  using assms by (simp add: history_fold_all)

lemma history_max_zero_unbounded_witness:
  "history (fold (publish_at ''a'') [(0, demo_event 1), (0, demo_event 2)] (new_bus (Some 0) None)) ''a'' =
    [demo_event 1, demo_event 2]"
  using history_max_zero_unbounded [of "new_bus (Some 0) None" "''a''" "[(0, demo_event 1), (0, demo_event 2)]"]
  by (simp add: new_bus_def history_def dict_get_or_def)

text \<open>A bounded subscription can fail and stay registered. When more events are to be
  replayed than the queue may hold, \<open>subscribe\<close> raises \<open>QueueFull\<close>, but the queue, filled
  with the first of them, remains among the run's subscribers although its owner never
  received it.\<close>

theorem subscribe_overflow_leaks:
  assumes "0 < m" and "m < int (length (replayed b r since))"
  shows "fst (subscribe r since m b) = Inl (PyExc QueueFullC '''') \<and>
    b_next b \<in> set (subscribers (snd (subscribe r since m b)) r) \<and>
    q_items (b_queues (snd (subscribe r since m b)) (b_next b)) = take (nat m) (replayed b r since)"
proof -
  have "replay (replayed b r since) (new_queue m) =
      (False, \<lparr>q_items = take (nat m) (replayed b r since), q_max = m\<rparr>)"
    using replay_bounded [of "new_queue m" "replayed b r since"] assms by (simp add: new_queue_def)
  then show ?thesis
    by (simp add: subscribe_result subscribers_subscribe) (simp add: snd_subscribe)
qed

lemma subscribe_overflow_leaks_witness:
  "fst (subscribe ''a'' (Some 0) 1 demo_bus) = Inl (PyExc QueueFullC '''')"
proof -
  have "replayed demo_bus ''a'' (Some 0) = [demo_event 1, demo_event 2]"
    by (simp add: replayed_def demo_bus_ok demo_event_def event_seq0_def mk_runtime_event_def)
  then show ?thesis
    using subscribe_overflow_leaks [of 1 demo_bus "''a''" "Some 0"] by simp
qed

end
