(* ===== verification/JobStore.thy ===== *)
theory JobStore
  imports EventBus "HOL-Library.Char_ord" "HOL-Library.List_Lexorder"
    "HOL-Library.Product_Lexorder" "HOL-Library.Multiset"
begin

text \<open>
  The job store (\<open>runtime/jobs.py\<close>): run states, invocations, futures, event counters,
  cancel flags and the event bus. Every method takes the store's lock, so each is one atomic
  operation here.

  \<open>RunState\<close>, \<open>asyncio.Future\<close> and \<open>threading.Event\<close> objects are shared: a worker
  keeps the run state it fetched and a waiter keeps the future, also after the dictionaries
  forget them. So the dictionaries hold addresses and the objects live in heaps of the
  record.
\<close>

section \<open>Futures\<close>

datatype future = FPending | FResult pyval | FException pyexc | FCancelled

definition fut_done :: "future \<Rightarrow> bool" where
  "fut_done f \<longleftrightarrow> f \<noteq> FPending"

lemma fut_done_simps [simp]:
  "\<not> fut_done FPending" "fut_done (FResult v)" "fut_done (FException e)" "fut_done FCancelled"
  by (simp_all add: fut_done_def)

section \<open>State\<close>

definition blank_run_state :: run_state where
  "blank_run_state =
    \<lparr>rs_run_id = [], rs_source = None, rs_origin_source = None, rs_principal = None,
     rs_session_id = None, rs_parent_run_id = None, rs_depth = 0, rs_command_id = None,
     rs_callable_meta = None, rs_lock_key = None, rs_status = PENDING, rs_result = VNone,
     rs_error = None, rs_started_at = None, rs_finished_at = None\<rparr>"

record job_store =
  js_runs :: "(string, nat) dict"
  js_invs :: "(string, invocation) dict"
  js_futs :: "(string, nat) dict"
  js_seqs :: "(string, int) dict"
  js_flags :: "(string, nat) dict"
  js_bus :: bus
  js_retain :: "int option"
  js_ttl :: "real option"
  js_loop :: "nat option"
  js_gsubs :: "nat list"
  js_rheap :: "nat \<Rightarrow> run_state"
  js_fheap :: "nat \<Rightarrow> future"
  js_cheap :: "nat \<Rightarrow> bool"
  js_next :: nat

definition new_job_store ::
  "int option \<Rightarrow> real option \<Rightarrow> int option \<Rightarrow> real option \<Rightarrow> job_store" where
  "new_job_store retain_last_n ttl_seconds event_history_max event_history_ttl =
    \<lparr>js_runs = [], js_invs = [], js_futs = [], js_seqs = [], js_flags = [],
     js_bus = new_bus event_history_max event_history_ttl,
     js_retain = retain_last_n, js_ttl = ttl_seconds, js_loop = None, js_gsubs = [],
     js_rheap = (\<lambda>_. blank_run_state), js_fheap = (\<lambda>_. FPending), js_cheap = (\<lambda>_. False),
     js_next = 0\<rparr>"

definition set_loop :: "nat option \<Rightarrow> job_store \<Rightarrow> job_store" where
  "set_loop l js = js\<lparr>js_loop := l\<rparr>"

text \<open>Writing to a run state object.\<close>

definition upd_run :: "nat \<Rightarrow> (run_state \<Rightarrow> run_state) \<Rightarrow> job_store \<Rightarrow> job_store" where
  "upd_run a f js = js\<lparr>js_rheap := (js_rheap js)(a := f (js_rheap js a))\<rparr>"

section \<open>Runs\<close>

definition run_state_of_invocation :: "string \<Rightarrow> invocation \<Rightarrow> run_state" where
  "run_state_of_invocation run_id iv = blank_run_state
    \<lparr>rs_run_id := run_id, rs_source := Some (inv_source iv),
     rs_origin_source := inv_origin_source iv, rs_principal := inv_principal iv,
     rs_session_id := inv_session_id iv, rs_parent_run_id := inv_parent_run_id iv,
     rs_depth := inv_depth iv, rs_command_id := inv_command_id iv,
     rs_callable_meta := inv_callable_meta iv, rs_lock_key := Some (inv_lock_key iv)\<rparr>"

definition create_run :: "invocation \<Rightarrow> job_store \<Rightarrow> nat res \<times> job_store" where
  "create_run iv js =
    (case inv_run_id iv of
       None \<Rightarrow> (Inl (PyExc ValueErrorC ''Invocation run_id is required for JobStore''), js)
     | Some run_id \<Rightarrow>
         let a = js_next js in
         (Inr a,
          js\<lparr>js_runs := dict_set run_id a (js_runs js),
             js_invs := dict_set run_id iv (js_invs js),
             js_flags := dict_set run_id a (js_flags js),
             js_rheap := (js_rheap js)(a := run_state_of_invocation run_id iv),
             js_cheap := (js_cheap js)(a := False),
             js_next := Suc a\<rparr>))"

text \<open>\<open>loop.create_future()\<close>: a new pending future.\<close>

definition create_future :: "job_store \<Rightarrow> nat \<times> job_store" where
  "create_future js =
    (js_next js,
     js\<lparr>js_fheap := (js_fheap js)(js_next js := FPending), js_next := Suc (js_next js)\<rparr>)"

definition set_future :: "string \<Rightarrow> nat \<Rightarrow> job_store \<Rightarrow> job_store" where
  "set_future run_id f js = js\<lparr>js_futs := dict_set run_id f (js_futs js)\<rparr>"

definition get_future :: "job_store \<Rightarrow> string \<Rightarrow> nat option" where
  "get_future js run_id = map_of (js_futs js) run_id"

text \<open>
  \<open>get_run_state\<close> returns the object: its address here. \<open>run_at\<close> reads it.
\<close>

definition get_run_state :: "job_store \<Rightarrow> string \<Rightarrow> nat option" where
  "get_run_state js run_id = map_of (js_runs js) run_id"

definition run_at :: "job_store \<Rightarrow> string \<Rightarrow> run_state option" where
  "run_at js run_id = map_option (js_rheap js) (get_run_state js run_id)"

definition status_of :: "job_store \<Rightarrow> string \<Rightarrow> run_status option" where
  "status_of js run_id = map_option rs_status (run_at js run_id)"

definition get_invocation :: "job_store \<Rightarrow> string \<Rightarrow> invocation option" where
  "get_invocation js run_id = map_of (js_invs js) run_id"

definition get_job :: "job_store \<Rightarrow> string \<Rightarrow> run_state option \<times> invocation option" where
  "get_job js run_id = (run_at js run_id, get_invocation js run_id)"

subsection \<open>Listing\<close>

text \<open>
  \<open>_normalize_filter\<close>: no value, one value, or a collection. A filter is applied only when
  it is truthy, so an empty collection filters nothing.
\<close>

datatype 'a filter_arg = NoFilter | One 'a | Many "'a list"

fun normalize_filter :: "'a filter_arg \<Rightarrow> 'a list option" where
  "normalize_filter NoFilter = None"
| "normalize_filter (One x) = Some [x]"
| "normalize_filter (Many xs) = Some xs"

definition passes :: "'a list option \<Rightarrow> 'a \<Rightarrow> bool" where
  "passes f x = (case f of None \<Rightarrow> True | Some [] \<Rightarrow> True | Some (y # ys) \<Rightarrow> x \<in> set (y # ys))"

record job_filters =
  jf_status :: "run_status filter_arg"
  jf_source :: "string filter_arg"
  jf_principal :: "string option filter_arg"
  jf_command_id :: "string option filter_arg"

definition no_job_filters :: job_filters where
  "no_job_filters = \<lparr>jf_status = NoFilter, jf_source = NoFilter, jf_principal = NoFilter,
    jf_command_id = NoFilter\<rparr>"

record job_row =
  jr_run_id :: string
  jr_status :: run_status
  jr_source :: "string option"
  jr_principal :: "string option"
  jr_command_id :: "string option"
  jr_started_at :: "real option"
  jr_finished_at :: "real option"

definition job_selected :: "job_filters \<Rightarrow> run_state \<Rightarrow> invocation option \<Rightarrow> bool" where
  "job_selected fs rs iv \<longleftrightarrow>
    passes (normalize_filter (jf_status fs)) (rs_status rs) \<and>
    (case iv of None \<Rightarrow> True
     | Some i \<Rightarrow>
         passes (normalize_filter (jf_source fs)) (inv_source i) \<and>
         passes (normalize_filter (jf_principal fs)) (inv_principal i) \<and>
         passes (normalize_filter (jf_command_id fs)) (inv_command_id i))"

definition job_row_of :: "string \<Rightarrow> run_state \<Rightarrow> invocation option \<Rightarrow> job_row" where
  "job_row_of run_id rs iv =
    \<lparr>jr_run_id = run_id, jr_status = rs_status rs,
     jr_source = map_option inv_source iv,
     jr_principal = Option.bind iv inv_principal,
     jr_command_id = Option.bind iv inv_command_id,
     jr_started_at = rs_started_at rs, jr_finished_at = rs_finished_at rs\<rparr>"

definition list_jobs :: "job_filters \<Rightarrow> job_store \<Rightarrow> job_row list" where
  "list_jobs fs js =
    map (\<lambda>(r, a). job_row_of r (js_rheap js a) (get_invocation js r))
      (filter (\<lambda>(r, a). job_selected fs (js_rheap js a) (get_invocation js r)) (js_runs js))"

subsection \<open>Results and futures\<close>

text \<open>
  The coroutine \<open>result\<close> either has its answer at once or awaits the run's future. What
  an await of a done future gives is \<open>fut_outcome\<close>.
\<close>

datatype awaiting = Ready "pyval res" | AwaitFuture nat

definition result :: "string \<Rightarrow> job_store \<Rightarrow> awaiting" where
  "result run_id js =
    (case get_future js run_id of
       Some f \<Rightarrow> AwaitFuture f
     | None \<Rightarrow>
         (case run_at js run_id of
            None \<Rightarrow> Ready (Inr VNone)
          | Some rs \<Rightarrow>
              (case rs_error rs of
                 Some e \<Rightarrow> Ready (Inl e)
               | None \<Rightarrow> Ready (Inr (rs_result rs)))))"

fun fut_outcome :: "future \<Rightarrow> pyval res option" where
  "fut_outcome FPending = None"
| "fut_outcome (FResult v) = Some (Inr v)"
| "fut_outcome (FException e) = Some (Inl e)"
| "fut_outcome FCancelled = Some (Inl (PyExc CancelledErrorC ''''))"

definition resolve_future :: "string \<Rightarrow> pyval \<Rightarrow> pyexc option \<Rightarrow> job_store \<Rightarrow> job_store" where
  "resolve_future run_id res err js =
    (case get_future js run_id of
       None \<Rightarrow> js
     | Some f \<Rightarrow>
         if fut_done (js_fheap js f) then js
         else js\<lparr>js_fheap := (js_fheap js)
                   (f := (case err of Some e \<Rightarrow> FException e | None \<Rightarrow> FResult res))\<rparr>)"

section \<open>Events\<close>

definition next_event_seq :: "string \<Rightarrow> job_store \<Rightarrow> int \<times> job_store" where
  "next_event_seq run_id js =
    (let n = dict_get_or (js_seqs js) run_id 0 + 1
     in (n, js\<lparr>js_seqs := dict_set run_id n (js_seqs js)\<rparr>))"

definition js_publish_event ::
  "real \<Rightarrow> string option \<Rightarrow> runtime_event \<Rightarrow> job_store \<Rightarrow> job_store" where
  "js_publish_event now run_id e js =
    (let b = publish now run_id e (js_bus js)
     in js\<lparr>js_bus := b\<lparr>b_queues := put_all e (js_gsubs js) (b_queues b)\<rparr>\<rparr>)"

text \<open>
  \<open>events\<close> and \<open>subscribe_all\<close> must run in the executor's loop: \<open>cur\<close> is the loop
  running in the calling thread.
\<close>

definition loop_check :: "nat option \<Rightarrow> nat option \<Rightarrow> string \<Rightarrow> unit res" where
  "loop_check cur lp what =
    (if cur \<noteq> None \<and> (lp = None \<or> cur = lp) then Inr ()
     else if cur \<noteq> None \<and> lp \<noteq> None \<and> cur \<noteq> lp
       then Inl (PyExc RuntimeErrorC (what @ '' must be called from the executor loop''))
     else Inl (PyExc RuntimeErrorC (what @ '' requires a running event loop'')))"

definition js_events ::
  "nat option \<Rightarrow> string \<Rightarrow> int option \<Rightarrow> int \<Rightarrow> job_store \<Rightarrow> nat res \<times> job_store" where
  "js_events cur run_id since maxsize js =
    (case loop_check cur (js_loop js) ''events'' of
       Inl e \<Rightarrow> (Inl e, js)
     | Inr _ \<Rightarrow>
         let (q, b) = subscribe run_id since maxsize (js_bus js) in (q, js\<lparr>js_bus := b\<rparr>))"

definition unsubscribe_events :: "string \<Rightarrow> nat \<Rightarrow> job_store \<Rightarrow> job_store" where
  "unsubscribe_events run_id q js = js\<lparr>js_bus := unsubscribe run_id q (js_bus js)\<rparr>"

definition subscribe_all :: "nat option \<Rightarrow> job_store \<Rightarrow> nat res \<times> job_store" where
  "subscribe_all cur js =
    (case loop_check cur (js_loop js) ''subscribe_all'' of
       Inl e \<Rightarrow> (Inl e, js)
     | Inr _ \<Rightarrow>
         let q = b_next (js_bus js) in
         (Inr q,
          js\<lparr>js_bus := (js_bus js)\<lparr>b_queues := (b_queues (js_bus js))(q := new_queue 0),
                                  b_next := Suc q\<rparr>,
             js_gsubs := js_gsubs js @ [q]\<rparr>))"

definition unsubscribe_all :: "nat \<Rightarrow> job_store \<Rightarrow> job_store" where
  "unsubscribe_all q js = js\<lparr>js_gsubs := remove1 q (js_gsubs js)\<rparr>"

section \<open>Cancelling and forgetting\<close>

definition js_is_cancelled :: "job_store \<Rightarrow> string \<Rightarrow> bool" where
  "js_is_cancelled js run_id =
    (case map_of (js_flags js) run_id of None \<Rightarrow> False | Some c \<Rightarrow> js_cheap js c)"

definition get_cancel_flag :: "job_store \<Rightarrow> string \<Rightarrow> nat option" where
  "get_cancel_flag js run_id = map_of (js_flags js) run_id"

definition set_flag :: "string \<Rightarrow> job_store \<Rightarrow> job_store" where
  "set_flag run_id js =
    (case map_of (js_flags js) run_id of
       None \<Rightarrow> js
     | Some c \<Rightarrow> js\<lparr>js_cheap := (js_cheap js)(c := True)\<rparr>)"

definition cancelled_error :: pyexc where
  "cancelled_error = PyExc CancelledErrorC ''''"

definition fail_future :: "string \<Rightarrow> pyexc \<Rightarrow> job_store \<Rightarrow> job_store" where
  "fail_future run_id e js =
    (case get_future js run_id of
       None \<Rightarrow> js
     | Some f \<Rightarrow> if fut_done (js_fheap js f) then js
                else js\<lparr>js_fheap := (js_fheap js)(f := FException e)\<rparr>)"

definition js_cancel :: "real \<Rightarrow> string \<Rightarrow> job_store \<Rightarrow> string \<times> job_store" where
  "js_cancel now run_id js =
    (case get_run_state js run_id of
       None \<Rightarrow> (''missing'', js)
     | Some a \<Rightarrow>
         let js1 = set_flag run_id js in
         if rs_status (js_rheap js1 a) = PENDING then
           (''cancelled'',
            fail_future run_id cancelled_error
              (upd_run a (\<lambda>rs. rs\<lparr>rs_status := CANCELLED, rs_finished_at := Some now,
                                  rs_error := Some cancelled_error\<rparr>) js1))
         else if rs_status (js_rheap js1 a) = RUNNING then (''requested'', js1)
         else (''noop'', js1))"

definition cancel_future :: "nat option \<Rightarrow> job_store \<Rightarrow> job_store" where
  "cancel_future fo js =
    (case fo of None \<Rightarrow> js
     | Some f \<Rightarrow> if fut_done (js_fheap js f) then js
                else js\<lparr>js_fheap := (js_fheap js)(f := FCancelled)\<rparr>)"

definition js_pop_run :: "string \<Rightarrow> job_store \<Rightarrow> run_state option \<times> job_store" where
  "js_pop_run run_id js =
    (let rs = run_at js run_id;
         f = get_future js run_id;
         js1 = js\<lparr>js_runs := dict_pop run_id (js_runs js),
                  js_futs := dict_pop run_id (js_futs js),
                  js_seqs := dict_pop run_id (js_seqs js),
                  js_invs := dict_pop run_id (js_invs js),
                  js_flags := dict_pop run_id (js_flags js)\<rparr>;
         js2 = cancel_future f js1
     in (rs, js2\<lparr>js_bus := drop_run run_id (js_bus js2)\<rparr>))"

abbreviation forget_run :: "string \<Rightarrow> job_store \<Rightarrow> job_store" where
  "forget_run run_id js \<equiv> snd (js_pop_run run_id js)"

subsection \<open>Cleanup\<close>

text \<open>
  \<open>cleanup\<close> collects the completed runs as pairs of finishing time and id. The retention
  bound sorts these pairs in descending order. Python's tuple comparison raises
  \<open>TypeError\<close> when it meets \<open>None\<close> and a float, which a sort does exactly when both
  occur among the finishing times. The pairs are distinct, so the order of equal elements
  does not matter; nor does the order in which the code pops the runs of its set.
\<close>

type_synonym completed = "real option \<times> string"

definition completed_runs :: "job_store \<Rightarrow> completed list" where
  "completed_runs js =
    map (\<lambda>(r, a). (rs_finished_at (js_rheap js a), r))
      (filter (\<lambda>(r, a). terminal_status (rs_status (js_rheap js a))) (js_runs js))"

definition ttl_expired :: "real \<Rightarrow> real option \<Rightarrow> completed list \<Rightarrow> string list" where
  "ttl_expired now ttl cs =
    (case ttl of None \<Rightarrow> []
     | Some t \<Rightarrow> map snd (filter (\<lambda>(f, r). case f of None \<Rightarrow> False | Some ft \<Rightarrow> t \<le> now - ft) cs))"

definition completed_key :: "completed \<Rightarrow> real \<times> string" where
  "completed_key c = (case c of (None, r) \<Rightarrow> (0, r) | (Some t, r) \<Rightarrow> (t, r))"

definition comparable :: "completed list \<Rightarrow> bool" where
  "comparable cs \<longleftrightarrow> list_all (\<lambda>c. fst c = None) cs \<or> list_all (\<lambda>c. fst c \<noteq> None) cs"

definition newest_first :: "completed list \<Rightarrow> completed list" where
  "newest_first cs = rev (sort_key completed_key cs)"

definition over_retained :: "int option \<Rightarrow> completed list \<Rightarrow> string list res" where
  "over_retained retain cs =
    (case retain of None \<Rightarrow> Inr []
     | Some n \<Rightarrow>
         if n < 0 then Inr []
         else if comparable cs then Inr (map snd (drop (nat n) (newest_first cs)))
         else Inl (PyExc TypeErrorC ''not supported between instances of NoneType and float''))"

definition cleanup :: "real \<Rightarrow> job_store \<Rightarrow> unit res \<times> job_store" where
  "cleanup now js =
    (if js_retain js = None \<and> js_ttl js = None then (Inr (), js)
     else
       let cs = completed_runs js in
       case over_retained (js_retain js) cs of
         Inl e \<Rightarrow> (Inl e, js)
       | Inr ids \<Rightarrow>
           (Inr (), fold forget_run (remdups (ttl_expired now (js_ttl js) cs @ ids)) js))"

section \<open>Well-formed stores\<close>

text \<open>
  An address table: distinct keys, distinct addresses, all of them below the allocation
  pointer.
\<close>

definition addr_ok :: "nat \<Rightarrow> (string, nat) dict \<Rightarrow> bool" where
  "addr_ok n d \<longleftrightarrow> dict_ok d \<and>
    (\<forall>k a. map_of d k = Some a \<longrightarrow> a < n) \<and>
    (\<forall>k k' a. map_of d k = Some a \<longrightarrow> map_of d k' = Some a \<longrightarrow> k = k')"

lemma addr_ok_Nil [simp]: "addr_ok n []"
  by (simp add: addr_ok_def)

lemma addr_ok_inj: "addr_ok n d \<Longrightarrow> map_of d k = Some a \<Longrightarrow> map_of d k' = Some a \<Longrightarrow> k = k'"
  by (auto simp: addr_ok_def)

lemma addr_ok_less: "addr_ok n d \<Longrightarrow> map_of d k = Some a \<Longrightarrow> a < n"
  by (auto simp: addr_ok_def)

lemma addr_ok_mono: "addr_ok n d \<Longrightarrow> n \<le> m \<Longrightarrow> addr_ok m d"
  unfolding addr_ok_def by (meson less_le_trans)

lemma addr_ok_Suc: "addr_ok n d \<Longrightarrow> addr_ok (Suc n) d"
  by (erule addr_ok_mono) simp

lemma addr_ok_pop [simp]: "addr_ok n d \<Longrightarrow> addr_ok n (dict_pop k d)"
  unfolding addr_ok_def by (auto simp: dict_simps split: if_splits)

lemma addr_ok_store:
  assumes "addr_ok n d" and "a < m" and "n \<le> m" and "\<forall>k'. map_of d k' \<noteq> Some a"
  shows "addr_ok m (dict_set k a d)"
  using assms addr_ok_mono [OF assms(1,3)] unfolding addr_ok_def
  by (auto simp: dict_simps split: if_splits)

lemma addr_ok_fresh: "addr_ok n d \<Longrightarrow> map_of d k \<noteq> Some n"
  by (auto simp: addr_ok_def)

definition gsubs_ok :: "nat list \<Rightarrow> bus \<Rightarrow> bool" where
  "gsubs_ok gs b \<longleftrightarrow> distinct gs \<and>
    (\<forall>q \<in> set gs. q < b_next b \<and> q_max (b_queues b q) \<le> 0 \<and> (\<forall>r. q \<notin> set (subscribers b r)))"

definition js_ok :: "job_store \<Rightarrow> bool" where
  "js_ok js \<longleftrightarrow>
    addr_ok (js_next js) (js_runs js) \<and> addr_ok (js_next js) (js_futs js) \<and>
    addr_ok (js_next js) (js_flags js) \<and>
    dict_ok (js_invs js) \<and> dict_ok (js_seqs js) \<and>
    (\<forall>r. map_of (js_invs js) r = None \<longleftrightarrow> map_of (js_runs js) r = None) \<and>
    (\<forall>r. map_of (js_flags js) r = None \<longleftrightarrow> map_of (js_runs js) r = None) \<and>
    (\<forall>r a. map_of (js_runs js) r = Some a \<longrightarrow> rs_run_id (js_rheap js a) = r) \<and>
    bus_ok (js_bus js) \<and> gsubs_ok (js_gsubs js) (js_bus js)"

lemma js_ok_new [simp]: "js_ok (new_job_store rl ttl hm ht)"
  by (simp add: js_ok_def new_job_store_def gsubs_ok_def)

lemma js_okD:
  assumes "js_ok js"
  shows "addr_ok (js_next js) (js_runs js)" "addr_ok (js_next js) (js_futs js)"
    "addr_ok (js_next js) (js_flags js)" "dict_ok (js_invs js)" "dict_ok (js_seqs js)"
    "bus_ok (js_bus js)" "gsubs_ok (js_gsubs js) (js_bus js)"
    "map_of (js_invs js) r = None \<longleftrightarrow> map_of (js_runs js) r = None"
    "map_of (js_flags js) r = None \<longleftrightarrow> map_of (js_runs js) r = None"
    "map_of (js_runs js) r = Some a \<Longrightarrow> rs_run_id (js_rheap js a) = r"
  using assms by (simp_all add: js_ok_def)

lemma dict_ok_runs: "js_ok js \<Longrightarrow> dict_ok (js_runs js)"
  by (simp add: js_ok_def addr_ok_def)

definition fut_at :: "job_store \<Rightarrow> string \<Rightarrow> future option" where
  "fut_at js r = map_option (js_fheap js) (get_future js r)"

lemmas view_defs = run_at_def status_of_def fut_at_def get_run_state_def get_future_def
  get_invocation_def

subsection \<open>Object updates\<close>

lemma upd_run_frame [simp]:
  "js_runs (upd_run a f js) = js_runs js" "js_invs (upd_run a f js) = js_invs js"
  "js_futs (upd_run a f js) = js_futs js" "js_seqs (upd_run a f js) = js_seqs js"
  "js_flags (upd_run a f js) = js_flags js" "js_bus (upd_run a f js) = js_bus js"
  "js_gsubs (upd_run a f js) = js_gsubs js" "js_fheap (upd_run a f js) = js_fheap js"
  "js_cheap (upd_run a f js) = js_cheap js" "js_next (upd_run a f js) = js_next js"
  "js_loop (upd_run a f js) = js_loop js" "js_retain (upd_run a f js) = js_retain js"
  "js_ttl (upd_run a f js) = js_ttl js"
  "js_rheap (upd_run a f js) = (js_rheap js)(a := f (js_rheap js a))"
  "get_run_state (upd_run a f js) r = get_run_state js r"
  "get_invocation (upd_run a f js) r = get_invocation js r"
  "get_future (upd_run a f js) r = get_future js r" "fut_at (upd_run a f js) r = fut_at js r"
  by (simp_all add: upd_run_def view_defs)

lemma run_at_upd_run:
  "run_at (upd_run a f js) r =
    (if get_run_state js r = Some a then Some (f (js_rheap js a)) else run_at js r)"
  by (cases "get_run_state js r") (auto simp: run_at_def)

lemma run_at_upd_run_other:
  "js_ok js \<Longrightarrow> get_run_state js r = Some a \<Longrightarrow> r' \<noteq> r \<Longrightarrow> run_at (upd_run a f js) r' = run_at js r'"
  using addr_ok_inj [OF js_okD(1)] by (auto simp: run_at_upd_run get_run_state_def)

lemma js_ok_upd_run [simp]:
  "js_ok js \<Longrightarrow> (\<And>rs. rs_run_id (f rs) = rs_run_id rs) \<Longrightarrow> js_ok (upd_run a f js)"
  by (simp add: js_ok_def)

subsection \<open>Creating runs and futures\<close>

lemma create_run_Some:
  "inv_run_id iv = Some r \<Longrightarrow> fst (create_run iv js) = Inr (js_next js)"
  by (simp add: create_run_def Let_def)

lemma create_run_frame [simp]:
  "js_futs (snd (create_run iv js)) = js_futs js"
  "js_seqs (snd (create_run iv js)) = js_seqs js"
  "js_bus (snd (create_run iv js)) = js_bus js"
  "js_gsubs (snd (create_run iv js)) = js_gsubs js"
  "js_fheap (snd (create_run iv js)) = js_fheap js"
  "js_loop (snd (create_run iv js)) = js_loop js"
  "js_retain (snd (create_run iv js)) = js_retain js"
  "js_ttl (snd (create_run iv js)) = js_ttl js"
  by (cases "inv_run_id iv"; simp add: create_run_def Let_def)+

lemma get_run_state_create:
  "inv_run_id iv = Some r \<Longrightarrow>
   get_run_state (snd (create_run iv js)) r' = (if r' = r then Some (js_next js) else get_run_state js r')"
  by (simp add: create_run_def Let_def get_run_state_def dict_simps)

lemma get_invocation_create:
  "inv_run_id iv = Some r \<Longrightarrow>
   get_invocation (snd (create_run iv js)) r' = (if r' = r then Some iv else get_invocation js r')"
  by (simp add: create_run_def Let_def get_invocation_def dict_simps)

lemma run_at_create:
  assumes "js_ok js" and "inv_run_id iv = Some r"
  shows "run_at (snd (create_run iv js)) r' =
    (if r' = r then Some (run_state_of_invocation r iv) else run_at js r')"
proof -
  have "map_of (js_runs js) r' \<noteq> Some (js_next js)"
    using js_okD(1) [OF assms(1)] by (rule addr_ok_fresh)
  then show ?thesis
    using assms(2)
    by (cases "map_of (js_runs js) r'") (auto simp: create_run_def Let_def view_defs dict_simps)
qed

lemma js_ok_create_run [simp]: "js_ok js \<Longrightarrow> js_ok (snd (create_run iv js))"
proof (cases "inv_run_id iv")
  case (Some r)
  assume ok: "js_ok js"
  have st: "addr_ok (Suc (js_next js)) (dict_set r (js_next js) (js_runs js))"
    "addr_ok (Suc (js_next js)) (dict_set r (js_next js) (js_flags js))"
    using js_okD(1,3) [OF ok] by (auto intro!: addr_ok_store addr_ok_fresh)
  have "map_of (js_runs js) r' \<noteq> Some (js_next js)" for r'
    using js_okD(1) [OF ok] by (rule addr_ok_fresh)
  then show ?thesis
    using ok Some st unfolding js_ok_def
    by (auto simp: create_run_def Let_def dict_simps addr_ok_Suc run_state_of_invocation_def
        split: if_splits)
qed (simp add: create_run_def)

lemma create_future_simps [simp]:
  "fst (create_future js) = js_next js"
  "js_runs (snd (create_future js)) = js_runs js" "js_invs (snd (create_future js)) = js_invs js"
  "js_futs (snd (create_future js)) = js_futs js" "js_flags (snd (create_future js)) = js_flags js"
  "js_seqs (snd (create_future js)) = js_seqs js" "js_bus (snd (create_future js)) = js_bus js"
  "js_gsubs (snd (create_future js)) = js_gsubs js" "js_rheap (snd (create_future js)) = js_rheap js"
  "js_next (snd (create_future js)) = Suc (js_next js)"
  "js_fheap (snd (create_future js)) = (js_fheap js)(js_next js := FPending)"
  "run_at (snd (create_future js)) r = run_at js r"
  "get_run_state (snd (create_future js)) r = get_run_state js r"
  "get_invocation (snd (create_future js)) r = get_invocation js r"
  by (simp_all add: create_future_def view_defs)

lemma js_ok_create_future [simp]: "js_ok js \<Longrightarrow> js_ok (snd (create_future js))"
  by (simp add: js_ok_def addr_ok_Suc)

lemma set_future_simps [simp]:
  "js_runs (set_future r f js) = js_runs js" "js_invs (set_future r f js) = js_invs js"
  "js_rheap (set_future r f js) = js_rheap js" "js_fheap (set_future r f js) = js_fheap js"
  "js_bus (set_future r f js) = js_bus js" "js_next (set_future r f js) = js_next js"
  "js_seqs (set_future r f js) = js_seqs js" "js_flags (set_future r f js) = js_flags js"
  "run_at (set_future r f js) r' = run_at js r'"
  "get_run_state (set_future r f js) r' = get_run_state js r'"
  "get_invocation (set_future r f js) r' = get_invocation js r'"
  "get_future (set_future r f js) r' = (if r' = r then Some f else get_future js r')"
  by (simp_all add: set_future_def view_defs dict_simps)

lemma js_ok_set_future:
  "js_ok js \<Longrightarrow> f < js_next js \<Longrightarrow> (\<forall>r. get_future js r \<noteq> Some f) \<Longrightarrow> js_ok (set_future r f js)"
  by (simp add: js_ok_def set_future_def get_future_def addr_ok_store [where n = "js_next js"])

subsection \<open>Resolving and failing futures\<close>

lemma fut_update_simps [simp]:
  "run_at (js\<lparr>js_fheap := h\<rparr>) r = run_at js r"
  "get_run_state (js\<lparr>js_fheap := h\<rparr>) r = get_run_state js r"
  "get_future (js\<lparr>js_fheap := h\<rparr>) r = get_future js r"
  "get_invocation (js\<lparr>js_fheap := h\<rparr>) r = get_invocation js r"
  "js_ok (js\<lparr>js_fheap := h\<rparr>) = js_ok js"
  by (simp_all add: view_defs js_ok_def)

text \<open>Resolving writes the run's future once: a done future keeps its outcome.\<close>

definition settle_future :: "string \<Rightarrow> future \<Rightarrow> job_store \<Rightarrow> job_store" where
  "settle_future r v js =
    (case get_future js r of None \<Rightarrow> js
     | Some f \<Rightarrow> if fut_done (js_fheap js f) then js
                else js\<lparr>js_fheap := (js_fheap js)(f := v)\<rparr>)"

lemma resolve_settle:
  "resolve_future r res err js =
    settle_future r (case err of Some e \<Rightarrow> FException e | None \<Rightarrow> FResult res) js"
  by (simp add: resolve_future_def settle_future_def)

lemma fail_settle: "fail_future r e js = settle_future r (FException e) js"
  by (simp add: fail_future_def settle_future_def)

lemma settle_frame [simp]:
  "js_runs (settle_future r v js) = js_runs js" "js_invs (settle_future r v js) = js_invs js"
  "js_futs (settle_future r v js) = js_futs js" "js_seqs (settle_future r v js) = js_seqs js"
  "js_flags (settle_future r v js) = js_flags js" "js_bus (settle_future r v js) = js_bus js"
  "js_gsubs (settle_future r v js) = js_gsubs js" "js_rheap (settle_future r v js) = js_rheap js"
  "js_cheap (settle_future r v js) = js_cheap js" "js_next (settle_future r v js) = js_next js"
  "js_loop (settle_future r v js) = js_loop js" "js_retain (settle_future r v js) = js_retain js"
  "js_ttl (settle_future r v js) = js_ttl js"
  "run_at (settle_future r v js) r' = run_at js r'"
  "get_run_state (settle_future r v js) r' = get_run_state js r'"
  "get_future (settle_future r v js) r' = get_future js r'"
  "get_invocation (settle_future r v js) r' = get_invocation js r'"
  "js_ok (settle_future r v js) = js_ok js"
  by (cases "get_future js r"; simp add: settle_future_def)+

lemma fheap_settle:
  "js_fheap (settle_future r v js) f =
    (if get_future js r = Some f \<and> js_fheap js f = FPending then v else js_fheap js f)"
  by (cases "get_future js r") (auto simp: settle_future_def fut_done_def)

lemma fut_at_settle:
  assumes "js_ok js"
  shows "fut_at (settle_future r v js) r' =
    (if r' = r \<and> fut_at js r = Some FPending then Some v else fut_at js r')"
proof -
  have "get_future js r = Some f \<Longrightarrow> get_future js r' = Some f \<Longrightarrow> r' = r" for f
    using addr_ok_inj [OF js_okD(2) [OF assms]] by (auto simp: get_future_def)
  then show ?thesis
    by (cases "get_future js r'") (auto simp: fut_at_def fheap_settle)
qed

subsection \<open>Cancelling\<close>

lemma set_flag_frame [simp]:
  "js_runs (set_flag r js) = js_runs js" "js_invs (set_flag r js) = js_invs js"
  "js_futs (set_flag r js) = js_futs js" "js_seqs (set_flag r js) = js_seqs js"
  "js_flags (set_flag r js) = js_flags js" "js_bus (set_flag r js) = js_bus js"
  "js_gsubs (set_flag r js) = js_gsubs js" "js_rheap (set_flag r js) = js_rheap js"
  "js_fheap (set_flag r js) = js_fheap js" "js_next (set_flag r js) = js_next js"
  "js_loop (set_flag r js) = js_loop js" "js_retain (set_flag r js) = js_retain js"
  "js_ttl (set_flag r js) = js_ttl js"
  "run_at (set_flag r js) r' = run_at js r'"
  "get_run_state (set_flag r js) r' = get_run_state js r'"
  "get_future (set_flag r js) r' = get_future js r'"
  "get_invocation (set_flag r js) r' = get_invocation js r'"
  "fut_at (set_flag r js) r' = fut_at js r'"
  "js_ok (set_flag r js) = js_ok js"
  by (cases "map_of (js_flags js) r"; simp add: set_flag_def view_defs js_ok_def)+

lemma is_cancelled_set_flag:
  assumes "js_ok js"
  shows "js_is_cancelled (set_flag r js) r' =
    (r' = r \<and> get_run_state js r \<noteq> None \<or> js_is_cancelled js r')"
proof (cases "map_of (js_flags js) r")
  case None
  then show ?thesis
    using js_okD(9) [OF assms, of r] by (auto simp: set_flag_def get_run_state_def)
next
  case (Some c)
  then have run: "get_run_state js r \<noteq> None"
    using js_okD(9) [OF assms, of r] by (auto simp: get_run_state_def)
  have inj: "map_of (js_flags js) r' = Some c \<Longrightarrow> r' = r"
    using addr_ok_inj [OF js_okD(3) [OF assms]] Some by blast
  show ?thesis
    using Some run inj
    by (cases "map_of (js_flags js) r'") (auto simp: set_flag_def js_is_cancelled_def)
qed

definition cancelled_run :: "real \<Rightarrow> run_state \<Rightarrow> run_state" where
  "cancelled_run now rs =
    rs\<lparr>rs_status := CANCELLED, rs_finished_at := Some now, rs_error := Some cancelled_error\<rparr>"

lemma cancelled_run_simps [simp]:
  "rs_run_id (cancelled_run now rs) = rs_run_id rs"
  "rs_status (cancelled_run now rs) = CANCELLED"
  "rs_finished_at (cancelled_run now rs) = Some now"
  "rs_error (cancelled_run now rs) = Some cancelled_error"
  by (simp_all add: cancelled_run_def)

text \<open>The four answers of \<open>cancel\<close>, and what each does to the store.\<close>

lemma js_cancel_missing: "get_run_state js r = None \<Longrightarrow> js_cancel now r js = (''missing'', js)"
  by (simp add: js_cancel_def)

lemma js_cancel_pending:
  "get_run_state js r = Some a \<Longrightarrow> rs_status (js_rheap js a) = PENDING \<Longrightarrow>
   js_cancel now r js = (''cancelled'',
     settle_future r (FException cancelled_error) (upd_run a (cancelled_run now) (set_flag r js)))"
  by (simp add: js_cancel_def Let_def fail_settle cancelled_run_def [abs_def])

lemma js_cancel_running:
  "get_run_state js r = Some a \<Longrightarrow> rs_status (js_rheap js a) = RUNNING \<Longrightarrow>
   js_cancel now r js = (''requested'', set_flag r js)"
  by (simp add: js_cancel_def Let_def)

lemma js_cancel_terminal:
  "get_run_state js r = Some a \<Longrightarrow> terminal_status (rs_status (js_rheap js a)) \<Longrightarrow>
   js_cancel now r js = (''noop'', set_flag r js)"
  by (auto simp: js_cancel_def Let_def active_status_def)

lemma js_cancel_cases:
  obtains (missing) "get_run_state js r = None" "js_cancel now r js = (''missing'', js)"
  | (pending) a where "get_run_state js r = Some a" "rs_status (js_rheap js a) = PENDING"
      "js_cancel now r js = (''cancelled'',
         settle_future r (FException cancelled_error)
           (upd_run a (cancelled_run now) (set_flag r js)))"
  | (running) a where "get_run_state js r = Some a" "rs_status (js_rheap js a) = RUNNING"
      "js_cancel now r js = (''requested'', set_flag r js)"
  | (terminal) a where "get_run_state js r = Some a" "terminal_status (rs_status (js_rheap js a))"
      "js_cancel now r js = (''noop'', set_flag r js)"
proof (cases "get_run_state js r")
  case None
  then show ?thesis using missing by (simp add: js_cancel_missing)
next
  case (Some a)
  then show ?thesis
    using pending running terminal
    by (cases "rs_status (js_rheap js a)")
      (auto simp: js_cancel_pending js_cancel_running js_cancel_terminal)
qed

lemma js_ok_cancel [simp]: "js_ok js \<Longrightarrow> js_ok (snd (js_cancel now r js))"
  by (rule js_cancel_cases [of js r now]) simp_all

lemma run_at_cancel:
  assumes "js_ok js"
  shows "run_at (snd (js_cancel now r js)) r' =
    (if r' = r \<and> status_of js r = Some PENDING then map_option (cancelled_run now) (run_at js r)
     else run_at js r')"
proof (rule js_cancel_cases [of js r now])
  fix a
  assume run: "get_run_state js r = Some a" and st: "rs_status (js_rheap js a) = PENDING"
    and eq: "js_cancel now r js = (''cancelled'', settle_future r (FException cancelled_error)
           (upd_run a (cancelled_run now) (set_flag r js)))"
  have "run_at (upd_run a (cancelled_run now) (set_flag r js)) r' =
      (if r' = r then Some (cancelled_run now (js_rheap js a)) else run_at js r')"
    using run run_at_upd_run_other [of "set_flag r js" r a r'] assms
    by (simp add: run_at_upd_run)
  with run st show ?thesis by (simp add: eq status_of_def run_at_def)
qed (auto simp: status_of_def run_at_def)

subsection \<open>Forgetting runs\<close>

lemma cancel_future_frame [simp]:
  "js_runs (cancel_future f js) = js_runs js" "js_invs (cancel_future f js) = js_invs js"
  "js_futs (cancel_future f js) = js_futs js" "js_seqs (cancel_future f js) = js_seqs js"
  "js_flags (cancel_future f js) = js_flags js" "js_bus (cancel_future f js) = js_bus js"
  "js_gsubs (cancel_future f js) = js_gsubs js" "js_rheap (cancel_future f js) = js_rheap js"
  "js_cheap (cancel_future f js) = js_cheap js" "js_next (cancel_future f js) = js_next js"
  "js_retain (cancel_future f js) = js_retain js" "js_ttl (cancel_future f js) = js_ttl js"
  "js_loop (cancel_future f js) = js_loop js"
  by (cases f; simp add: cancel_future_def)+

lemma js_pop_run_frame [simp]:
  "fst (js_pop_run r js) = run_at js r"
  "js_runs (forget_run r js) = dict_pop r (js_runs js)"
  "js_invs (forget_run r js) = dict_pop r (js_invs js)"
  "js_futs (forget_run r js) = dict_pop r (js_futs js)"
  "js_seqs (forget_run r js) = dict_pop r (js_seqs js)"
  "js_flags (forget_run r js) = dict_pop r (js_flags js)"
  "js_bus (forget_run r js) = drop_run r (js_bus js)"
  "js_rheap (forget_run r js) = js_rheap js" "js_cheap (forget_run r js) = js_cheap js"
  "js_gsubs (forget_run r js) = js_gsubs js" "js_next (forget_run r js) = js_next js"
  "js_retain (forget_run r js) = js_retain js" "js_ttl (forget_run r js) = js_ttl js"
  "js_loop (forget_run r js) = js_loop js"
  by (simp_all add: js_pop_run_def Let_def)

lemma forget_run_views [simp]:
  "run_at (forget_run r js) r' = (if r' = r then None else run_at js r')"
  "get_run_state (forget_run r js) r' = (if r' = r then None else get_run_state js r')"
  "get_invocation (forget_run r js) r' = (if r' = r then None else get_invocation js r')"
  "get_future (forget_run r js) r' = (if r' = r then None else get_future js r')"
  by (simp_all add: view_defs dict_simps)

lemma js_ok_forget [simp]: "js_ok js \<Longrightarrow> js_ok (forget_run r js)"
  unfolding js_ok_def gsubs_ok_def by (simp add: dict_simps)

subsection \<open>Cleanup\<close>

lemma fold_forget_simps:
  "js_runs (fold forget_run ids js) = filter (\<lambda>p. fst p \<notin> set ids) (js_runs js)"
  "js_rheap (fold forget_run ids js) = js_rheap js"
  by (induction ids arbitrary: js) (auto simp: dict_pop_filter intro: filter_cong)

lemma fold_forget_views:
  "run_at (fold forget_run ids js) r = (if r \<in> set ids then None else run_at js r)"
  by (induction ids arbitrary: js) simp_all

lemma js_ok_fold_forget [simp]: "js_ok js \<Longrightarrow> js_ok (fold forget_run ids js)"
  by (induction ids arbitrary: js) simp_all

lemma completed_fold_forget:
  "completed_runs (fold forget_run ids js) = filter (\<lambda>c. snd c \<notin> set ids) (completed_runs js)"
  by (simp add: completed_runs_def fold_forget_simps filter_map o_def split_beta conj_commute)

lemma distinct_completed: "js_ok js \<Longrightarrow> distinct (map snd (completed_runs js))"
  using dict_ok_runs [of js]
  by (simp add: completed_runs_def dict_ok_def o_def split_beta distinct_map_filter)

lemma completed_mem:
  assumes "js_ok js" and "c \<in> set (completed_runs js)"
  shows "\<exists>rs. run_at js (snd c) = Some rs \<and> terminal_status (rs_status rs) \<and> fst c = rs_finished_at rs"
proof -
  obtain r a where ra: "(r, a) \<in> set (js_runs js)" "terminal_status (rs_status (js_rheap js a))"
    "c = (rs_finished_at (js_rheap js a), r)"
    using assms(2) by (auto simp: completed_runs_def)
  then have "map_of (js_runs js) r = Some a"
    using dict_ok_runs [OF assms(1)] by (simp add: dict_mem_iff)
  with ra show ?thesis by (simp add: view_defs)
qed

lemma newest_first_simps [simp]:
  "set (newest_first cs) = set cs" "length (newest_first cs) = length cs"
  "distinct (map snd (newest_first cs)) = distinct (map snd cs)"
proof -
  have "mset (newest_first cs) = mset cs" by (simp add: newest_first_def)
  then have "mset (map snd (newest_first cs)) = mset (map snd cs)" by simp
  then show "distinct (map snd (newest_first cs)) = distinct (map snd cs)"
    by (rule mset_eq_imp_distinct_iff)
qed (simp_all add: newest_first_def)

lemma filter_drop_ids:
  assumes "distinct (map snd cs)"
  shows "set (filter (\<lambda>c. snd c \<notin> snd ` set (drop n cs)) cs) = set (take n cs)"
proof -
  have "distinct (map snd (take n cs @ drop n cs))" using assms by simp
  then have disj: "snd ` set (take n cs) \<inter> snd ` set (drop n cs) = {}"
    by (metis distinct_append map_append set_map)
  have "set cs = set (take n cs) \<union> set (drop n cs)"
    by (metis append_take_drop_id set_append)
  with disj show ?thesis by auto
qed

definition removed_ids :: "real \<Rightarrow> int \<Rightarrow> job_store \<Rightarrow> string list" where
  "removed_ids now n js =
    ttl_expired now (js_ttl js) (completed_runs js) @
    map snd (drop (nat n) (newest_first (completed_runs js)))"

lemma cleanup_retain:
  assumes "js_retain js = Some n" and "0 \<le> n" and "comparable (completed_runs js)"
  shows "cleanup now js = (Inr (), fold forget_run (remdups (removed_ids now n js)) js)"
  using assms by (simp add: cleanup_def over_retained_def Let_def removed_ids_def)

lemma ttl_expired_subset: "set (ttl_expired now ttl cs) \<subseteq> snd ` set cs"
  by (cases ttl) (auto simp: ttl_expired_def)

lemma removed_ids_subset: "set (removed_ids now n js) \<subseteq> snd ` set (completed_runs js)"
proof -
  have "set (drop (nat n) (newest_first (completed_runs js))) \<subseteq> set (completed_runs js)"
    by (metis newest_first_simps(1) set_drop_subset)
  then show ?thesis
    using ttl_expired_subset [of now "js_ttl js" "completed_runs js"]
    by (auto simp: removed_ids_def)
qed

lemma completed_after_cleanup:
  assumes "js_ok js"
  shows "set (completed_runs (fold forget_run (remdups (removed_ids now n js)) js)) =
    {c \<in> set (take (nat n) (newest_first (completed_runs js))).
       snd c \<notin> set (ttl_expired now (js_ttl js) (completed_runs js))}"
proof -
  let ?nf = "newest_first (completed_runs js)"
  have "set (filter (\<lambda>c. snd c \<notin> snd ` set (drop (nat n) ?nf)) ?nf) = set (take (nat n) ?nf)"
    using distinct_completed [OF assms] by (intro filter_drop_ids) simp
  then show ?thesis
    by (auto simp: completed_fold_forget removed_ids_def)
qed

subsection \<open>Events\<close>

lemma next_event_seq_simps [simp]:
  "fst (next_event_seq r js) = dict_get_or (js_seqs js) r 0 + 1"
  "js_seqs (snd (next_event_seq r js)) = dict_set r (dict_get_or (js_seqs js) r 0 + 1) (js_seqs js)"
  "js_runs (snd (next_event_seq r js)) = js_runs js" "js_invs (snd (next_event_seq r js)) = js_invs js"
  "js_futs (snd (next_event_seq r js)) = js_futs js" "js_flags (snd (next_event_seq r js)) = js_flags js"
  "js_bus (snd (next_event_seq r js)) = js_bus js" "js_gsubs (snd (next_event_seq r js)) = js_gsubs js"
  "js_rheap (snd (next_event_seq r js)) = js_rheap js" "js_fheap (snd (next_event_seq r js)) = js_fheap js"
  "js_cheap (snd (next_event_seq r js)) = js_cheap js" "js_next (snd (next_event_seq r js)) = js_next js"
  "js_loop (snd (next_event_seq r js)) = js_loop js" "js_retain (snd (next_event_seq r js)) = js_retain js"
  "js_ttl (snd (next_event_seq r js)) = js_ttl js"
  by (simp_all add: next_event_seq_def Let_def)

lemma js_publish_frame [simp]:
  "js_runs (js_publish_event now r e js) = js_runs js"
  "js_invs (js_publish_event now r e js) = js_invs js"
  "js_futs (js_publish_event now r e js) = js_futs js"
  "js_seqs (js_publish_event now r e js) = js_seqs js"
  "js_flags (js_publish_event now r e js) = js_flags js"
  "js_gsubs (js_publish_event now r e js) = js_gsubs js"
  "js_rheap (js_publish_event now r e js) = js_rheap js"
  "js_fheap (js_publish_event now r e js) = js_fheap js"
  "js_cheap (js_publish_event now r e js) = js_cheap js"
  "js_next (js_publish_event now r e js) = js_next js"
  "js_loop (js_publish_event now r e js) = js_loop js"
  "js_retain (js_publish_event now r e js) = js_retain js"
  "js_ttl (js_publish_event now r e js) = js_ttl js"
  "history (js_bus (js_publish_event now r e js)) r' = history (publish now r e (js_bus js)) r'"
  "subscribers (js_bus (js_publish_event now r e js)) r' = subscribers (js_bus js) r'"
  "b_next (js_bus (js_publish_event now r e js)) = b_next (js_bus js)"
  "b_max (js_bus (js_publish_event now r e js)) = b_max (js_bus js)"
  "b_ttl (js_bus (js_publish_event now r e js)) = b_ttl (js_bus js)"
  by (simp_all add: js_publish_event_def Let_def history_def) (simp add: subscribers_def)

lemma view_frame:
  assumes "js_runs js' = js_runs js" "js_rheap js' = js_rheap js"
  shows "run_at js' r = run_at js r" "get_run_state js' r = get_run_state js r"
    "status_of js' r = status_of js r"
  using assms by (simp_all add: view_defs)

lemma js_publish_queue:
  assumes "js_ok js" and "q \<in> set (js_gsubs js)"
  shows "b_queues (js_bus (js_publish_event now r e js)) q = put_or_skip e (b_queues (js_bus js) q)"
proof -
  have gs: "distinct (js_gsubs js)" "\<forall>r. q \<notin> set (subscribers (js_bus js) r)"
    using js_okD(7) [OF assms(1)] assms(2) by (auto simp: gsubs_ok_def)
  have "b_queues (publish now r e (js_bus js)) q = b_queues (js_bus js) q"
    using gs(2) queues_publish [OF js_okD(6) [OF assms(1)]] by (cases r) auto
  then show ?thesis
    using gs(1) assms(2) by (simp add: js_publish_event_def Let_def put_all_member)
qed

lemma bus_ok_queues:
  "bus_ok b \<Longrightarrow> (\<forall>q. queue_ok (h q)) \<Longrightarrow> bus_ok (b\<lparr>b_queues := h\<rparr>)"
  by (simp add: bus_ok_def subscribers_def)

lemma gsubs_ok_publish:
  "gsubs_ok gs b \<Longrightarrow> gsubs_ok gs (publish now r e b)"
proof (cases r)
  case (Some rid)
  have "q_max (put_all e qs h q) = q_max (h q)" for qs h q
    unfolding put_all_def by (induction qs arbitrary: h) auto
  then show "gsubs_ok gs b \<Longrightarrow> gsubs_ok gs (publish now r e b)"
    unfolding gsubs_ok_def Some by (simp add: publish_def Let_def) (simp add: subscribers_def)
qed simp

lemma js_ok_publish [simp]: "js_ok js \<Longrightarrow> js_ok (js_publish_event now r e js)"
proof -
  assume ok: "js_ok js"
  let ?b = "publish now r e (js_bus js)"
  have b: "bus_ok ?b" "gsubs_ok (js_gsubs js) ?b"
    using js_okD(6,7) [OF ok] by (simp_all add: gsubs_ok_publish)
  have qm: "q_max (put_all e qs h q) = q_max (h q)" for qs h q
    unfolding put_all_def by (induction qs arbitrary: h) auto
  have "bus_ok (?b\<lparr>b_queues := put_all e (js_gsubs js) (b_queues ?b)\<rparr>)"
    using b(1) by (intro bus_ok_queues) (auto simp: bus_ok_def intro: put_all_queue_ok)
  moreover have "gsubs_ok (js_gsubs js) (?b\<lparr>b_queues := put_all e (js_gsubs js) (b_queues ?b)\<rparr>)"
    using b(2) by (simp add: gsubs_ok_def qm subscribers_def)
  ultimately show ?thesis
    using ok by (simp add: js_ok_def js_publish_event_def Let_def)
qed

lemma js_ok_next_seq [simp]: "js_ok js \<Longrightarrow> js_ok (snd (next_event_seq r js))"
  by (simp add: js_ok_def)

text \<open>The global subscribers form an event stream of their own.\<close>

definition js_pub :: "real \<times> string option \<times> runtime_event \<Rightarrow> job_store \<Rightarrow> job_store" where
  "js_pub p js = js_publish_event (fst p) (fst (snd p)) (snd (snd p)) js"

definition js_inbox :: "job_store \<Rightarrow> nat \<Rightarrow> runtime_event list" where
  "js_inbox js q = bus_inbox (js_bus js) q"

definition js_live :: "job_store \<Rightarrow> nat \<Rightarrow> bool" where
  "js_live js q \<longleftrightarrow> q \<in> set (js_gsubs js)"

interpretation global_stream: event_stream js_pub "\<lambda>p. snd (snd p)" js_inbox js_live js_ok
proof unfold_locales
  fix js p q
  assume ok: "js_ok js" and live: "js_live js q"
  then have "q_max (b_queues (js_bus js) q) \<le> 0"
    using js_okD(7) [OF ok] by (auto simp: gsubs_ok_def js_live_def)
  then show "js_inbox (js_pub p js) q = js_inbox js q @ [snd (snd p)]"
    using ok live
    by (simp add: js_inbox_def bus_inbox_def js_pub_def js_live_def js_publish_queue
        put_or_skip_unbounded)
qed (simp_all add: js_pub_def js_live_def)

lemma js_ok_subscribe_all: "js_ok js \<Longrightarrow> js_ok (snd (subscribe_all cur js))"
proof (cases "loop_check cur (js_loop js) ''subscribe_all''")
  case (Inr u)
  assume ok: "js_ok js"
  let ?b = "(js_bus js)\<lparr>b_queues := (b_queues (js_bus js))(b_next (js_bus js) := new_queue 0),
                        b_next := Suc (b_next (js_bus js))\<rparr>"
  have b: "bus_ok (js_bus js)" "gsubs_ok (js_gsubs js) (js_bus js)"
    using js_okD(6,7) [OF ok] .
  have "bus_ok ?b"
    using b(1) unfolding bus_ok_def by (simp add: subscribers_def) (metis less_Suc_eq)
  moreover have "gsubs_ok (js_gsubs js @ [b_next (js_bus js)]) ?b"
    using b unfolding gsubs_ok_def bus_ok_def
    by (auto simp: subscribers_def new_queue_def)
  ultimately show ?thesis
    using ok Inr by (simp add: subscribe_all_def Let_def js_ok_def)
qed (simp add: subscribe_all_def)

lemma js_ok_events: "js_ok js \<Longrightarrow> js_ok (snd (js_events cur r since m js))"
proof (cases "loop_check cur (js_loop js) ''events''")
  case (Inr u)
  assume ok: "js_ok js"
  let ?b = "snd (subscribe r since m (js_bus js))"
  have b: "bus_ok (js_bus js)" "gsubs_ok (js_gsubs js) (js_bus js)"
    using js_okD(6,7) [OF ok] .
  have "gsubs_ok (js_gsubs js) ?b"
    using b(2) unfolding gsubs_ok_def subscribers_subscribe by (auto simp: snd_subscribe)
  then show ?thesis
    using ok b(1) Inr by (simp add: js_events_def js_ok_def split_beta)
qed (simp add: js_events_def)

lemma js_ok_unsubscribe: "js_ok js \<Longrightarrow> js_ok (unsubscribe_events r q js)"
proof -
  assume ok: "js_ok js"
  have b: "bus_ok (js_bus js)" "gsubs_ok (js_gsubs js) (js_bus js)"
    using js_okD(6,7) [OF ok] .
  then have "gsubs_ok (js_gsubs js) (unsubscribe r q (js_bus js))"
    unfolding gsubs_ok_def
    by (auto simp: bus_ok_def subscribers_unsubscribe dest: set_remove1_subset [THEN subsetD])
  with ok b(1) show ?thesis by (simp add: unsubscribe_events_def js_ok_def)
qed

lemma js_ok_unsubscribe_all: "js_ok js \<Longrightarrow> js_ok (unsubscribe_all q js)"
  by (auto simp: js_ok_def unsubscribe_all_def gsubs_ok_def dest: set_remove1_subset [THEN subsetD])

section \<open>Properties\<close>

text \<open>A store with three runs, of which one is pending, one running and one done.\<close>

definition demo_invocation :: "string \<Rightarrow> invocation" where
  "demo_invocation r = default_invocation\<lparr>inv_run_id := Some r\<rparr>"

definition demo_store :: job_store where
  "demo_store =
    upd_run 2 (\<lambda>rs. rs\<lparr>rs_status := SUCCEEDED, rs_finished_at := Some 5\<rparr>)
     (upd_run 1 (\<lambda>rs. rs\<lparr>rs_status := RUNNING\<rparr>)
       (snd (create_run (demo_invocation ''c'') (snd (create_run (demo_invocation ''b'')
         (snd (create_run (demo_invocation ''a'') (new_job_store (Some 0) None None None))))))))"

lemma demo_store_ok: "js_ok demo_store"
  by (simp add: demo_store_def)

lemma demo_store_views:
  "status_of demo_store ''a'' = Some PENDING" "status_of demo_store ''b'' = Some RUNNING"
  "status_of demo_store ''c'' = Some SUCCEEDED"
  "completed_runs demo_store = [(Some 5, ''c'')]" "js_retain demo_store = Some 0"
  "js_ttl demo_store = None"
  by code_simp+

text \<open>The cancel table. \<open>cancel\<close> answers \<open>''missing''\<close>, \<open>''cancelled''\<close>,
  \<open>''requested''\<close> or \<open>''noop''\<close> as the run is unknown, pending, running or over; only a
  pending run is changed, into a cancelled one with a finishing time; its future fails if it was
  pending; no other run or future changes; and the cancel flag of a known run is set.\<close>

theorem cancel_table:
  assumes ok: "js_ok js"
  shows "fst (js_cancel t r js) =
      (case status_of js r of None \<Rightarrow> ''missing'' | Some PENDING \<Rightarrow> ''cancelled''
       | Some RUNNING \<Rightarrow> ''requested'' | Some _ \<Rightarrow> ''noop'') \<and>
    run_at (snd (js_cancel t r js)) r' =
      (if r' = r \<and> status_of js r = Some PENDING then map_option (cancelled_run t) (run_at js r)
       else run_at js r') \<and>
    fut_at (snd (js_cancel t r js)) r' =
      (if r' = r \<and> status_of js r = Some PENDING \<and> fut_at js r = Some FPending
       then Some (FException cancelled_error) else fut_at js r') \<and>
    js_is_cancelled (snd (js_cancel t r js)) r' =
      (r' = r \<and> status_of js r \<noteq> None \<or> js_is_cancelled js r')"
proof -
  have st: "get_run_state js r = Some a \<Longrightarrow> status_of js r = Some (rs_status (js_rheap js a))" for a
    by (simp add: status_of_def run_at_def)
  have flag: "js_is_cancelled (settle_future x v (upd_run a f js')) = js_is_cancelled js'" for x v a f js'
    by (rule ext) (simp add: js_is_cancelled_def split: option.split)
  show ?thesis
  proof (rule js_cancel_cases [of js r t], goal_cases)
    case 1
    then show ?case using run_at_cancel [OF ok, of t r r'] by (simp add: status_of_def run_at_def)
  next
    case (2 a)
    then show ?case
      using run_at_cancel [OF ok, of t r r'] st
      by (simp add: fut_at_settle ok flag is_cancelled_set_flag)
  next
    case (3 a)
    then show ?case
      using run_at_cancel [OF ok, of t r r'] st by (simp add: is_cancelled_set_flag ok)
  next
    case (4 a)
    then show ?case
      using run_at_cancel [OF ok, of t r r'] st
      by (cases "rs_status (js_rheap js a)") (simp_all add: is_cancelled_set_flag ok)
  qed
qed

lemma cancel_table_witness:
  "fst (js_cancel 9 ''a'' demo_store) = ''cancelled'' \<and>
    status_of (snd (js_cancel 9 ''a'' demo_store)) ''a'' = Some CANCELLED"
proof -
  obtain rs where "run_at demo_store ''a'' = Some rs"
    using demo_store_views(1) by (auto simp: status_of_def)
  then show ?thesis
    using cancel_table [OF demo_store_ok, of 9 "''a''" "''a''"] demo_store_views(1)
    by (simp add: status_of_def)
qed

text \<open>A completed run is among the first \<open>n\<close> when fewer than \<open>n\<close> runs are newer.\<close>

lemma newest_first_strict:
  assumes "distinct (map snd cs)"
  shows "sorted_wrt (\<lambda>x y. completed_key y < completed_key x) (newest_first cs)"
proof -
  have d: "distinct (map snd (newest_first cs))" using assms by simp
  have "sorted_wrt (\<lambda>x y. completed_key y \<le> completed_key x) (newest_first cs)"
    by (simp add: newest_first_def sorted_wrt_rev sorted_wrt_map [symmetric])
  moreover have "completed_key y \<noteq> completed_key x" if "snd x \<noteq> snd y" for x y
    using that by (auto simp: completed_key_def split: prod.splits option.splits)
  ultimately show ?thesis
    using d unfolding sorted_wrt_iff_nth_less distinct_conv_nth
    by (metis (no_types, lifting) length_map nth_map order_less_le order_less_imp_le order_less_imp_not_eq order_less_trans)
qed

lemma newest_first_rank:
  assumes dis: "distinct (map snd cs)"
  shows "c \<in> set (take n (newest_first cs)) \<longleftrightarrow>
    c \<in> set cs \<and> card {d \<in> set cs. completed_key c < completed_key d} < n"
proof -
  let ?nf = "newest_first cs"
  note sorted = newest_first_strict [OF dis, unfolded sorted_wrt_iff_nth_less, rule_format]
  have dnf: "distinct ?nf" using dis by (metis distinct_map newest_first_simps(3))
  have rank: "card {d \<in> set cs. completed_key (?nf ! i) < completed_key d} = i" if i: "i < length ?nf" for i
  proof -
    have "{d \<in> set ?nf. completed_key (?nf ! i) < completed_key d} = set (take i ?nf)"
    proof (intro set_eqI iffI)
      fix d assume "d \<in> {d \<in> set ?nf. completed_key (?nf ! i) < completed_key d}"
      then have "d \<in> set ?nf" and "completed_key (?nf ! i) < completed_key d" by simp_all
      then obtain j where j: "j < length ?nf" "d = ?nf ! j" "completed_key (?nf ! i) < completed_key (?nf ! j)"
        by (metis in_set_conv_nth)
      then have "j < i" using sorted [of i j] i by (metis less_asym linorder_neqE_nat order_less_irrefl)
      then show "d \<in> set (take i ?nf)" using j i by (auto simp: in_set_conv_nth intro!: exI [of _ j])
    next
      fix d assume "d \<in> set (take i ?nf)"
      then obtain j where "j < i" "d = ?nf ! j" by (auto simp: in_set_conv_nth)
      then show "d \<in> {d \<in> set ?nf. completed_key (?nf ! i) < completed_key d}"
        using sorted [of j i] i nth_mem [of j ?nf] by simp
    qed
    then show ?thesis using dnf i by (simp add: distinct_card)
  qed
  show ?thesis
  proof
    assume "c \<in> set (take n ?nf)"
    then obtain i where "i < n" "i < length ?nf" "c = ?nf ! i" by (auto simp: in_set_conv_nth)
    then show "c \<in> set cs \<and> card {d \<in> set cs. completed_key c < completed_key d} < n"
      using rank [of i] nth_mem [of i ?nf] by simp
  next
    assume c: "c \<in> set cs \<and> card {d \<in> set cs. completed_key c < completed_key d} < n"
    then obtain i where i: "i < length ?nf" "c = ?nf ! i"
      by (metis in_set_conv_nth newest_first_simps(1))
    then have "i < n" using c rank [of i] by simp
    then show "c \<in> set (take n ?nf)" using i by (auto simp: in_set_conv_nth intro!: exI [of _ i])
  qed
qed

lemma ttl_expired_iff:
  assumes "distinct (map snd cs)" and c: "c \<in> set cs"
  shows "snd c \<in> set (ttl_expired now ttl cs) \<longleftrightarrow> (\<exists>t d. fst c = Some t \<and> ttl = Some d \<and> d \<le> now - t)"
proof (cases ttl)
  case (Some d)
  have inj: "inj_on snd (set cs)" using assms(1) by (simp add: distinct_map)
  have "snd c \<in> snd ` {x \<in> set cs. P x} \<longleftrightarrow> P c" for P
    using inj_on_image_mem_iff [OF inj c, of "{x \<in> set cs. P x}"] c by auto
  then show ?thesis by (cases c) (auto simp: ttl_expired_def Some split: option.split)
qed (simp add: ttl_expired_def)

text \<open>C31: cleanup keeps exactly the newest completed runs and every active run. With a retention
  bound \<open>n\<close>, a completed run remains if and only if its time to live has not passed and fewer
  than \<open>n\<close> completed runs finished later (ties broken by id); the runs that remain, the pending and
  running ones among them, are as they were, and those that do not are unknown afterwards.\<close>

theorem cleanup_keeps_newest:
  assumes ok: "js_ok js" and n: "js_retain js = Some n" "0 \<le> n" and cmp: "comparable (completed_runs js)"
  shows "fst (cleanup now js) = Inr () \<and>
    (\<forall>c. c \<in> set (completed_runs (snd (cleanup now js))) \<longleftrightarrow>
       c \<in> set (completed_runs js) \<and>
       \<not> (\<exists>t ttl. fst c = Some t \<and> js_ttl js = Some ttl \<and> ttl \<le> now - t) \<and>
       card {d \<in> set (completed_runs js). completed_key c < completed_key d} < nat n) \<and>
    (\<forall>r. run_at (snd (cleanup now js)) r =
       (if \<exists>t. (t, r) \<in> set (completed_runs js) - set (completed_runs (snd (cleanup now js)))
        then None else run_at js r))"
proof -
  let ?ids = "remdups (removed_ids now n js)" and ?nf = "newest_first (completed_runs js)"
  let ?js = "fold forget_run ?ids js"
  have eq: "cleanup now js = (Inr (), ?js)" by (rule cleanup_retain [OF n cmp])
  have dis: "distinct (map snd (completed_runs js))" by (rule distinct_completed [OF ok])
  have set: "set (completed_runs ?js) = {c \<in> set (take (nat n) ?nf).
      snd c \<notin> set (ttl_expired now (js_ttl js) (completed_runs js))}"
    by (rule completed_after_cleanup [OF ok])
  have ttl: "snd c \<in> set (ttl_expired now (js_ttl js) (completed_runs js)) \<longleftrightarrow>
      (\<exists>t ttl. fst c = Some t \<and> js_ttl js = Some ttl \<and> ttl \<le> now - t)" if "c \<in> set (completed_runs js)" for c
    by (rule ttl_expired_iff [OF dis that])
  have kept: "c \<in> set (completed_runs ?js) \<longleftrightarrow> c \<in> set (completed_runs js) \<and>
      \<not> (\<exists>t ttl. fst c = Some t \<and> js_ttl js = Some ttl \<and> ttl \<le> now - t) \<and>
      card {d \<in> set (completed_runs js). completed_key c < completed_key d} < nat n" for c
    unfolding set using ttl [of c] newest_first_rank [OF dis, of c "nat n"] by blast
  have gone: "r \<in> set ?ids \<longleftrightarrow> (\<exists>t. (t, r) \<in> set (completed_runs js) - set (completed_runs ?js))" for r
  proof -
    have "(r \<in> set ?ids) = (\<exists>c \<in> set (completed_runs js). snd c = r \<and> snd c \<in> set ?ids)"
      using removed_ids_subset [of now n js] by auto
    also have "\<dots> = (\<exists>c \<in> set (completed_runs js). snd c = r \<and> c \<notin> set (completed_runs ?js))"
      by (auto simp: completed_fold_forget)
    finally show ?thesis by force
  qed
  show ?thesis unfolding eq fst_conv snd_conv using kept gone by (simp add: fold_forget_views)
qed

definition demo_finished :: job_store where
  "demo_finished =
    upd_run 2 (\<lambda>rs. rs\<lparr>rs_status := SUCCEEDED, rs_finished_at := Some 5\<rparr>)
     (upd_run 1 (\<lambda>rs. rs\<lparr>rs_status := FAILED, rs_finished_at := Some 7\<rparr>)
      (upd_run 0 (\<lambda>rs. rs\<lparr>rs_status := SUCCEEDED, rs_finished_at := Some 3\<rparr>)
       (snd (create_run (demo_invocation ''c'') (snd (create_run (demo_invocation ''b'')
         (snd (create_run (demo_invocation ''a'') (new_job_store (Some 2) None None None)))))))))"

lemma cleanup_keeps_newest_witness:
  "set (completed_runs (snd (cleanup 9 demo_finished))) = {(Some 7, ''b''), (Some 5, ''c'')} \<and>
    run_at (snd (cleanup 9 demo_finished)) ''a'' = None"
proof -
  have ok: "js_ok demo_finished" by (simp add: demo_finished_def)
  have f: "js_retain demo_finished = Some 2" "js_ttl demo_finished = None" by code_simp+
  have c: "completed_runs demo_finished = [(Some 3, ''a''), (Some 7, ''b''), (Some 5, ''c'')]" by code_simp
  have "comparable (completed_runs demo_finished)" by (simp add: c comparable_def)
  note t = cleanup_keeps_newest [OF ok f(1) _ this, of 9]
  have "distinct (completed_runs demo_finished)" by (simp add: c)
  then have newer: "card {d \<in> set (completed_runs demo_finished). P d} =
      length (filter P (completed_runs demo_finished))" for P
    using distinct_card [of "filter P (completed_runs demo_finished)"] by simp
  note kept = t [THEN conjunct2, THEN conjunct1, rule_format, unfolded newer]
  have "set (completed_runs (snd (cleanup 9 demo_finished))) = {(Some 7, ''b''), (Some 5, ''c'')}"
    by (auto simp: kept c f(2) completed_key_def)
  then show ?thesis using t by (auto simp: c)
qed

text \<open>Global subscribers miss nothing. A queue returned by \<open>subscribe_all\<close> receives every
  event published afterwards, for any run or none, in order.\<close>

theorem global_subscriber_gets_every_event:
  assumes ok: "js_ok js" and sub: "subscribe_all cur js = (Inr q, js1)"
  shows "q_items (b_queues (js_bus (fold js_pub ps js1)) q) = map (\<lambda>p. snd (snd p)) ps"
proof -
  obtain u where u: "loop_check cur (js_loop js) ''subscribe_all'' = Inr u"
    using sub by (cases "loop_check cur (js_loop js) ''subscribe_all''") (simp_all add: subscribe_all_def)
  have js1: "js1 = snd (subscribe_all cur js)" using sub by simp
  have q: "js_live js1 q" "js_inbox js1 q = []"
    using sub u by (auto simp: subscribe_all_def Let_def js_live_def js_inbox_def bus_inbox_def new_queue_def)
  have "js_ok js1" using js_ok_subscribe_all [OF ok] by (simp add: js1)
  from global_stream.inbox_pub_all [OF this q(1), of ps] q(2)
  show ?thesis by (simp add: js_inbox_def bus_inbox_def)
qed

lemma global_subscriber_gets_every_event_witness:
  "q_items (b_queues (js_bus (fold js_pub [(0, Some ''x'', demo_event 1), (0, None, demo_event 2)]
     (snd (subscribe_all (Some 0) demo_store)))) 0) = [demo_event 1, demo_event 2]"
proof -
  have "fst (subscribe_all (Some 0) demo_store) = Inr 0" by code_simp
  then have "subscribe_all (Some 0) demo_store = (Inr 0, snd (subscribe_all (Some 0) demo_store))"
    by (metis prod.collapse)
  from global_subscriber_gets_every_event [OF demo_store_ok this,
      of "[(0, Some ''x'', demo_event 1), (0, None, demo_event 2)]"]
  show ?thesis by simp
qed

text \<open>Listing jobs. \<open>list_jobs\<close> gives one row per run of the store that passes the
  filters, and the row shows that run's status and times.\<close>

theorem list_jobs_correct:
  assumes ok: "js_ok js"
  shows "distinct (map jr_run_id (list_jobs fs js)) \<and>
    (row \<in> set (list_jobs fs js) \<longleftrightarrow>
      (\<exists>r rs. run_at js r = Some rs \<and> job_selected fs rs (get_invocation js r) \<and>
         row = job_row_of r rs (get_invocation js r)))"
proof -
  have d: "dict_ok (js_runs js)" by (rule dict_ok_runs [OF ok])
  have "map jr_run_id (list_jobs fs js) =
      map fst (filter (\<lambda>(r, a). job_selected fs (js_rheap js a) (get_invocation js r)) (js_runs js))"
    by (simp add: list_jobs_def o_def split_beta job_row_of_def)
  then have "distinct (map jr_run_id (list_jobs fs js))"
    using d by (simp add: dict_ok_def distinct_map_filter)
  moreover have "row \<in> set (list_jobs fs js) \<longleftrightarrow>
      (\<exists>r a. map_of (js_runs js) r = Some a \<and> job_selected fs (js_rheap js a) (get_invocation js r) \<and>
         row = job_row_of r (js_rheap js a) (get_invocation js r))"
    using dict_mem_iff [OF d] by (auto simp: list_jobs_def)
  ultimately show ?thesis by (auto simp: run_at_def get_run_state_def)
qed

lemma list_jobs_correct_witness:
  "map jr_run_id (list_jobs (no_job_filters\<lparr>jf_status := One RUNNING\<rparr>) demo_store) = [''b''] \<and>
    distinct (map jr_run_id (list_jobs (no_job_filters\<lparr>jf_status := One RUNNING\<rparr>) demo_store))"
proof -
  have "map jr_run_id (list_jobs (no_job_filters\<lparr>jf_status := One RUNNING\<rparr>) demo_store) = [''b'']"
    by code_simp
  then show ?thesis using list_jobs_correct [OF demo_store_ok] by blast
qed

text \<open>Forgetting a run cancels its waiters. \<open>pop_run\<close> returns the run and removes every
  trace of it; a future that was still pending becomes cancelled, so a waiter suspended on it
  gets \<open>CancelledError\<close>; other runs and their futures stay as they are.\<close>

theorem pop_run_forgets:
  assumes ok: "js_ok js"
  shows "fst (js_pop_run r js) = run_at js r \<and>
    run_at (forget_run r js) r' = (if r' = r then None else run_at js r') \<and>
    history (js_bus (forget_run r js)) r' = (if r' = r then [] else history (js_bus js) r') \<and>
    (get_future js r' = Some f \<longrightarrow>
      js_fheap (forget_run r js) f =
        (if r' = r \<and> js_fheap js f = FPending then FCancelled else js_fheap js f))"
proof -
  have "js_fheap (forget_run r js) f =
      (if r' = r \<and> js_fheap js f = FPending then FCancelled else js_fheap js f)"
    if f: "get_future js r' = Some f"
  proof (cases "r' = r")
    case True
    then show ?thesis
      using f by (auto simp: js_pop_run_def Let_def cancel_future_def fut_done_def)
  next
    case False
    then have "get_future js r \<noteq> Some f"
      using addr_ok_inj [OF js_okD(2) [OF ok]] f by (auto simp: get_future_def)
    then show ?thesis
      using False by (cases "get_future js r") (auto simp: js_pop_run_def Let_def cancel_future_def)
  qed
  then show ?thesis by simp
qed

lemma pop_run_forgets_witness:
  "run_at (forget_run ''a'' demo_store) ''a'' = None \<and>
    run_at (forget_run ''a'' demo_store) ''b'' = run_at demo_store ''b''"
  using pop_run_forgets [OF demo_store_ok, of "''a''" "''a''"]
    pop_run_forgets [OF demo_store_ok, of "''a''" "''b''"] by simp

end
