(* ===== verification/RunContext.thy ===== *)
theory RunContext
  imports JobStore
begin

text \<open>
  The context variables of a run (\<open>runtime/context.py\<close>), the router provider
  (\<open>runtime/provider.py\<close>) and the output path of a command (\<open>runtime/router.py\<close>).

  Context variables are local to a thread or task: they are a value a computation is given.
  An emitter is a closure; the program builds two kinds, and \<open>emitter\<close> names them.
\<close>

section \<open>Run context\<close>

datatype emitter =
    PublishTo string   \<comment> \<open>the executor's \<open>lambda event: self.publish_event(run_id, event)\<close>\<close>
  | Collect            \<comment> \<open>the harness's \<open>lambda event: runtime_events.append(event)\<close>\<close>

record run_context =
  rc_run_id :: "string option"
  rc_source :: "string option"
  rc_emitter :: "emitter option"
  rc_cancel_flag :: "nat option"
  rc_session_id :: "string option"
  rc_parent_run_id :: "string option"
  rc_depth :: "int option"
  rc_origin_source :: "string option"
  rc_principal :: "string option"
  rc_lock_key :: "string option"
  rc_command_id :: "string option"
  rc_callable_meta :: "(string, pyval) dict option"

text \<open>Every variable's default is \<open>None\<close>: what a thread outside any run sees.\<close>

definition no_context :: run_context where
  "no_context = \<lparr>rc_run_id = None, rc_source = None, rc_emitter = None, rc_cancel_flag = None,
    rc_session_id = None, rc_parent_run_id = None, rc_depth = None, rc_origin_source = None,
    rc_principal = None, rc_lock_key = None, rc_command_id = None, rc_callable_meta = None\<rparr>"

text \<open>
  \<open>use_run_context\<close>: the body runs under the new values; the \<open>finally\<close> block resets every
  variable to what its token saved, however the body ended. The body's result type includes
  its exceptions.
\<close>

definition use_run_context ::
  "run_context \<Rightarrow> (run_context \<times> 's \<Rightarrow> 'r \<times> run_context \<times> 's)
   \<Rightarrow> run_context \<times> 's \<Rightarrow> 'r \<times> run_context \<times> 's" where
  "use_run_context c body st =
    (let (r, _, s') = body (c, snd st) in (r, fst st, s'))"

lemma use_run_context_restores: "fst (snd (use_run_context c body (c0, s))) = c0"
  by (simp add: use_run_context_def split_beta)

text \<open>The getters.\<close>

definition get_current_run_id :: "run_context \<Rightarrow> string option" where
  "get_current_run_id c = rc_run_id c"

definition get_current_source :: "run_context \<Rightarrow> string option" where
  "get_current_source c = rc_source c"

definition get_current_emitter :: "run_context \<Rightarrow> emitter option" where
  "get_current_emitter c = rc_emitter c"

definition get_current_cancel_flag :: "run_context \<Rightarrow> nat option" where
  "get_current_cancel_flag c = rc_cancel_flag c"

definition get_current_session_id :: "run_context \<Rightarrow> string option" where
  "get_current_session_id c = rc_session_id c"

definition get_current_parent_run_id :: "run_context \<Rightarrow> string option" where
  "get_current_parent_run_id c = rc_parent_run_id c"

definition get_current_depth :: "run_context \<Rightarrow> int option" where
  "get_current_depth c = rc_depth c"

definition get_current_origin_source :: "run_context \<Rightarrow> string option" where
  "get_current_origin_source c = rc_origin_source c"

definition get_current_principal :: "run_context \<Rightarrow> string option" where
  "get_current_principal c = rc_principal c"

definition get_current_lock_key :: "run_context \<Rightarrow> string option" where
  "get_current_lock_key c = rc_lock_key c"

definition get_current_command_id :: "run_context \<Rightarrow> string option" where
  "get_current_command_id c = rc_command_id c"

definition get_current_callable_meta :: "run_context \<Rightarrow> (string, pyval) dict option" where
  "get_current_callable_meta c = rc_callable_meta c"

text \<open>\<open>is_cancelled\<close> reads the flag object of the current run.\<close>

definition ctx_is_cancelled :: "run_context \<Rightarrow> job_store \<Rightarrow> bool" where
  "ctx_is_cancelled c js =
    (case rc_cancel_flag c of None \<Rightarrow> False | Some a \<Rightarrow> js_cheap js a)"

section \<open>Router provider\<close>

type_synonym router_id = nat

record provider =
  pv_default :: "router_id option"
  pv_current :: "router_id option"

definition new_provider :: provider where
  "new_provider = \<lparr>pv_default = None, pv_current = None\<rparr>"

definition set_default_router :: "router_id option \<Rightarrow> provider \<Rightarrow> provider" where
  "set_default_router r p = p\<lparr>pv_default := r\<rparr>"

definition get_router :: "provider \<Rightarrow> router_id option" where
  "get_router p = (case pv_current p of Some r \<Rightarrow> Some r | None \<Rightarrow> pv_default p)"

definition get_default_router :: "provider \<Rightarrow> router_id option" where
  "get_default_router p = pv_default p"

text \<open>A token is the value the context variable had.\<close>

definition set_current_router :: "router_id option \<Rightarrow> provider \<Rightarrow> router_id option \<times> provider" where
  "set_current_router r p = (pv_current p, p\<lparr>pv_current := r\<rparr>)"

definition reset_current_router :: "router_id option \<Rightarrow> provider \<Rightarrow> provider" where
  "reset_current_router token p = p\<lparr>pv_current := token\<rparr>"

definition use_router ::
  "router_id option \<Rightarrow> (provider \<Rightarrow> 'r \<times> provider) \<Rightarrow> provider \<Rightarrow> 'r \<times> provider" where
  "use_router r body p =
    (let (x, p') = body (p\<lparr>pv_current := r\<rparr>) in (x, p'\<lparr>pv_current := pv_current p\<rparr>))"

lemma use_router_by_token:
  "use_router r body p =
    (let (token, p1) = set_current_router r p; (x, p2) = body p1 in (x, reset_current_router token p2))"
  by (simp add: use_router_def set_current_router_def reset_current_router_def)

lemma use_router_restores: "pv_current (snd (use_router r body p)) = pv_current p"
  by (simp add: use_router_def split_beta)

section \<open>Printing\<close>

definition normalize_level :: "level_arg \<Rightarrow> ui_level" where
  "normalize_level l =
    (case l of
       Level u \<Rightarrow> u
     | NoLevel \<Rightarrow> TEXT
     | LevelInt c \<Rightarrow>
         if c = level_value TEXT then TEXT
         else (case map_level c of None \<Rightarrow> TEXT | Some u \<Rightarrow> u))"

definition attach_runtime_context :: "run_context \<Rightarrow> runtime_event \<Rightarrow> runtime_event" where
  "attach_runtime_context c e =
    e\<lparr>ev_session_id := rc_session_id c, ev_parent_run_id := rc_parent_run_id c,
      ev_depth := rc_depth c, ev_origin_source := or_str (rc_origin_source c) (ev_source e),
      ev_principal := rc_principal c, ev_lock_key := rc_lock_key c,
      ev_command_id := rc_command_id c, ev_callable_meta := rc_callable_meta c\<rparr>"

text \<open>
  \<open>proxy_print\<close> inside a run hands a runtime event to the run's emitter; outside it hands a
  UI event to the current router, if there is one.
\<close>

datatype print_effect =
    Emitted emitter runtime_event
  | Routed router_id ui_event
  | NotPrinted

definition proxy_print ::
  "real \<Rightarrow> run_context \<Rightarrow> provider \<Rightarrow> pyval \<Rightarrow> level_arg \<Rightarrow> string \<Rightarrow> string option
   \<Rightarrow> print_effect" where
  "proxy_print now c p text text_type source run_id =
    (let level = normalize_level text_type in
     case (rc_run_id c, rc_emitter c) of
       (Some r, Some em) \<Rightarrow>
         Emitted em
          (attach_runtime_context c
            (mk_runtime_event now (Kind (if level = TEXT then STDOUT else LOG)) text (Level level)
              (Some r) None VNone (or_str (rc_source c) (Some source)) None None))
     | _ \<Rightarrow>
         (case get_router p of
            None \<Rightarrow> NotPrinted
          | Some ro \<Rightarrow>
              Routed ro
               (mk_ui_event now text (Level level) run_id None VNone (Some source) None None)))"

definition get_output_router :: "provider \<Rightarrow> router_id option" where
  "get_output_router p = get_router p"

section \<open>The output router\<close>

text \<open>
  Applications and outputs of prompt_toolkit are objects, here numbers; \<open>app_ready\<close> says of
  an application that it runs and has the two methods the router asks for. \<open>py_str\<close> is
  Python's \<open>str\<close> on the message. What the router hands to prompt_toolkit is a
  \<open>rendering\<close>.
\<close>

record output_router =
  or_app :: "nat option"
  or_output :: "nat option"

definition new_output_router :: output_router where
  "new_output_router = \<lparr>or_app = None, or_output = None\<rparr>"

text \<open>A session is the pair of its \<open>app\<close> and \<open>output\<close> attributes.\<close>

type_synonym ui_session = "nat option \<times> nat option"

definition bind_session :: "ui_session option \<Rightarrow> output_router \<Rightarrow> output_router" where
  "bind_session s ro =
    (case s of None \<Rightarrow> ro | Some (app, out) \<Rightarrow> ro\<lparr>or_app := app, or_output := out\<rparr>)"

definition clear_session :: "ui_session option \<Rightarrow> output_router \<Rightarrow> output_router" where
  "clear_session s ro =
    (if s = None \<or> map_option fst s = Some (or_app ro)
     then ro\<lparr>or_app := None, or_output := None\<rparr> else ro)"

definition msg_level_symbol :: "(int, string) dict" where
  "msg_level_symbol =
    [(0, ''[*] ''), (1, ''[!] ''), (2, ''[x] ''), (3, ''[+] ''), (4, ''[-] ''), (5, ''[@] '')]"

definition msg_level_symbol_style :: "(int, string) dict" where
  "msg_level_symbol_style =
    [(0, ''fg:green''), (1, ''fg:yellow''), (2, ''fg:red''), (3, ''fg:blue''),
     (4, ''fg:white''), (5, ''fg:pink'')]"

datatype formatted =
    PlainText pyval
  | Levelled string string string   \<comment> \<open>symbol, text, style of the symbol\<close>

definition format_event :: "(pyval \<Rightarrow> string) \<Rightarrow> ui_event \<Rightarrow> formatted res" where
  "format_event py_str e =
    (let level = normalize_level (ev_level e) in
     if level = TEXT then Inr (PlainText (ev_msg e))
     else
       case (map_of msg_level_symbol (level_value level),
             map_of msg_level_symbol_style (level_value level)) of
         (Some symb, Some sty) \<Rightarrow> Inr (Levelled symb (py_str (ev_msg e)) sty)
       | _ \<Rightarrow> Inl (PyExc KeyErrorC ''level''))"

datatype any_event = RuntimeEv runtime_event | UIEv ui_event

datatype rendering =
    InTerminal nat "nat option" "formatted res"
  | Direct "nat option" "formatted res"

definition router_emit ::
  "(nat \<Rightarrow> bool) \<Rightarrow> (pyval \<Rightarrow> string) \<Rightarrow> real \<Rightarrow> output_router \<Rightarrow> any_event \<Rightarrow> rendering option" where
  "router_emit app_ready py_str now ro ev =
    (let ui = (case ev of
                 RuntimeEv e \<Rightarrow>
                   if ev_kind e \<in> {Some STDOUT, Some STATE, Some LOG} then Some (to_ui_event now e)
                   else None
               | UIEv e \<Rightarrow> Some e)
     in case ui of
          None \<Rightarrow> None
        | Some e \<Rightarrow>
            (case or_app ro of
               Some app \<Rightarrow>
                 if app_ready app then Some (InTerminal app (or_output ro) (format_event py_str e))
                 else Some (Direct (or_output ro) (format_event py_str e))
             | None \<Rightarrow> Some (Direct (or_output ro) (format_event py_str e))))"

text \<open>The two tables cover every level but \<open>TEXT\<close>: formatting never raises.\<close>

lemma format_event_total: "\<exists>f. format_event py_str e = Inr f"
  by (cases "normalize_level (ev_level e)")
    (simp_all add: format_event_def msg_level_symbol_def msg_level_symbol_style_def)

lemma normalize_level_idem: "normalize_level (Level (normalize_level l)) = normalize_level l"
  by (simp add: normalize_level_def)

lemma proxy_print_in_run:
  "rc_run_id c = Some r \<Longrightarrow> rc_emitter c = Some em \<Longrightarrow>
   \<exists>e. proxy_print now c p text lv src rid = Emitted em e \<and> ev_run_id e = Some r \<and>
       ev_kind e = Some (if normalize_level lv = TEXT then STDOUT else LOG) \<and> ev_msg e = text"
  by (simp add: proxy_print_def Let_def attach_runtime_context_def mk_runtime_event_def)

lemma proxy_print_no_context:
  "proxy_print now no_context p text lv src rid =
    (case get_router p of None \<Rightarrow> NotPrinted
     | Some ro \<Rightarrow> Routed ro (mk_ui_event now text (Level (normalize_level lv)) rid None VNone
                              (Some src) None None))"
  by (simp add: proxy_print_def Let_def no_context_def)

section \<open>Properties\<close>

text \<open>Output is never formatted into an error. For every event and every way its level may
  be given, the router's formatting succeeds, prints the message, and shows a level symbol
  exactly when the normalised level is not \<open>TEXT\<close>.\<close>

theorem format_event_correct:
  "\<exists>f. format_event py_str e = Inr f \<and>
    (normalize_level (ev_level e) = TEXT \<longleftrightarrow> f = PlainText (ev_msg e)) \<and>
    (normalize_level (ev_level e) \<noteq> TEXT \<longleftrightarrow>
      (\<exists>symb sty. f = Levelled symb (py_str (ev_msg e)) sty \<and>
        map_of msg_level_symbol (level_value (normalize_level (ev_level e))) = Some symb))"
  by (cases "normalize_level (ev_level e)")
    (simp_all add: format_event_def msg_level_symbol_def msg_level_symbol_style_def)

section \<open>The logging handler\<close>

text \<open>
  \<open>ConsoleHandler.emit\<close> (\<open>audit/ui_logger.py\<close>): a log record is printed at the debug level.
  \<open>formatted\<close> is what formatting the record gives; the flag says whether \<open>handleError\<close> is called.
\<close>

definition console_handler_emit ::
  "real \<Rightarrow> run_context \<Rightarrow> provider \<Rightarrow> string res \<Rightarrow> (print_effect \<times> bool) res" where
  "console_handler_emit now c p formatted =
    (case formatted of
       Inr s \<Rightarrow> Inr (proxy_print now c p (VStr s) (Level DEBUG) ''tty'' None, False)
     | Inl e \<Rightarrow> if isinstance_exc e ExceptionC then Inr (NotPrinted, True) else Inl e)"

text \<open>Inside a run a log record becomes an event of the run.\<close>

lemma log_record_in_run:
  assumes "rc_run_id c = Some r" and "rc_emitter c = Some em"
  shows "\<exists>e. console_handler_emit now c p (Inr s) = Inr (Emitted em e, False) \<and> ev_run_id e = Some r \<and>
    ev_kind e = Some LOG \<and> ev_msg e = VStr s"
proof -
  have "normalize_level (Level DEBUG) = DEBUG" by code_simp
  then show ?thesis
    using proxy_print_in_run [OF assms, of now p "VStr s" "Level DEBUG" "''tty''" None]
    by (auto simp: console_handler_emit_def)
qed

end
