(* ===== verification/AuditLog.thy ===== *)
theory AuditLog
  imports RunContext
begin

text \<open>
  The audit sink (\<open>audit/sink.py\<close>). A sink may keep records in memory, write them to a
  stream at once, or queue them for a writer thread (\<open>async_mode\<close>). The stream is the list
  of records whose JSON lines were written; encoding to JSON and file I/O are outside the
  model, so a write that reaches an open stream succeeds.
\<close>

section \<open>Records\<close>

datatype audit_data =
    AInvocation invocation
  | ARunState run_state
  | AEvent runtime_event

record audit_record =
  ar_type :: string
  ar_ts :: real
  ar_data :: audit_data

datatype writer_pc = WCheck | WGet | WDrain | WFlush | WExit

record audit_sink =
  as_buffer :: "audit_record list option"
  as_open :: bool
  as_async :: bool
  as_stream :: "audit_record list"
  as_queue :: "audit_record list"
  as_stop :: bool
  as_pc :: writer_pc
  as_pending :: "audit_record list"
  as_accepted :: "audit_record list"      \<comment> \<open>ghost: records handed to the stream or the queue\<close>
  as_at_stop :: "audit_record list"       \<comment> \<open>ghost: those accepted when \<open>close\<close> set the stop event\<close>

text \<open>
  \<open>AuditSink.__init__\<close>: a path and a stream together are refused; with neither, nothing is
  written and \<open>async_mode\<close> has no effect.
\<close>

definition new_audit_sink :: "bool \<Rightarrow> bool \<Rightarrow> bool \<Rightarrow> bool \<Rightarrow> audit_sink res" where
  "new_audit_sink has_path has_stream keep_in_memory async_mode =
    (if has_path \<and> has_stream
     then Inl (PyExc ValueErrorC ''Only one of file_path or stream can be set'')
     else Inr \<lparr>as_buffer = (if keep_in_memory then Some [] else None),
               as_open = (has_path \<or> has_stream),
               as_async = (async_mode \<and> (has_path \<or> has_stream)),
               as_stream = [], as_queue = [], as_stop = False, as_pc = WCheck,
               as_pending = [], as_accepted = [], as_at_stop = []\<rparr>)"

text \<open>
  The values a bundle or an event may carry, as Python's introspection tells them apart: a
  dataclass, an enumeration, an exception, bytes (by the text they decode to), another object with
  a \<open>__dict__\<close>, or anything else. \<open>py_str\<close> is Python's \<open>str\<close>.
\<close>

datatype py_object =
    DataObj "(string, pyval) dict"
  | EnumObj pyval
  | ExcObj string
  | BytesObj string nat
  | DictObj "(string, pyval) dict"
  | PlainObj pyval

definition materialize :: "py_object \<Rightarrow> pyval" where
  "materialize x =
    (case x of
       DataObj d \<Rightarrow> VDict d
     | EnumObj v \<Rightarrow> v
     | ExcObj s \<Rightarrow> VStr s
     | BytesObj _ k \<Rightarrow> VObj k
     | DictObj d \<Rightarrow> VDict d
     | PlainObj v \<Rightarrow> v)"

definition json_default :: "(pyval \<Rightarrow> string) \<Rightarrow> py_object \<Rightarrow> pyval" where
  "json_default py_str x =
    (case x of
       DataObj d \<Rightarrow> VDict d
     | EnumObj v \<Rightarrow> v
     | ExcObj s \<Rightarrow> VStr s
     | BytesObj s _ \<Rightarrow> VStr s
     | DictObj d \<Rightarrow> VDict d
     | PlainObj v \<Rightarrow> VStr (py_str v))"

section \<open>Writing\<close>

definition append_buffer :: "audit_record \<Rightarrow> audit_sink \<Rightarrow> audit_sink" where
  "append_buffer r s = s\<lparr>as_buffer := map_option (\<lambda>b. b @ [r]) (as_buffer s)\<rparr>"

definition write_record :: "audit_record \<Rightarrow> audit_sink \<Rightarrow> audit_sink" where
  "write_record r s = (if as_open s then s\<lparr>as_stream := as_stream s @ [r]\<rparr> else s)"

definition write_batch :: "audit_record list \<Rightarrow> audit_sink \<Rightarrow> audit_sink" where
  "write_batch rs s = (if as_open s then s\<lparr>as_stream := as_stream s @ rs\<rparr> else s)"

definition audit_write :: "real \<Rightarrow> string \<Rightarrow> audit_data \<Rightarrow> audit_sink \<Rightarrow> audit_sink" where
  "audit_write now ty d s =
    (let r = \<lparr>ar_type = ty, ar_ts = now, ar_data = d\<rparr>;
         s1 = append_buffer r s
     in if \<not> as_open s1 then s1
        else
          let s2 = s1\<lparr>as_accepted := as_accepted s1 @ [r]\<rparr> in
          if as_async s2 then s2\<lparr>as_queue := as_queue s2 @ [r]\<rparr>
          else write_record r s2)"

definition record_invocation :: "real \<Rightarrow> invocation \<Rightarrow> audit_sink \<Rightarrow> audit_sink" where
  "record_invocation now iv s = audit_write now ''invocation'' (AInvocation iv) s"

definition record_run_state :: "real \<Rightarrow> run_state \<Rightarrow> audit_sink \<Rightarrow> audit_sink" where
  "record_run_state now rs s = audit_write now ''run_state'' (ARunState rs) s"

definition record_event :: "real \<Rightarrow> runtime_event \<Rightarrow> audit_sink \<Rightarrow> audit_sink" where
  "record_event now e s = audit_write now ''event'' (AEvent e) s"

text \<open>\<open>record_bundle\<close>: every record is written at its own clock reading, one per event.\<close>

definition record_bundle ::
  "(real \<times> invocation) option \<Rightarrow> (real \<times> run_state) option \<Rightarrow> (real \<times> runtime_event) list
   \<Rightarrow> audit_sink \<Rightarrow> audit_sink" where
  "record_bundle iv rs evs s =
    (let s1 = (case iv of None \<Rightarrow> s | Some (t, i) \<Rightarrow> record_invocation t i s);
         s2 = (case rs of None \<Rightarrow> s1 | Some (t, r) \<Rightarrow> record_run_state t r s1)
     in fold (\<lambda>(t, e). record_event t e) evs s2)"

section \<open>The writer thread and closing\<close>

text \<open>
  One step of \<open>_worker_loop\<close>. \<open>WGet\<close> is \<open>queue.get(timeout)\<close>: with an empty queue the
  step is the timeout. \<open>WDrain\<close> is the inner loop of \<open>get_nowait\<close>.
\<close>

definition writer_step :: "audit_sink \<Rightarrow> audit_sink" where
  "writer_step s =
    (case as_pc s of
       WCheck \<Rightarrow> if \<not> as_stop s \<or> as_queue s \<noteq> [] then s\<lparr>as_pc := WGet\<rparr> else s\<lparr>as_pc := WExit\<rparr>
     | WGet \<Rightarrow>
         (case as_queue s of
            [] \<Rightarrow> s\<lparr>as_pc := WFlush\<rparr>
          | r # q \<Rightarrow> s\<lparr>as_queue := q, as_pending := as_pending s @ [r], as_pc := WDrain\<rparr>)
     | WDrain \<Rightarrow>
         (case as_queue s of
            [] \<Rightarrow> s\<lparr>as_pc := WFlush\<rparr>
          | r # q \<Rightarrow> s\<lparr>as_queue := q, as_pending := as_pending s @ [r]\<rparr>)
     | WFlush \<Rightarrow>
         if as_pending s \<noteq> [] then (write_batch (as_pending s) s)\<lparr>as_pending := [], as_pc := WCheck\<rparr>
         else s\<lparr>as_pc := WCheck\<rparr>
     | WExit \<Rightarrow> s)"

text \<open>
  \<open>close\<close> in its two halves: setting the stop event, and, after the join of an asynchronous
  sink's writer, dropping the stream. For a synchronous sink the second half follows at once.
\<close>

definition close_begin :: "audit_sink \<Rightarrow> audit_sink" where
  "close_begin s = (if as_async s then s\<lparr>as_stop := True, as_at_stop := as_accepted s\<rparr> else s)"

definition close_end :: "audit_sink \<Rightarrow> audit_sink" where
  "close_end s = s\<lparr>as_open := False\<rparr>"

definition close_ready :: "audit_sink \<Rightarrow> bool" where
  "close_ready s \<longleftrightarrow> \<not> as_async s \<or> as_stop s \<and> as_pc s = WExit"

lemma writer_step_stop [simp]: "as_stop (writer_step s) = as_stop s" "as_async (writer_step s) = as_async s"
  "as_accepted (writer_step s) = as_accepted s"
  by (cases "as_pc s"; cases "as_queue s"; simp add: writer_step_def write_batch_def)+

text \<open>
  \<open>join\<close>: the writer runs on until it exits, which it does once it was told to stop. Records other
  threads add meanwhile are the business of the step relation below.
\<close>

fun writer_rank :: "writer_pc \<Rightarrow> bool \<Rightarrow> nat" where
  "writer_rank WExit _ = 0"
| "writer_rank WCheck none = (if none then 1 else 2)"
| "writer_rank WFlush none = (if none then 2 else 3)"
| "writer_rank WGet none = (if none then 3 else 1)"
| "writer_rank WDrain none = (if none then 3 else 1)"

function writer_run :: "audit_sink \<Rightarrow> audit_sink" where
  "writer_run s = (if as_pc s = WExit \<or> \<not> as_stop s then s else writer_run (writer_step s))"
  by pat_completeness auto
termination
proof (relation "measures [\<lambda>s. length (as_queue s), \<lambda>s. writer_rank (as_pc s) (as_queue s = [])]")
  fix s :: audit_sink
  assume "\<not> (as_pc s = WExit \<or> \<not> as_stop s)"
  then show "(writer_step s, s) \<in> measures [\<lambda>s. length (as_queue s), \<lambda>s. writer_rank (as_pc s) (as_queue s = [])]"
    by (cases "as_pc s"; cases "as_queue s") (auto simp: writer_step_def write_batch_def)
qed simp

declare writer_run.simps [simp del]

definition close_sink :: "audit_sink \<Rightarrow> audit_sink" where
  "close_sink s = close_end (if as_async s then writer_run (close_begin s) else s)"

inductive audit_step :: "audit_sink \<Rightarrow> audit_sink \<Rightarrow> bool" where
  recorded: "audit_step s (audit_write now ty d s)"
| writer_moves: "as_async s \<Longrightarrow> audit_step s (writer_step s)"
| closing: "\<not> as_stop s \<Longrightarrow> audit_step s (close_begin s)"
| closed: "close_ready s \<Longrightarrow> audit_step s (close_end s)"

inductive_cases audit_stepE: "audit_step s t"

definition fresh_sink :: "audit_sink \<Rightarrow> bool" where
  "fresh_sink s \<longleftrightarrow> (\<exists>p st k a. new_audit_sink p st k a = Inr s)"

section \<open>Nothing accepted is lost or reordered\<close>

text \<open>
  The stream, what the writer holds and the queue make up the accepted records in order; a
  synchronous sink holds nothing back. Once the writer has exited, everything accepted
  before the stop event is on the stream.
\<close>

definition audit_inv :: "audit_sink \<Rightarrow> bool" where
  "audit_inv s \<longleftrightarrow>
    as_stream s @ as_pending s @ as_queue s = as_accepted s \<and>
    (as_pc s \<in> {WCheck, WGet, WExit} \<longrightarrow> as_pending s = []) \<and>
    (\<not> as_async s \<longrightarrow> as_queue s = [] \<and> as_pending s = []) \<and>
    (\<not> as_open s \<longrightarrow> as_async s \<longrightarrow> as_pc s = WExit \<and> as_stop s) \<and>
    (as_pc s = WExit \<longrightarrow> as_stop s) \<and>
    (\<exists>later. as_accepted s = as_at_stop s @ later) \<and>
    (as_pc s = WExit \<longrightarrow> (\<exists>later. as_stream s = as_at_stop s @ later))"

lemma audit_inv_write: "audit_inv s \<Longrightarrow> audit_inv (audit_write now ty d s)"
  by (auto simp: audit_inv_def audit_write_def Let_def append_buffer_def write_record_def)

lemma audit_inv_writer:
  assumes inv: "audit_inv s" and async: "as_async s"
  shows "audit_inv (writer_step s)"
proof (cases "as_pc s")
  case WFlush
  then have "as_open s" using inv async by (auto simp: audit_inv_def)
  with WFlush inv show ?thesis
    by (auto simp: audit_inv_def writer_step_def write_batch_def)
next
  case WGet
  with inv show ?thesis
    by (cases "as_queue s") (auto simp: audit_inv_def writer_step_def)
next
  case WDrain
  with inv show ?thesis
    by (cases "as_queue s") (auto simp: audit_inv_def writer_step_def)
next
  case WCheck
  with inv show ?thesis
    by (cases "as_queue s") (auto simp: audit_inv_def writer_step_def)
next
  case WExit
  with inv show ?thesis by (simp add: writer_step_def)
qed

lemma audit_inv_step: "audit_inv s \<Longrightarrow> audit_step s t \<Longrightarrow> audit_inv t"
proof (erule audit_stepE)
  assume "audit_inv s" "t = close_begin s" "\<not> as_stop s"
  then show ?thesis by (auto simp: audit_inv_def close_begin_def)
next
  assume "audit_inv s" "t = close_end s" "close_ready s"
  then show ?thesis by (auto simp: audit_inv_def close_end_def close_ready_def)
qed (simp_all add: audit_inv_write audit_inv_writer)

interpretation audit_sys: invariant_system fresh_sink audit_step audit_inv
proof unfold_locales
  fix s assume "fresh_sink s"
  then show "audit_inv s"
    by (auto simp: fresh_sink_def new_audit_sink_def audit_inv_def split: if_splits)
qed (rule audit_inv_step)

section \<open>Closing alone\<close>

lemma writer_run_exits:
  assumes "as_stop s"
  shows "as_pc (writer_run s) = WExit \<and> as_accepted (writer_run s) = as_accepted s \<and>
    as_async (writer_run s) = as_async s"
  using assms
proof (induction s rule: writer_run.induct)
  case (1 s)
  then show ?case by (cases "as_pc s = WExit") (simp_all add: writer_run.simps [of s])
qed

lemma writer_run_inv:
  assumes "audit_inv s" and "as_async s"
  shows "audit_inv (writer_run s)"
  using assms
proof (induction s rule: writer_run.induct)
  case (1 s)
  then show ?case by (simp add: writer_run.simps [of s] audit_inv_writer)
qed

text \<open>An exited writer with an empty queue: what it was told to stop with is on the stream.\<close>

lemma writer_run_empty:
  assumes "as_stop s" and "as_pc s = WExit \<longrightarrow> as_queue s = []"
  shows "as_queue (writer_run s) = []"
  using assms
proof (induction s rule: writer_run.induct)
  case (1 s)
  have "as_pc (writer_step s) = WExit \<longrightarrow> as_queue (writer_step s) = []" if "as_pc s \<noteq> WExit"
    using that 1(2) by (cases "as_pc s"; cases "as_queue s") (auto simp: writer_step_def)
  then show ?case using 1 by (cases "as_pc s = WExit") (simp_all add: writer_run.simps [of s])
qed

text \<open>\<open>close\<close> leaves the stream closed, with every record accepted before on it.\<close>

lemma close_sink_complete:
  assumes inv: "audit_inv s" and live: "as_pc s \<noteq> WExit"
  shows "as_stream (close_sink s) = as_accepted s \<and> \<not> as_open (close_sink s) \<and>
    as_queue (close_sink s) = [] \<and> as_pending (close_sink s) = []"
proof (cases "as_async s")
  case True
  let ?b = "close_begin s" and ?w = "writer_run (close_begin s)"
  have b: "as_stop ?b" "as_async ?b" "as_pc ?b \<noteq> WExit" "as_accepted ?b = as_accepted s"
    using True live by (simp_all add: close_begin_def)
  have "audit_inv ?b" using inv True live by (auto simp: audit_inv_def close_begin_def)
  then have "audit_inv ?w" by (rule writer_run_inv) (rule b(2))
  moreover have "as_pc ?w = WExit" "as_accepted ?w = as_accepted s" using writer_run_exits [OF b(1)] b(4) by simp_all
  moreover have "as_queue ?w = []" by (rule writer_run_empty) (use b in simp_all)
  ultimately show ?thesis using True by (auto simp: close_sink_def close_end_def audit_inv_def)
qed (use inv in \<open>auto simp: close_sink_def close_end_def audit_inv_def\<close>)

section \<open>Properties\<close>

text \<open>C32: the audit log loses and reorders nothing. In every state of a sink, what is on the
  stream, then what the writer thread holds, then what is queued, is exactly the sequence of
  records accepted so far; a synchronous sink has them all on the stream; and once the writer
  of an asynchronous sink has exited, every record accepted before \<open>close\<close> set the stop event
  is on the stream.\<close>

theorem audit_log_complete:
  assumes "fresh_sink s0" and "rtranclp audit_step s0 s"
  shows "as_stream s @ as_pending s @ as_queue s = as_accepted s \<and>
    (\<not> as_async s \<longrightarrow> as_stream s = as_accepted s) \<and>
    (as_pc s = WExit \<longrightarrow> (\<exists>later. as_stream s = as_at_stop s @ later))"
  using audit_sys.inv_reachable [OF assms] by (auto simp: audit_inv_def)

definition demo_sink :: audit_sink where
  "demo_sink = (case new_audit_sink True False False True of Inr s \<Rightarrow> s)"

definition demo_sink_stopping :: audit_sink where
  "demo_sink_stopping =
    close_begin (audit_write 1 ''invocation'' (AInvocation default_invocation) demo_sink)"

definition demo_sink_closed :: audit_sink where
  "demo_sink_closed = fold (\<lambda>_. writer_step) [(), (), (), (), (), ()] demo_sink_stopping"

lemma audit_log_complete_witness:
  "as_pc demo_sink_closed = WExit \<and> length (as_at_stop demo_sink_closed) = 1 \<and>
    (\<exists>later. as_stream demo_sink_closed = as_at_stop demo_sink_closed @ later)"
proof -
  let ?s1 = "audit_write 1 ''invocation'' (AInvocation default_invocation) demo_sink"
  have fresh: "fresh_sink demo_sink"
    unfolding fresh_sink_def demo_sink_def by (rule exI [of _ True], rule exI [of _ False],
      rule exI [of _ False], rule exI [of _ True]) (simp add: new_audit_sink_def)
  have r1: "audit_step demo_sink ?s1" by (rule audit_step.recorded)
  have r2: "audit_step ?s1 (close_begin ?s1)" by (rule audit_step.closing) code_simp
  have r3: "as_async s \<Longrightarrow> rtranclp audit_step s (fold (\<lambda>_. writer_step) us s)" for us :: "unit list" and s
  proof (induction us arbitrary: s)
    case (Cons u us)
    then have "rtranclp audit_step (writer_step s) (fold (\<lambda>_. writer_step) us (writer_step s))"
      by (simp add: writer_step_stop(2))
    with audit_step.writer_moves [OF Cons.prems] show ?case
      by (simp add: converse_rtranclp_into_rtranclp)
  qed simp
  have "as_async (close_begin ?s1)" by code_simp
  from converse_rtranclp_into_rtranclp [OF r1 converse_rtranclp_into_rtranclp [OF r2 r3 [OF this]]]
  have "rtranclp audit_step demo_sink demo_sink_closed"
    unfolding demo_sink_closed_def demo_sink_stopping_def .
  moreover have "as_pc demo_sink_closed = WExit" "length (as_at_stop demo_sink_closed) = 1" by code_simp+
  ultimately show ?thesis using audit_log_complete [OF fresh] by blast
qed

end
