(* ===== verification/Config.thy ===== *)
theory Config
  imports AuditLog
begin

text \<open>
  The configuration dataclasses (\<open>config/config.py\<close>) with their defaults. A field that holds
  an object of another component (an audit sink, an output router) holds that component's
  model or its identifier.
\<close>

record audit_config =
  ac_enabled :: bool
  ac_file_path :: "string option"
  ac_stream :: "nat option"
  ac_async_mode :: bool
  ac_flush_interval :: real
  ac_keep_in_memory :: bool
  ac_sink :: "audit_sink option"

definition default_audit_config :: audit_config where
  "default_audit_config = \<lparr>ac_enabled = False, ac_file_path = None, ac_stream = None,
    ac_async_mode = False, ac_flush_interval = 1, ac_keep_in_memory = False, ac_sink = None\<rparr>"

record executor_config =
  ec_workers :: int
  ec_retain_last_n :: "int option"
  ec_ttl_seconds :: "real option"
  ec_pop_on_wait :: bool
  ec_exempt_exceptions :: "exc_class list option"
  ec_emit_run_events :: bool
  ec_event_history_max :: "int option"
  ec_event_history_ttl :: "real option"
  ec_sync_in_threadpool :: bool
  ec_threadpool_workers :: "int option"
  ec_audit :: audit_config

definition default_executor_config :: executor_config where
  "default_executor_config = \<lparr>ec_workers = 4, ec_retain_last_n = None, ec_ttl_seconds = None,
    ec_pop_on_wait = False, ec_exempt_exceptions = None, ec_emit_run_events = True,
    ec_event_history_max = Some 1000, ec_event_history_ttl = Some 3600,
    ec_sync_in_threadpool = True, ec_threadpool_workers = Some 4,
    ec_audit = default_audit_config\<rparr>"

record console_manager_config =
  cm_use_patch_stdout :: bool
  cm_output_router :: "router_id option"

definition default_console_manager_config :: console_manager_config where
  "default_console_manager_config = \<lparr>cm_use_patch_stdout = True, cm_output_router = None\<rparr>"

record console_factory_config =
  cf_run_mode :: string
  cf_start_executor :: bool
  cf_executor_in_thread :: bool
  cf_executor_thread_name :: string
  cf_tty_thread_name :: string
  cf_shutdown_executor :: bool

definition default_console_factory_config :: console_factory_config where
  "default_console_factory_config = \<lparr>cf_run_mode = ''tty'', cf_start_executor = True,
    cf_executor_in_thread = True, cf_executor_thread_name = ''ExecutorLoop'',
    cf_tty_thread_name = ''TTYLoop'', cf_shutdown_executor = True\<rparr>"

record mtls_config =
  mt_enabled :: bool
  mt_server_cert_file :: "string option"
  mt_server_key_file :: "string option"
  mt_client_ca_file :: "string option"
  mt_require_client_cert :: bool
  mt_principal_keys :: "string list"

definition default_mtls_config :: mtls_config where
  "default_mtls_config = \<lparr>mt_enabled = False, mt_server_cert_file = None,
    mt_server_key_file = None, mt_client_ca_file = None, mt_require_client_cert = True,
    mt_principal_keys = [''x509_common_name'', ''x509_subject'']\<rparr>"

record rpc_config =
  rp_enabled :: bool
  rp_bind_host :: string
  rp_port :: int
  rp_max_message_bytes :: int
  rp_keepalive_time_ms :: int
  rp_keepalive_timeout_ms :: int
  rp_keepalive_permit_without_calls :: bool
  rp_max_concurrent_rpcs :: "int option"
  rp_max_streams_per_client :: "int option"
  rp_stream_backpressure_queue_size :: int
  rp_default_deny :: bool
  rp_require_rpc_exposed :: bool
  rp_allowed_principals :: "string list option"
  rp_admin_principals :: "string list option"
  rp_require_audit :: bool
  rp_trust_client_principal :: bool
  rp_mtls :: mtls_config

definition default_rpc_config :: rpc_config where
  "default_rpc_config = \<lparr>rp_enabled = False, rp_bind_host = ''127.0.0.1'', rp_port = 50051,
    rp_max_message_bytes = 4 * 1024 * 1024, rp_keepalive_time_ms = 30000,
    rp_keepalive_timeout_ms = 10000, rp_keepalive_permit_without_calls = True,
    rp_max_concurrent_rpcs = None, rp_max_streams_per_client = None,
    rp_stream_backpressure_queue_size = 1000, rp_default_deny = True,
    rp_require_rpc_exposed = True, rp_allowed_principals = None, rp_admin_principals = None,
    rp_require_audit = True, rp_trust_client_principal = False,
    rp_mtls = default_mtls_config\<rparr>"

record web_config =
  wb_enabled :: bool
  wb_bind_host :: string
  wb_port :: int
  wb_root_path :: string
  wb_cors_allow_origins :: "string list"
  wb_cors_allow_credentials :: bool
  wb_cors_allow_methods :: "string list"
  wb_cors_allow_headers :: "string list"
  wb_meta_enabled :: bool
  wb_meta_cache_control_max_age :: int
  wb_ws_snapshot_enabled :: bool
  wb_ws_snapshot_include_jobs :: bool
  wb_ws_max_connections :: int
  wb_ws_heartbeat_interval :: real
  wb_ws_send_queue_size :: int

definition default_web_config :: web_config where
  "default_web_config = \<lparr>wb_enabled = False, wb_bind_host = ''127.0.0.1'', wb_port = 8000,
    wb_root_path = [], wb_cors_allow_origins = [], wb_cors_allow_credentials = True,
    wb_cors_allow_methods = [''*''], wb_cors_allow_headers = [''*''], wb_meta_enabled = True,
    wb_meta_cache_control_max_age = 30, wb_ws_snapshot_enabled = True,
    wb_ws_snapshot_include_jobs = False, wb_ws_max_connections = 100,
    wb_ws_heartbeat_interval = 0, wb_ws_send_queue_size = 100\<rparr>"

record config =
  cfg_console_manager :: console_manager_config
  cfg_executor :: executor_config
  cfg_console_factory :: console_factory_config
  cfg_rpc :: rpc_config
  cfg_web :: web_config

definition default_config :: config where
  "default_config = \<lparr>cfg_console_manager = default_console_manager_config,
    cfg_executor = default_executor_config, cfg_console_factory = default_console_factory_config,
    cfg_rpc = default_rpc_config, cfg_web = default_web_config\<rparr>"

end
