(* ===== verification/Executor.thy ===== *)
theory Executor
  imports Config
begin

text \<open>
  \<open>CommandExecutor\<close> (\<open>executor/executor.py\<close>): its state, and each of its methods as a
  function on that state. The worker loop appears in its atomic segments, which
  \<open>ExecSystem\<close> interleaves: between two awaits the code of an event loop runs undisturbed.

  Handlers are the user's code, so they are a parameter: a handler is a number, and
  \<open>handler_env\<close> says what calling it does. A call sees the context variables of its thread
  and the whole executor state; it raises, returns a value or returns an awaitable. Awaiting
  one with a deadline gives its outcome, or nothing when it is not done by then.
\<close>

section \<open>State\<close>

datatype handler_ref = MissingHandler | Handler nat

record work_item =
  wi_invocation :: invocation
  wi_handler :: handler_ref

text \<open>
  A worker task waits on the queue, waits for a lock, runs a handler on a run state object,
  or has ended. \<open>asyncio.Lock\<close> keeps its waiters in order: an \<open>acquire\<close> of a free lock
  still queues behind waiters that were woken and have not run yet.
\<close>

datatype worker = Idle | WaitLock work_item "nat option" | Running work_item nat | Stopped

record alock =
  lk_holder :: "nat option"
  lk_waiters :: "nat list"

definition new_lock :: alock where
  "new_lock = \<lparr>lk_holder = None, lk_waiters = []\<rparr>"

record exec = world +
  ex_js :: job_store
  ex_config :: executor_config
  ex_loop :: "nat option"
  ex_queue :: "work_item list option"
  ex_tasks :: "worker list"          \<comment> \<open>every worker task ever created\<close>
  ex_workers :: "nat list"           \<comment> \<open>\<open>self._workers\<close>: indices of tasks\<close>
  ex_locks :: "(string, alock) dict"
  ex_pool :: "bool option"           \<comment> \<open>\<open>self._threadpool\<close>: whether it still takes work\<close>
  ex_pool_calls :: nat               \<comment> \<open>calls its threads have not finished and no segment waits for\<close>
  ex_exempt :: "exc_class list"
  ex_audit :: "audit_sink option"
  ex_callbacks :: "(string option \<times> runtime_event) list"  \<comment> \<open>scheduled by \<open>call_soon_threadsafe\<close>\<close>
  ex_captures :: "runtime_event list list"  \<comment> \<open>sinks of the closures \<open>publish_event\<close> is replaced by\<close>

datatype call_result = Raises pyexc | Returns pyval | ReturnsAwaitable nat

record handler_env =
  he_coro :: "nat \<Rightarrow> bool"
  he_call :: "nat \<Rightarrow> run_context \<Rightarrow> invocation \<Rightarrow> exec \<Rightarrow> call_result \<times> exec"
  he_await :: "nat \<Rightarrow> run_context \<Rightarrow> real option \<Rightarrow> exec \<Rightarrow> pyval res option \<times> exec"
  he_isfuture :: "nat \<Rightarrow> bool"

text \<open>
  \<open>_init_audit_sink\<close>: a configured sink object wins; else one is built from the
  configuration. Its constructor's refusal of a path together with a stream is \<open>Inl\<close>.
\<close>

definition init_audit_sink :: "executor_config \<Rightarrow> audit_sink option res" where
  "init_audit_sink cfg =
    (let ac = ec_audit cfg in
     if \<not> ac_enabled ac then Inr None
     else case ac_sink ac of
            Some s \<Rightarrow> Inr (Some s)
          | None \<Rightarrow>
              (case new_audit_sink (ac_file_path ac \<noteq> None) (ac_stream ac \<noteq> None)
                      (ac_keep_in_memory ac) (ac_async_mode ac) of
                 Inl e \<Rightarrow> Inl e
               | Inr s \<Rightarrow> Inr (Some s)))"

definition default_exempt :: "exc_class list" where
  "default_exempt = [ConsoleExitC, SubConsoleExitC, CancelledErrorC]"

definition new_executor ::
  "int \<Rightarrow> nat option \<Rightarrow> executor_config option \<Rightarrow> world \<Rightarrow> exec res" where
  "new_executor workers lp config w =
    (let cfg = (case config of Some c \<Rightarrow> c
                | None \<Rightarrow> default_executor_config\<lparr>ec_workers := workers\<rparr>) in
     case init_audit_sink cfg of
       Inl e \<Rightarrow> Inl e
     | Inr sink \<Rightarrow>
         Inr (world.extend w
           \<lparr>ex_js = new_job_store (ec_retain_last_n cfg) (ec_ttl_seconds cfg)
                     (ec_event_history_max cfg) (ec_event_history_ttl cfg),
            ex_config = cfg, ex_loop = lp, ex_queue = None, ex_tasks = [], ex_workers = [],
            ex_locks = [], ex_pool = (if ec_sync_in_threadpool cfg then Some True else None),
            ex_pool_calls = 0,
            ex_exempt = (case ec_exempt_exceptions cfg of None \<Rightarrow> default_exempt | Some cs \<Rightarrow> cs),
            ex_audit = sink, ex_callbacks = [], ex_captures = []\<rparr>))"

definition upd_js :: "(job_store \<Rightarrow> job_store) \<Rightarrow> exec \<Rightarrow> exec" where
  "upd_js f ex = ex\<lparr>ex_js := f (ex_js ex)\<rparr>"

definition exec_loop_running :: "exec \<Rightarrow> bool" where
  "exec_loop_running ex \<longleftrightarrow> loop_is_running ex (ex_loop ex)"

section \<open>Starting\<close>

definition start :: "nat option \<Rightarrow> exec \<Rightarrow> unit res \<times> exec" where
  "start lp ex =
    (let ex1 = (case lp of None \<Rightarrow> ex | Some l \<Rightarrow> ex\<lparr>ex_loop := Some l\<rparr>);
         ex2 = (if ex_loop ex1 = None then ex1\<lparr>ex_loop := w_cur_loop ex1\<rparr> else ex1)
     in if ex_loop ex2 = None
        then (Inl (PyExc RuntimeErrorC ''Executor start requires a running event loop''), ex2)
        else
          let ex3 = upd_js (set_loop (ex_loop ex2)) ex2;
              ex4 = (if ex_queue ex3 = None then ex3\<lparr>ex_queue := Some []\<rparr> else ex3)
          in if ex_workers ex4 \<noteq> [] then (Inr (), ex4)
             else
               let n = nat (ec_workers (ex_config ex4));
                   k = length (ex_tasks ex4)
               in (Inr (), ex4\<lparr>ex_tasks := ex_tasks ex4 @ replicate n Idle,
                               ex_workers := [k ..< k + n]\<rparr>))"

section \<open>Audit\<close>

definition with_sink :: "(real \<Rightarrow> audit_sink \<Rightarrow> audit_sink) \<Rightarrow> exec \<Rightarrow> exec" where
  "with_sink f ex =
    (case ex_audit ex of None \<Rightarrow> ex
     | Some s \<Rightarrow> let (t, ex1) = read_wall ex in ex1\<lparr>ex_audit := Some (f t s)\<rparr>)"

definition audit_invocation :: "invocation \<Rightarrow> exec \<Rightarrow> exec" where
  "audit_invocation iv ex = with_sink (\<lambda>t. record_invocation t iv) ex"

definition audit_run_state :: "nat \<Rightarrow> exec \<Rightarrow> exec" where
  "audit_run_state a ex = with_sink (\<lambda>t. record_run_state t (js_rheap (ex_js ex) a)) ex"

section \<open>Publishing events\<close>

text \<open>
  \<open>publish_event\<close> stamps the event with the run id and the next sequence number, hands it to
  the job store, and records it. From another thread than the executor's loop the hand-over
  is only scheduled (\<open>call_soon_threadsafe\<close>); the number is taken at once.
\<close>

definition stamp_event :: "string option \<Rightarrow> runtime_event \<Rightarrow> exec \<Rightarrow> runtime_event \<times> exec" where
  "stamp_event run_id e ex =
    (let e1 = (if ev_run_id e = None then e\<lparr>ev_run_id := run_id\<rparr> else e) in
     case run_id of
       None \<Rightarrow> (e1, ex)
     | Some r \<Rightarrow>
         if ev_seq e1 = None then
           let (n, js) = next_event_seq r (ex_js ex) in (e1\<lparr>ev_seq := Some n\<rparr>, ex\<lparr>ex_js := js\<rparr>)
         else (e1, ex))"

definition store_event :: "string option \<Rightarrow> runtime_event \<Rightarrow> exec \<Rightarrow> exec" where
  "store_event run_id e ex =
    (let (t, ex1) = read_wall ex in upd_js (js_publish_event t run_id e) ex1)"

definition deliver_event :: "string option \<Rightarrow> runtime_event \<Rightarrow> exec \<Rightarrow> exec" where
  "deliver_event run_id e ex =
    (if exec_loop_running ex \<and> w_cur_loop ex \<noteq> ex_loop ex
     then ex\<lparr>ex_callbacks := ex_callbacks ex @ [(run_id, e)]\<rparr>
     else store_event run_id e ex)"

text \<open>
  A test may put closures in the place of the method (\<open>capture_executor_events\<close> of
  \<open>testing/capture.py\<close>), which append the event, stamped in place, to a list of theirs.
\<close>

definition capture_event :: "runtime_event \<Rightarrow> exec \<Rightarrow> exec" where
  "capture_event e ex = ex\<lparr>ex_captures := map (\<lambda>sink. sink @ [e]) (ex_captures ex)\<rparr>"

definition publish_event :: "string option \<Rightarrow> runtime_event \<Rightarrow> exec \<Rightarrow> exec" where
  "publish_event run_id e ex =
    (let (e1, ex1) = stamp_event run_id e ex
     in with_sink (\<lambda>t. record_event t e1) (deliver_event run_id e1 (capture_event e1 ex1)))"

text \<open>The event loop runs a scheduled callback.\<close>

definition run_callback :: "exec \<Rightarrow> exec" where
  "run_callback ex =
    (case ex_callbacks ex of [] \<Rightarrow> ex
     | (r, e) # cs \<Rightarrow> store_event r e (ex\<lparr>ex_callbacks := cs\<rparr>))"

definition build_run_event ::
  "real \<Rightarrow> string \<Rightarrow> ui_level \<Rightarrow> pyval \<Rightarrow> string option \<Rightarrow> runtime_event" where
  "build_run_event now event_type level payload source =
    mk_runtime_event now (Kind STATE) (VStr event_type) (Level level) None (Some event_type)
      payload source None None"

definition attach_event_context :: "job_store \<Rightarrow> string \<Rightarrow> runtime_event \<Rightarrow> runtime_event" where
  "attach_event_context js run_id e =
    (case get_invocation js run_id of
       None \<Rightarrow> e
     | Some iv \<Rightarrow>
         e\<lparr>ev_session_id := inv_session_id iv, ev_parent_run_id := inv_parent_run_id iv,
           ev_depth := Some (inv_depth iv),
           ev_origin_source := or_str (inv_origin_source iv) (Some (inv_source iv)),
           ev_principal := inv_principal iv, ev_lock_key := Some (inv_lock_key iv),
           ev_command_id := inv_command_id iv, ev_callable_meta := inv_callable_meta iv\<rparr>)"

definition emit_run_event ::
  "string \<Rightarrow> string \<Rightarrow> ui_level \<Rightarrow> pyval \<Rightarrow> string option \<Rightarrow> bool \<Rightarrow> exec \<Rightarrow> exec" where
  "emit_run_event run_id event_type level payload source force ex =
    (if force \<or> ec_emit_run_events (ex_config ex) then
       let (t, ex1) = read_wall ex;
           e = attach_event_context (ex_js ex1) run_id
                 (build_run_event t event_type level payload source)
       in publish_event (Some run_id) e ex1
     else ex)"

section \<open>Running a handler\<close>

definition timeout_seconds :: "invocation \<Rightarrow> real option" where
  "timeout_seconds iv =
    (case inv_timeout_ms iv of None \<Rightarrow> None | Some ms \<Rightarrow> Some (max 0 (of_int ms / 1000)))"

definition timeout_error :: pyexc where
  "timeout_error = PyExc TimeoutErrorC ''''"

definition call_handler ::
  "handler_env \<Rightarrow> handler_ref \<Rightarrow> run_context \<Rightarrow> invocation \<Rightarrow> exec \<Rightarrow> call_result \<times> exec" where
  "call_handler he h c iv ex =
    (case h of
       MissingHandler \<Rightarrow>
         (Raises (PyExc RuntimeErrorC ''No handler provided for invocation execution''), ex)
     | Handler n \<Rightarrow> he_call he n c iv ex)"

definition is_coro :: "handler_env \<Rightarrow> handler_ref \<Rightarrow> bool" where
  "is_coro he h = (case h of MissingHandler \<Rightarrow> False | Handler n \<Rightarrow> he_coro he n)"

text \<open>
  \<open>await x\<close> without a deadline gives \<open>None\<close> when \<open>x\<close> never completes;
  \<open>asyncio.wait_for(x, t)\<close> raises \<open>TimeoutError\<close> then, and at once for \<open>t \<le> 0\<close>, without
  running \<open>x\<close>.
\<close>

definition await_plain ::
  "handler_env \<Rightarrow> nat \<Rightarrow> run_context \<Rightarrow> exec \<Rightarrow> pyval res option \<times> exec" where
  "await_plain he aw c ex = he_await he aw c None ex"

definition wait_for ::
  "handler_env \<Rightarrow> nat \<Rightarrow> run_context \<Rightarrow> real \<Rightarrow> exec \<Rightarrow> pyval res option \<times> exec" where
  "wait_for he aw c t ex =
    (if t \<le> 0 then (Some (Inl timeout_error), ex)
     else case he_await he aw c (Some t) ex of
            (Some r, ex1) \<Rightarrow> (Some r, ex1)
          | (None, ex1) \<Rightarrow> (Some (Inl timeout_error), ex1))"

definition await_opt ::
  "handler_env \<Rightarrow> nat \<Rightarrow> run_context \<Rightarrow> real option \<Rightarrow> exec \<Rightarrow> pyval res option \<times> exec" where
  "await_opt he aw c timeout ex =
    (case timeout of None \<Rightarrow> await_plain he aw c ex | Some t \<Rightarrow> wait_for he aw c t ex)"

text \<open>
  A call in the thread pool: \<open>run_in_executor\<close> does not copy the context variables, so the
  handler sees none, and its thread runs no event loop. Its effects stay also when the wait
  for it times out, and then its thread goes on with it: the call is one the pool has not
  finished. A pool that was shut down refuses the call.
\<close>

definition call_in_pool ::
  "handler_env \<Rightarrow> handler_ref \<Rightarrow> invocation \<Rightarrow> exec \<Rightarrow> call_result \<times> exec" where
  "call_in_pool he h iv ex =
    (let (r, ex1) = call_handler he h no_context iv (ex\<lparr>w_cur_loop := None\<rparr>)
     in (r, ex1\<lparr>w_cur_loop := w_cur_loop ex\<rparr>))"

definition run_handler ::
  "handler_env \<Rightarrow> run_context \<Rightarrow> invocation \<Rightarrow> handler_ref \<Rightarrow> real option \<Rightarrow> exec
   \<Rightarrow> pyval res option \<times> exec" where
  "run_handler he c iv h timeout ex =
    (let (t0, ex0) = read_mono ex in
     if is_coro he h then
       (case call_handler he h c iv ex0 of
          (Raises e, ex1) \<Rightarrow> (Some (Inl e), ex1)
        | (Returns v, ex1) \<Rightarrow> (Some (Inl (PyExc TypeErrorC ''object cannot be awaited'')), ex1)
        | (ReturnsAwaitable aw, ex1) \<Rightarrow> await_opt he aw c timeout ex1)
     else if ec_sync_in_threadpool (ex_config ex0) \<and> ex_pool ex0 = Some False
     then (Some (Inl (PyExc RuntimeErrorC ''cannot schedule new futures after shutdown'')), ex0)
     else if ec_sync_in_threadpool (ex_config ex0) \<and> ex_pool ex0 \<noteq> None then
       let (r, ex1) = call_in_pool he h iv ex0;
           (t1, ex2) = read_mono ex1
       in if timeout \<noteq> None \<and> (the timeout \<le> 0 \<or> the timeout < t1 - t0)
          then (Some (Inl timeout_error), ex2\<lparr>ex_pool_calls := Suc (ex_pool_calls ex2)\<rparr>)
          else (case r of
                  Raises e \<Rightarrow> (Some (Inl e), ex2)
                | Returns v \<Rightarrow> (Some (Inr v), ex2)
                | ReturnsAwaitable aw \<Rightarrow>
                    (case timeout of
                       None \<Rightarrow> await_plain he aw c ex2
                     | Some t \<Rightarrow>
                         let (t2, ex3) = read_mono ex2; remaining = t - (t2 - t0) in
                         if remaining \<le> 0 then (Some (Inl timeout_error), ex3)
                         else wait_for he aw c remaining ex3))
     else
       case call_handler he h c iv ex0 of
         (Raises e, ex1) \<Rightarrow> (Some (Inl e), ex1)
       | (ReturnsAwaitable aw, ex1) \<Rightarrow> await_opt he aw c timeout ex1
       | (Returns v, ex1) \<Rightarrow>
           (case timeout of
              None \<Rightarrow> (Some (Inr v), ex1)
            | Some t \<Rightarrow>
                let (t1, ex2) = read_mono ex1 in
                if t < t1 - t0 then (Some (Inl timeout_error), ex2) else (Some (Inr v), ex2)))"

text \<open>
  \<open>_run_awaitable_inline\<close>. \<open>wrapped\<close> says that the awaitable was wrapped by
  \<open>_awaitable_with_timeout\<close>, whose coroutine is never a future.
\<close>

definition run_awaitable_inline ::
  "handler_env \<Rightarrow> nat \<Rightarrow> run_context \<Rightarrow> real option \<Rightarrow> exec \<Rightarrow> pyval res option \<times> exec" where
  "run_awaitable_inline he aw c timeout ex =
    (if timeout = None \<and> he_isfuture he aw
     then (Some (Inl (PyExc RuntimeErrorC ''Inline awaitable must be a coroutine, not a Future/Task'')), ex)
     else if w_cur_loop ex = None \<or> exec_loop_running ex then await_opt he aw c timeout ex
     else (Some (Inl (PyExc RuntimeErrorC ''Cannot run awaitable inline while an event loop is running'')), ex))"

definition run_handler_inline ::
  "handler_env \<Rightarrow> run_context \<Rightarrow> invocation \<Rightarrow> handler_ref \<Rightarrow> real option \<Rightarrow> exec
   \<Rightarrow> pyval res option \<times> exec" where
  "run_handler_inline he c iv h timeout ex =
    (let (t0, ex0) = read_mono ex in
     case call_handler he h c iv ex0 of
       (Raises e, ex1) \<Rightarrow> (Some (Inl e), ex1)
     | (ReturnsAwaitable aw, ex1) \<Rightarrow> run_awaitable_inline he aw c timeout ex1
     | (Returns v, ex1) \<Rightarrow>
         (case timeout of
            None \<Rightarrow> (Some (Inr v), ex1)
          | Some t \<Rightarrow>
              let (t1, ex2) = read_mono ex1 in
              if t < t1 - t0 then (Some (Inl timeout_error), ex2) else (Some (Inr v), ex2)))"

section \<open>One run\<close>

text \<open>
  \<open>_execute_work_item\<close> and \<open>_run_inline\<close> share everything but the handler call and the
  future. \<open>begin_run\<close> is the part before the handler: a run that is gone or was cancelled
  is skipped. Its first argument is the run state object the caller fetched, if any. The
  context holds the run's emitter and its cancel flag.
\<close>

definition run_ctx :: "string \<Rightarrow> invocation \<Rightarrow> nat option \<Rightarrow> run_context" where
  "run_ctx run_id iv flag =
    \<lparr>rc_run_id = Some run_id, rc_source = Some (inv_source iv),
     rc_emitter = Some (PublishTo run_id), rc_cancel_flag = flag,
     rc_session_id = inv_session_id iv, rc_parent_run_id = inv_parent_run_id iv,
     rc_depth = Some (inv_depth iv), rc_origin_source = inv_origin_source iv,
     rc_principal = inv_principal iv, rc_lock_key = Some (inv_lock_key iv),
     rc_command_id = inv_command_id iv, rc_callable_meta = inv_callable_meta iv\<rparr>"

definition started_run :: "real \<Rightarrow> run_state \<Rightarrow> run_state" where
  "started_run now rs = rs\<lparr>rs_status := RUNNING, rs_started_at := Some now\<rparr>"

text \<open>
  Checking the status and setting it are not one action of the program: no lock is held between
  them, so that another thread may cancel the run there. \<open>begin_after_check\<close> is what follows the
  check; \<open>cancel_within_begin_lost\<close> below shows what such a cancel does.
\<close>

definition begin_after_check :: "nat \<Rightarrow> invocation \<Rightarrow> exec \<Rightarrow> run_context \<times> exec" where
  "begin_after_check a iv ex =
    (let (t, ex1) = read_wall ex;
         ex2 = audit_run_state a (upd_js (upd_run a (started_run t)) ex1);
         run_id = rs_run_id (js_rheap (ex_js ex2) a);
         ex3 = emit_run_event run_id ''start'' INFO VNone (Some (inv_source iv)) False ex2
     in (run_ctx run_id iv (get_cancel_flag (ex_js ex3) run_id), ex3))"

definition begin_run :: "nat option \<Rightarrow> invocation \<Rightarrow> exec \<Rightarrow> run_context option \<times> exec" where
  "begin_run ro iv ex =
    (case ro of
       None \<Rightarrow> (None, ex)
     | Some a \<Rightarrow>
         if rs_status (js_rheap (ex_js ex) a) = CANCELLED then (None, ex)
         else let (c, ex1) = begin_after_check a iv ex in (Some c, ex1))"

text \<open>
  The \<open>try\<close> statement after the handler: its success part, its three \<open>except\<close> clauses in
  order, and the \<open>finally\<close> block. \<open>resolve\<close> is false for an inline run, which has no
  future. The result is the exception that leaves the function: one no clause catches, or
  the one \<open>cleanup\<close> raises.
\<close>

definition finished_run :: "real \<Rightarrow> run_state \<Rightarrow> run_state" where
  "finished_run now rs = rs\<lparr>rs_finished_at := Some now\<rparr>"

definition resolve_if :: "bool \<Rightarrow> string \<Rightarrow> pyval \<Rightarrow> pyexc option \<Rightarrow> exec \<Rightarrow> exec" where
  "resolve_if b run_id v e ex = (if b then upd_js (resolve_future run_id v e) ex else ex)"

definition on_success :: "bool \<Rightarrow> nat \<Rightarrow> invocation \<Rightarrow> pyval \<Rightarrow> exec \<Rightarrow> exec" where
  "on_success resolve a iv v ex =
    (let run_id = rs_run_id (js_rheap (ex_js ex) a) in
     resolve_if resolve run_id v None
       (emit_run_event run_id ''success'' SUCCESS VNone (Some (inv_source iv)) False
         (upd_js (upd_run a (\<lambda>rs. rs\<lparr>rs_result := v, rs_status := SUCCEEDED\<rparr>)) ex)))"

definition on_error ::
  "bool \<Rightarrow> nat \<Rightarrow> invocation \<Rightarrow> pyexc \<Rightarrow> run_status \<Rightarrow> string \<Rightarrow> ui_level \<Rightarrow> pyval \<Rightarrow> bool
   \<Rightarrow> exec \<Rightarrow> exec" where
  "on_error resolve a iv e st event_type level payload force ex =
    (let run_id = rs_run_id (js_rheap (ex_js ex) a) in
     resolve_if resolve run_id VNone (Some e)
       (emit_run_event run_id event_type level payload (Some (inv_source iv)) force
         (upd_js (upd_run a (\<lambda>rs. rs\<lparr>rs_error := Some e, rs_status := st\<rparr>)) ex)))"

definition settle_run ::
  "bool \<Rightarrow> nat \<Rightarrow> invocation \<Rightarrow> pyval res \<Rightarrow> exec \<Rightarrow> pyexc option \<times> exec" where
  "settle_run resolve a iv out ex =
    (case out of
       Inr v \<Rightarrow> (None, on_success resolve a iv v ex)
     | Inl e \<Rightarrow>
         if isinstance_exc e TimeoutErrorC
         then (None, on_error resolve a iv e TIMEOUT ''timeout'' WARNING VNone True ex)
         else if isinstance_any e (ex_exempt ex)
         then (None, on_error resolve a iv e CANCELLED ''cancelled'' INFO VNone False ex)
         else if isinstance_exc e ExceptionC
         then (None, on_error resolve a iv e FAILED ''failure'' ERROR
                       (VDict [(''error'', VStr (exc_msg e))]) True ex)
         else (Some e, ex))"

definition exec_cleanup :: "exec \<Rightarrow> unit res \<times> exec" where
  "exec_cleanup ex =
    (let (t, ex1) = read_wall ex; (r, js) = cleanup t (ex_js ex1) in (r, ex1\<lparr>ex_js := js\<rparr>))"

definition conclude_run ::
  "bool \<Rightarrow> nat \<Rightarrow> invocation \<Rightarrow> pyval res \<Rightarrow> exec \<Rightarrow> unit res \<times> exec" where
  "conclude_run resolve a iv out ex =
    (let (escaped, ex1) = settle_run resolve a iv out ex;
         (t, ex2) = read_wall ex1;
         (c, ex3) = exec_cleanup (audit_run_state a (upd_js (upd_run a (finished_run t)) ex2))
     in (case c of Inl e \<Rightarrow> Inl e
         | Inr _ \<Rightarrow> (case escaped of Some e \<Rightarrow> Inl e | None \<Rightarrow> Inr ()), ex3))"

text \<open>
  \<open>None\<close>: the handler's awaitable never completes, so neither does the worker's turn.
\<close>

definition execute_work_item ::
  "handler_env \<Rightarrow> work_item \<Rightarrow> nat option \<Rightarrow> exec \<Rightarrow> (unit res \<times> exec) option" where
  "execute_work_item he wi ro ex =
    (let iv = wi_invocation wi in
     case begin_run ro iv ex of
       (None, ex1) \<Rightarrow> Some (Inr (), ex1)
     | (Some c, ex1) \<Rightarrow>
         (case run_handler he c iv (wi_handler wi) (timeout_seconds iv) ex1 of
            (None, ex2) \<Rightarrow> None
          | (Some out, ex2) \<Rightarrow> Some (conclude_run True (the ro) iv out ex2)))"

definition run_inline ::
  "handler_env \<Rightarrow> invocation \<Rightarrow> handler_ref \<Rightarrow> exec \<Rightarrow> (unit res \<times> exec) option" where
  "run_inline he iv h ex =
    (let ro = Option.bind (inv_run_id iv) (get_run_state (ex_js ex)) in
     case begin_run ro iv ex of
       (None, ex1) \<Rightarrow> Some (Inr (), ex1)
     | (Some c, ex1) \<Rightarrow>
         (case run_handler_inline he c iv h (timeout_seconds iv) ex1 of
            (None, ex2) \<Rightarrow> None
          | (Some out, ex2) \<Rightarrow> Some (conclude_run False (the ro) iv out ex2)))"

section \<open>Submitting\<close>

text \<open>
  The invocation object is updated in place, so it is part of the result.
\<close>

definition assign_run_id :: "invocation \<Rightarrow> exec \<Rightarrow> string \<times> invocation \<times> exec" where
  "assign_run_id iv ex =
    (case inv_run_id iv of
       Some r \<Rightarrow> (r, iv, ex)
     | None \<Rightarrow> let (r, ex1) = fresh_uuid ex in (r, iv\<lparr>inv_run_id := Some r\<rparr>, ex1))"

definition handler_or_missing :: "handler_ref option \<Rightarrow> handler_ref" where
  "handler_or_missing h = (case h of None \<Rightarrow> MissingHandler | Some x \<Rightarrow> x)"

definition register_run :: "invocation \<Rightarrow> exec \<Rightarrow> exec" where
  "register_run iv ex =
    (let (r, js) = create_run iv (ex_js ex); ex1 = ex\<lparr>ex_js := js\<rparr> in
     case r of
       Inl e \<Rightarrow> ex1
     | Inr a \<Rightarrow> audit_run_state a (audit_invocation iv ex1))"

text \<open>The part that needs the loop: start the workers, create the future, enqueue.\<close>

definition enqueue_run :: "string \<Rightarrow> invocation \<Rightarrow> handler_ref \<Rightarrow> exec \<Rightarrow> exec" where
  "enqueue_run run_id iv h ex =
    (let ex1 = snd (start None ex);
         (f, js) = create_future (ex_js ex1);
         ex2 = ex1\<lparr>ex_js := set_future run_id f js\<rparr>
     in ex2\<lparr>ex_queue := map_option (\<lambda>q. q @ [\<lparr>wi_invocation = iv, wi_handler = h\<rparr>]) (ex_queue ex2)\<rparr>)"

definition submit ::
  "handler_env \<Rightarrow> invocation \<Rightarrow> handler_ref option \<Rightarrow> exec
   \<Rightarrow> (string res \<times> invocation \<times> exec) option" where
  "submit he iv h ex =
    (let (run_id, iv1, ex1) = assign_run_id iv ex;
         ex2 = register_run iv1 ex1;
         ex3 = (if ex_loop ex2 = None then ex2\<lparr>ex_loop := w_cur_loop ex2\<rparr> else ex2)
     in if \<not> exec_loop_running ex3
        then (case run_inline he iv1 (handler_or_missing h) ex3 of
                None \<Rightarrow> None
              | Some (Inl e, ex4) \<Rightarrow> Some (Inl e, iv1, ex4)
              | Some (Inr _, ex4) \<Rightarrow> Some (Inr run_id, iv1, ex4))
        else Some (Inr run_id, iv1, enqueue_run run_id iv1 (handler_or_missing h) ex3))"

text \<open>
  \<open>submit_threadsafe\<close> from a thread that does not run the executor's loop registers the run
  in its own thread and has the loop run the enqueueing part; between the two, other code may
  run. \<open>in_loop\<close> runs a step as the loop does.
\<close>

definition in_loop :: "(exec \<Rightarrow> exec) \<Rightarrow> exec \<Rightarrow> exec" where
  "in_loop f ex = (f (ex\<lparr>w_cur_loop := ex_loop ex\<rparr>))\<lparr>w_cur_loop := w_cur_loop ex\<rparr>"

definition submit_threadsafe ::
  "handler_env \<Rightarrow> invocation \<Rightarrow> handler_ref option \<Rightarrow> exec
   \<Rightarrow> (string res \<times> invocation \<times> exec) option" where
  "submit_threadsafe he iv h ex =
    (let (run_id, iv1, ex1) = assign_run_id iv ex in
     if \<not> exec_loop_running ex1 \<or> w_cur_loop ex1 = ex_loop ex1 then submit he iv1 h ex1
     else Some (Inr run_id, iv1,
                in_loop (enqueue_run run_id iv1 (handler_or_missing h)) (register_run iv1 ex1)))"

section \<open>Waiting, cancelling, streaming\<close>

definition exec_pop_run :: "string \<Rightarrow> exec \<Rightarrow> run_state option \<times> exec" where
  "exec_pop_run run_id ex = (let (rs, js) = js_pop_run run_id (ex_js ex) in (rs, ex\<lparr>ex_js := js\<rparr>))"

text \<open>The \<open>finally\<close> block of both waits.\<close>

definition pop_on_wait :: "string \<Rightarrow> exec \<Rightarrow> exec" where
  "pop_on_wait run_id ex =
    (if ec_pop_on_wait (ex_config ex) then snd (exec_pop_run run_id ex) else ex)"

text \<open>
  \<open>wait_result\<close>: the coroutine asks the job store when it starts and may then be suspended
  on a future. \<open>wait_poll\<close> resumes it; \<open>None\<close> is "still suspended".
\<close>

definition wait_result :: "string \<Rightarrow> exec \<Rightarrow> awaiting" where
  "wait_result run_id ex = result run_id (ex_js ex)"

definition wait_poll :: "string \<Rightarrow> awaiting \<Rightarrow> exec \<Rightarrow> (pyval res \<times> exec) option" where
  "wait_poll run_id aw ex =
    (case (case aw of Ready r \<Rightarrow> Some r | AwaitFuture f \<Rightarrow> fut_outcome (js_fheap (ex_js ex) f)) of
       None \<Rightarrow> None
     | Some r \<Rightarrow> Some (r, pop_on_wait run_id ex))"

text \<open>
  \<open>wait_result_sync\<close> up to where it blocks: it has its answer, or it hands \<open>wait_result\<close>
  to the loop. \<open>wait_result_sync\<close> is its whole course when it does not block.
\<close>

datatype sync_wait = SyncDone "pyval res" | SyncDelegate

definition wait_sync_plan :: "string \<Rightarrow> exec \<Rightarrow> sync_wait" where
  "wait_sync_plan run_id ex =
    (if w_cur_loop ex \<noteq> None \<and> w_cur_loop ex = ex_loop ex
     then SyncDone (Inl (PyExc RuntimeErrorC
            ''wait_result_sync cannot be called from the executor loop thread''))
     else if get_future (ex_js ex) run_id \<noteq> None \<and> exec_loop_running ex then SyncDelegate
     else
       (case run_at (ex_js ex) run_id of
          None \<Rightarrow> SyncDone (Inr VNone)
        | Some rs \<Rightarrow>
            if active_status (rs_status rs) then
              if exec_loop_running ex then SyncDelegate
              else SyncDone (Inl (PyExc RuntimeErrorC
                     ''Run is still pending but executor loop is not running''))
            else (case rs_error rs of Some e \<Rightarrow> SyncDone (Inl e)
                  | None \<Rightarrow> SyncDone (Inr (rs_result rs)))))"

definition wait_result_sync :: "string \<Rightarrow> exec \<Rightarrow> (pyval res \<times> exec) option" where
  "wait_result_sync run_id ex =
    (case wait_sync_plan run_id ex of
       SyncDone r \<Rightarrow> Some (r, pop_on_wait run_id ex)
     | SyncDelegate \<Rightarrow>
         (case wait_poll run_id (wait_result run_id ex) ex of
            None \<Rightarrow> None
          | Some (r, ex1) \<Rightarrow> Some (r, pop_on_wait run_id ex1)))"

text \<open>
  With a \<open>timeout\<close> the wait for the loop ends when it has passed. \<open>wait_result_sync_timed\<close> is the
  outcome when it passes in this state: what is blocked raises \<open>TimeoutError\<close>, and the
  \<open>finally\<close> block pops the run all the same.
\<close>

definition wait_result_sync_timed :: "string \<Rightarrow> exec \<Rightarrow> pyval res \<times> exec" where
  "wait_result_sync_timed run_id ex =
    (case wait_result_sync run_id ex of
       Some (r, ex1) \<Rightarrow> (r, ex1)
     | None \<Rightarrow> (Inl timeout_error, pop_on_wait run_id ex))"

definition exec_cancel :: "string \<Rightarrow> exec \<Rightarrow> string \<times> exec" where
  "exec_cancel run_id ex =
    (let (t, ex1) = read_wall ex;
         (status, js) = js_cancel t run_id (ex_js ex1);
         ex2 = ex1\<lparr>ex_js := js\<rparr>;
         source = map_option inv_source (get_invocation js run_id)
     in if status = ''cancelled'' then
          (status,
           emit_run_event run_id ''cancelled'' INFO VNone source True
             (case get_run_state js run_id of None \<Rightarrow> ex2 | Some a \<Rightarrow> audit_run_state a ex2))
        else if status = ''requested'' then
          (status, emit_run_event run_id ''cancel_requested'' INFO VNone source True ex2)
        else (status, ex2))"

definition ensure_event_subscription ::
  "string \<Rightarrow> int option \<Rightarrow> int \<Rightarrow> exec \<Rightarrow> nat res \<times> exec" where
  "ensure_event_subscription run_id since maxsize ex =
    (let cur = (if \<not> exec_loop_running ex then w_cur_loop ex else ex_loop ex);
         (r, js) = js_events cur run_id since maxsize (ex_js ex)
     in (r, ex\<lparr>ex_js := js\<rparr>))"

definition stream_events :: "string \<Rightarrow> int option \<Rightarrow> int \<Rightarrow> exec \<Rightarrow> nat res \<times> exec" where
  "stream_events run_id since maxsize ex =
    (if \<not> exec_loop_running ex
     then (Inl (PyExc RuntimeErrorC ''Event loop is not running''), ex)
     else ensure_event_subscription run_id since maxsize ex)"

section \<open>Shutting down\<close>

text \<open>
  \<open>task.cancel()\<close> ends a task that waits for the queue or a lock. A task that runs a
  handler receives \<open>CancelledError\<close> in the handler's await, which is one of the outcomes
  \<open>conclude_run\<close> handles; nothing happens to it here.
\<close>

fun cancel_task :: "worker \<Rightarrow> worker" where
  "cancel_task (Running wi a) = Running wi a"
| "cancel_task _ = Stopped"

definition cancel_tasks :: "nat list \<Rightarrow> exec \<Rightarrow> exec" where
  "cancel_tasks ws ex =
    ex\<lparr>ex_tasks := fold (\<lambda>w ts. ts[w := cancel_task (ts ! w)]) ws (ex_tasks ex),
       ex_locks := map (\<lambda>(k, l). (k, l\<lparr>lk_waiters := filter (\<lambda>w. w \<notin> set ws) (lk_waiters l)\<rparr>))
                     (ex_locks ex)\<rparr>"

text \<open>
  \<open>shutdown\<close> before and after the \<open>gather\<close>, which with \<open>wait\<close> returns when every
  worker task has ended.
\<close>

definition shutdown_begin :: "exec \<Rightarrow> nat list \<times> exec" where
  "shutdown_begin ex =
    (ex_workers ex, cancel_tasks (ex_workers ex) (ex\<lparr>ex_workers := []\<rparr>))"

definition gather_done :: "bool \<Rightarrow> nat list \<Rightarrow> exec \<Rightarrow> bool" where
  "gather_done wait ws ex \<longleftrightarrow> \<not> wait \<or> (\<forall>w \<in> set ws. ex_tasks ex ! w = Stopped)"

text \<open>
  Closing the sink waits for its writer thread, which ends by itself: \<open>close_sink\<close> is the whole
  of it. \<open>ThreadPoolExecutor.shutdown(wait)\<close> waits for the pool's threads as long as they have
  calls left, and blocks the executor's loop meanwhile; \<open>shutdown_end\<close> is what happens once
  \<open>pool_waits\<close> no longer holds.
\<close>

definition close_audit_sink :: "exec \<Rightarrow> exec" where
  "close_audit_sink ex = ex\<lparr>ex_audit := map_option close_sink (ex_audit ex)\<rparr>"

definition pool_waits :: "bool \<Rightarrow> exec \<Rightarrow> bool" where
  "pool_waits wait ex \<longleftrightarrow> wait \<and> ex_pool ex \<noteq> None \<and> 0 < ex_pool_calls ex"

definition shutdown_end :: "exec \<Rightarrow> exec" where
  "shutdown_end ex = close_audit_sink (ex\<lparr>ex_pool := map_option (\<lambda>_. False) (ex_pool ex)\<rparr>)"

definition shutdown_threadsafe_stopped :: "exec \<Rightarrow> exec" where
  "shutdown_threadsafe_stopped ex = close_audit_sink (snd (shutdown_begin ex))"

section \<open>What auditing and publishing leave alone\<close>

text \<open>
  Auditing and publishing touch the clock's counter, the audit sink, the scheduled callbacks
  and, in the job store, the event bus and the sequence counters: nothing else. \<open>quiet\<close>
  says so, and \<open>quiet_frame\<close> reads it field by field.
\<close>

definition js_quiet :: "job_store \<Rightarrow> job_store \<Rightarrow> bool" where
  "js_quiet js js' \<longleftrightarrow>
    js_runs js' = js_runs js \<and> js_invs js' = js_invs js \<and> js_futs js' = js_futs js \<and>
    js_flags js' = js_flags js \<and> js_rheap js' = js_rheap js \<and> js_fheap js' = js_fheap js \<and>
    js_cheap js' = js_cheap js \<and> js_next js' = js_next js \<and> js_loop js' = js_loop js \<and>
    js_retain js' = js_retain js \<and> js_ttl js' = js_ttl js \<and> js_gsubs js' = js_gsubs js \<and>
    (js_ok js \<longrightarrow> js_ok js')"

definition quiet :: "exec \<Rightarrow> exec \<Rightarrow> bool" where
  "quiet ex ex' \<longleftrightarrow> js_quiet (ex_js ex) (ex_js ex') \<and>
    ex_config ex' = ex_config ex \<and> ex_loop ex' = ex_loop ex \<and> ex_queue ex' = ex_queue ex \<and>
    ex_tasks ex' = ex_tasks ex \<and> ex_workers ex' = ex_workers ex \<and> ex_locks ex' = ex_locks ex \<and>
    ex_pool ex' = ex_pool ex \<and> ex_pool_calls ex' = ex_pool_calls ex \<and> ex_exempt ex' = ex_exempt ex \<and>
    w_cur_loop ex' = w_cur_loop ex \<and> w_loop_running ex' = w_loop_running ex"

lemma js_quiet_refl [simp]: "js_quiet js js"
  by (simp add: js_quiet_def)

lemma js_quiet_trans: "js_quiet a b \<Longrightarrow> js_quiet b c \<Longrightarrow> js_quiet a c"
  unfolding js_quiet_def by presburger

lemma quiet_refl [simp]: "quiet ex ex"
  by (simp add: quiet_def)

lemma quiet_trans: "quiet a b \<Longrightarrow> quiet b c \<Longrightarrow> quiet a c"
  unfolding quiet_def by (auto intro: js_quiet_trans)

lemma quiet_read_wall: "quiet ex (snd (read_wall ex))"
  by (simp add: quiet_def read_wall_def)

lemma quiet_audit: "quiet ex (ex\<lparr>ex_audit := a\<rparr>)"
  by (simp add: quiet_def)

lemma quiet_js: "js_quiet (ex_js ex) js \<Longrightarrow> quiet ex (ex\<lparr>ex_js := js\<rparr>)"
  by (simp add: quiet_def)

lemma quiet_with_sink: "quiet ex (with_sink f ex)"
proof (cases "ex_audit ex")
  case (Some s)
  then show ?thesis
    by (auto simp: with_sink_def split_beta intro: quiet_trans [OF quiet_read_wall quiet_audit])
qed (simp add: with_sink_def)

lemma js_quiet_next_seq: "js_quiet js (snd (next_event_seq r js))"
  by (simp add: js_quiet_def)

lemma js_quiet_publish: "js_quiet js (js_publish_event t r e js)"
  by (simp add: js_quiet_def)

lemma quiet_stamp: "quiet ex (snd (stamp_event r e ex))"
  by (cases r) (auto simp: stamp_event_def Let_def split_beta intro!: quiet_js js_quiet_next_seq)

lemma quiet_store: "quiet ex (store_event r e ex)"
proof -
  let ?ex1 = "snd (read_wall ex)"
  have "quiet ?ex1 (upd_js (js_publish_event (fst (read_wall ex)) r e) ?ex1)"
    unfolding upd_js_def by (intro quiet_js js_quiet_publish)
  then show ?thesis
    by (simp add: store_event_def split_beta quiet_trans [OF quiet_read_wall])
qed

lemma quiet_deliver: "quiet ex (deliver_event r e ex)"
  by (simp add: deliver_event_def quiet_store) (simp add: quiet_def)

lemma quiet_capture: "quiet ex (capture_event e ex)"
  by (simp add: quiet_def capture_event_def)

lemma quiet_publish: "quiet ex (publish_event r e ex)"
  unfolding publish_event_def split_beta Let_def
  by (meson quiet_stamp quiet_capture quiet_deliver quiet_with_sink quiet_trans)

lemma quiet_emit: "quiet ex (emit_run_event r ty lv p src force ex)"
  by (auto simp: emit_run_event_def Let_def split_beta
      intro: quiet_trans [OF quiet_read_wall quiet_publish])

lemma quiet_callback: "quiet ex (run_callback ex)"
proof (cases "ex_callbacks ex")
  case (Cons c cs)
  have "quiet ex (ex\<lparr>ex_callbacks := cs\<rparr>)" by (simp add: quiet_def)
  then show ?thesis
    using Cons by (cases c) (simp add: run_callback_def quiet_trans [OF _ quiet_store])
qed (simp add: run_callback_def)

lemma quiet_frame:
  assumes "quiet ex ex'"
  shows "js_runs (ex_js ex') = js_runs (ex_js ex)" "js_invs (ex_js ex') = js_invs (ex_js ex)"
    "js_futs (ex_js ex') = js_futs (ex_js ex)" "js_flags (ex_js ex') = js_flags (ex_js ex)"
    "js_rheap (ex_js ex') = js_rheap (ex_js ex)" "js_fheap (ex_js ex') = js_fheap (ex_js ex)"
    "js_cheap (ex_js ex') = js_cheap (ex_js ex)" "js_next (ex_js ex') = js_next (ex_js ex)"
    "js_retain (ex_js ex') = js_retain (ex_js ex)" "js_ttl (ex_js ex') = js_ttl (ex_js ex)"
    "run_at (ex_js ex') r = run_at (ex_js ex) r"
    "get_run_state (ex_js ex') r = get_run_state (ex_js ex) r"
    "status_of (ex_js ex') r = status_of (ex_js ex) r"
    "get_future (ex_js ex') r = get_future (ex_js ex) r"
    "fut_at (ex_js ex') r = fut_at (ex_js ex) r"
    "get_invocation (ex_js ex') r = get_invocation (ex_js ex) r"
    "get_cancel_flag (ex_js ex') r = get_cancel_flag (ex_js ex) r"
    "ex_config ex' = ex_config ex" "ex_loop ex' = ex_loop ex" "ex_queue ex' = ex_queue ex"
    "ex_tasks ex' = ex_tasks ex" "ex_workers ex' = ex_workers ex" "ex_locks ex' = ex_locks ex"
    "ex_pool ex' = ex_pool ex" "ex_exempt ex' = ex_exempt ex" "w_cur_loop ex' = w_cur_loop ex"
    "w_loop_running ex' = w_loop_running ex" "exec_loop_running ex' = exec_loop_running ex"
    "ex_pool_calls ex' = ex_pool_calls ex"
  using assms
  by (simp_all add: quiet_def js_quiet_def view_defs get_cancel_flag_def exec_loop_running_def
      loop_is_running_def split: option.split)

lemma quiet_js_ok: "quiet ex ex' \<Longrightarrow> js_ok (ex_js ex) \<Longrightarrow> js_ok (ex_js ex')"
  by (simp add: quiet_def js_quiet_def)

lemma quiet_audits: "quiet ex (audit_run_state a ex)" "quiet ex (audit_invocation iv ex)"
  by (simp_all add: audit_run_state_def audit_invocation_def quiet_with_sink)

lemmas quiet_frames [simp] =
  quiet_frame [OF quiet_read_wall] quiet_frame [OF quiet_emit] quiet_frame [OF quiet_publish]
  quiet_frame [OF quiet_audits(1)] quiet_frame [OF quiet_audits(2)] quiet_frame [OF quiet_callback]

lemma quiet_js_oks [simp]:
  "js_ok (ex_js ex) \<Longrightarrow> js_ok (ex_js (snd (read_wall ex)))"
  "js_ok (ex_js ex) \<Longrightarrow> js_ok (ex_js (emit_run_event r ty lv p src force ex))"
  "js_ok (ex_js ex) \<Longrightarrow> js_ok (ex_js (publish_event ro e ex))"
  "js_ok (ex_js ex) \<Longrightarrow> js_ok (ex_js (audit_run_state a ex))"
  "js_ok (ex_js ex) \<Longrightarrow> js_ok (ex_js (audit_invocation iv ex))"
  "js_ok (ex_js ex) \<Longrightarrow> js_ok (ex_js (run_callback ex))"
  by (erule quiet_js_ok [rotated], rule quiet_read_wall quiet_emit quiet_publish quiet_audits
      quiet_callback)+

lemma upd_js_simps [simp]:
  "ex_js (upd_js f ex) = f (ex_js ex)" "ex_config (upd_js f ex) = ex_config ex"
  "ex_loop (upd_js f ex) = ex_loop ex" "ex_queue (upd_js f ex) = ex_queue ex"
  "ex_tasks (upd_js f ex) = ex_tasks ex" "ex_workers (upd_js f ex) = ex_workers ex"
  "ex_locks (upd_js f ex) = ex_locks ex" "ex_pool (upd_js f ex) = ex_pool ex"
  "ex_pool_calls (upd_js f ex) = ex_pool_calls ex"
  "ex_exempt (upd_js f ex) = ex_exempt ex" "ex_audit (upd_js f ex) = ex_audit ex"
  "w_cur_loop (upd_js f ex) = w_cur_loop ex" "w_loop_running (upd_js f ex) = w_loop_running ex"
  by (simp_all add: upd_js_def)

section \<open>What the segments of a run do\<close>

lemma begin_run_skip:
  "ro = None \<or> rs_status (js_rheap (ex_js ex) (the ro)) = CANCELLED \<Longrightarrow> begin_run ro iv ex = (None, ex)"
  by (auto simp: begin_run_def split: option.split)

lemma begin_run_starts:
  assumes "rs_status (js_rheap (ex_js ex) a) \<noteq> CANCELLED"
  obtains c ex1 where "begin_run (Some a) iv ex = (Some c, ex1)"
    "ex_tasks ex1 = ex_tasks ex" "ex_queue ex1 = ex_queue ex" "ex_locks ex1 = ex_locks ex"
    "ex_workers ex1 = ex_workers ex" "ex_exempt ex1 = ex_exempt ex" "ex_config ex1 = ex_config ex"
    "js_rheap (ex_js ex1) = (js_rheap (ex_js ex))(a := started_run (fst (read_wall ex)) (js_rheap (ex_js ex) a))"
    "js_fheap (ex_js ex1) = js_fheap (ex_js ex)" "js_runs (ex_js ex1) = js_runs (ex_js ex)"
    "js_futs (ex_js ex1) = js_futs (ex_js ex)" "js_next (ex_js ex1) = js_next (ex_js ex)"
    "c = run_ctx (rs_run_id (js_rheap (ex_js ex) a)) iv
           (get_cancel_flag (ex_js ex) (rs_run_id (js_rheap (ex_js ex) a)))"
    "js_ok (ex_js ex) \<Longrightarrow> js_ok (ex_js ex1)"
proof -
  have [simp]: "rs_run_id (started_run t rs) = rs_run_id rs" for t rs
    by (simp add: started_run_def)
  have [simp]: "get_cancel_flag (upd_run a f js) r = get_cancel_flag js r" for f js r
    by (simp add: get_cancel_flag_def)
  define ex1 where "ex1 = snd (begin_run (Some a) iv ex)"
  have eq: "begin_run (Some a) iv ex =
      (Some (run_ctx (rs_run_id (js_rheap (ex_js ex) a)) iv
           (get_cancel_flag (ex_js ex) (rs_run_id (js_rheap (ex_js ex) a)))), ex1)"
    using assms by (simp add: ex1_def begin_run_def begin_after_check_def Let_def split_beta)
  show thesis
    using assms by (intro that [OF eq]) (simp_all add: ex1_def begin_run_def begin_after_check_def Let_def split_beta)
qed

subsection \<open>The end of a run\<close>

text \<open>
  How \<open>settle_run\<close> classifies an outcome, and what it leaves in the run state and the
  future for each class.
\<close>

datatype run_end = Caught run_status pyval "pyexc option" | Escapes pyexc

definition run_end_of :: "exc_class list \<Rightarrow> pyval res \<Rightarrow> run_end" where
  "run_end_of exempt out =
    (case out of
       Inr v \<Rightarrow> Caught SUCCEEDED v None
     | Inl e \<Rightarrow>
         if isinstance_exc e TimeoutErrorC then Caught TIMEOUT VNone (Some e)
         else if isinstance_any e exempt then Caught CANCELLED VNone (Some e)
         else if isinstance_exc e ExceptionC then Caught FAILED VNone (Some e)
         else Escapes e)"

definition end_run_state :: "run_end \<Rightarrow> run_state \<Rightarrow> run_state" where
  "end_run_state re rs =
    (case re of
       Escapes _ \<Rightarrow> rs
     | Caught st v e \<Rightarrow>
         (case e of None \<Rightarrow> rs\<lparr>rs_result := v, rs_status := st\<rparr>
          | Some x \<Rightarrow> rs\<lparr>rs_error := Some x, rs_status := st\<rparr>))"

definition end_future :: "run_end \<Rightarrow> future option" where
  "end_future re =
    (case re of Escapes _ \<Rightarrow> None
     | Caught st v e \<Rightarrow> Some (case e of None \<Rightarrow> FResult v | Some x \<Rightarrow> FException x))"

lemma run_end_caught_status: "run_end_of exempt out = Caught st v e \<Longrightarrow> terminal_status st"
  by (auto simp: run_end_of_def split: sum.splits if_splits)

lemma run_end_escapes:
  "run_end_of exempt out = Escapes e \<longleftrightarrow>
    out = Inl e \<and> \<not> isinstance_exc e TimeoutErrorC \<and> \<not> isinstance_any e exempt \<and>
    \<not> isinstance_exc e ExceptionC"
  by (auto simp: run_end_of_def split: sum.splits)

lemma end_run_state_id [simp]: "rs_run_id (end_run_state re rs) = rs_run_id rs"
  by (simp add: end_run_state_def split: run_end.split option.split)

lemma end_run_state_status:
  "rs_status (end_run_state re rs) = (case re of Escapes _ \<Rightarrow> rs_status rs | Caught st v e \<Rightarrow> st)"
  by (simp add: end_run_state_def split: run_end.split option.split)

lemma settle_run_escaped:
  "fst (settle_run b a iv out ex) = (case run_end_of (ex_exempt ex) out of Escapes e \<Rightarrow> Some e | _ \<Rightarrow> None)"
  by (auto simp: settle_run_def run_end_of_def split: sum.split)

lemma resolve_if_simps [simp]:
  "js_rheap (ex_js (resolve_if b r v e ex)) = js_rheap (ex_js ex)"
  "js_runs (ex_js (resolve_if b r v e ex)) = js_runs (ex_js ex)"
  "js_futs (ex_js (resolve_if b r v e ex)) = js_futs (ex_js ex)"
  "js_next (ex_js (resolve_if b r v e ex)) = js_next (ex_js ex)"
  "js_retain (ex_js (resolve_if b r v e ex)) = js_retain (ex_js ex)"
  "js_ttl (ex_js (resolve_if b r v e ex)) = js_ttl (ex_js ex)"
  "ex_tasks (resolve_if b r v e ex) = ex_tasks ex" "ex_queue (resolve_if b r v e ex) = ex_queue ex"
  "ex_locks (resolve_if b r v e ex) = ex_locks ex" "ex_workers (resolve_if b r v e ex) = ex_workers ex"
  "ex_exempt (resolve_if b r v e ex) = ex_exempt ex" "ex_loop (resolve_if b r v e ex) = ex_loop ex"
  "ex_config (resolve_if b r v e ex) = ex_config ex"
  "js_ok (ex_js (resolve_if b r v e ex)) = js_ok (ex_js ex)"
  by (simp_all add: resolve_if_def resolve_settle)

lemma settle_run_frame [simp]:
  "ex_tasks (snd (settle_run b a iv out ex)) = ex_tasks ex"
  "ex_queue (snd (settle_run b a iv out ex)) = ex_queue ex"
  "ex_locks (snd (settle_run b a iv out ex)) = ex_locks ex"
  "ex_workers (snd (settle_run b a iv out ex)) = ex_workers ex"
  "ex_exempt (snd (settle_run b a iv out ex)) = ex_exempt ex"
  "ex_loop (snd (settle_run b a iv out ex)) = ex_loop ex"
  "ex_config (snd (settle_run b a iv out ex)) = ex_config ex"
  "js_runs (ex_js (snd (settle_run b a iv out ex))) = js_runs (ex_js ex)"
  "js_futs (ex_js (snd (settle_run b a iv out ex))) = js_futs (ex_js ex)"
  "js_next (ex_js (snd (settle_run b a iv out ex))) = js_next (ex_js ex)"
  "js_retain (ex_js (snd (settle_run b a iv out ex))) = js_retain (ex_js ex)"
  "js_ttl (ex_js (snd (settle_run b a iv out ex))) = js_ttl (ex_js ex)"
  by (cases out; simp add: settle_run_def on_success_def on_error_def Let_def)+

lemma settle_run_rheap:
  "js_rheap (ex_js (snd (settle_run b a iv out ex))) =
    (js_rheap (ex_js ex))
      (a := end_run_state (run_end_of (ex_exempt ex) out) (js_rheap (ex_js ex) a))"
  by (cases out) (simp_all add: settle_run_def on_success_def on_error_def Let_def run_end_of_def
      end_run_state_def)

lemma settle_run_js_ok [simp]:
  "js_ok (ex_js ex) \<Longrightarrow> js_ok (ex_js (snd (settle_run b a iv out ex)))"
  by (cases out) (simp_all add: settle_run_def on_success_def on_error_def Let_def)

lemma settle_run_fheap:
  "js_fheap (ex_js (snd (settle_run True a iv out ex))) f =
    (case end_future (run_end_of (ex_exempt ex) out) of
       None \<Rightarrow> js_fheap (ex_js ex) f
     | Some v \<Rightarrow>
         if get_future (ex_js ex) (rs_run_id (js_rheap (ex_js ex) a)) = Some f \<and>
            js_fheap (ex_js ex) f = FPending
         then v else js_fheap (ex_js ex) f)"
  by (cases out) (simp_all add: settle_run_def on_success_def on_error_def Let_def run_end_of_def
      end_future_def resolve_if_def resolve_settle fheap_settle)

lemma exec_cleanup_frame [simp]:
  "ex_tasks (snd (exec_cleanup ex)) = ex_tasks ex" "ex_queue (snd (exec_cleanup ex)) = ex_queue ex"
  "ex_locks (snd (exec_cleanup ex)) = ex_locks ex" "ex_workers (snd (exec_cleanup ex)) = ex_workers ex"
  "ex_exempt (snd (exec_cleanup ex)) = ex_exempt ex" "ex_loop (snd (exec_cleanup ex)) = ex_loop ex"
  "ex_config (snd (exec_cleanup ex)) = ex_config ex"
  by (simp_all add: exec_cleanup_def Let_def split_beta read_wall_def)

lemma exec_cleanup_js:
  "ex_js (snd (exec_cleanup ex)) = snd (cleanup (fst (read_wall ex)) (ex_js ex))"
  "fst (exec_cleanup ex) = fst (cleanup (fst (read_wall ex)) (ex_js ex))"
  by (simp_all add: exec_cleanup_def Let_def split_beta) (simp_all add: read_wall_def)

text \<open>Cleanup forgets a list of completed runs, or nothing.\<close>

lemma cleanup_forgets:
  "\<exists>ids. snd (cleanup now js) = fold forget_run ids js \<and> set ids \<subseteq> snd ` set (completed_runs js)"
proof -
  have sub: "set ids \<subseteq> snd ` set (completed_runs js)"
    if "over_retained (js_retain js) (completed_runs js) = Inr ids" for ids
  proof -
    have "set (drop n (newest_first cs)) \<subseteq> set cs" for n cs
      by (metis newest_first_simps(1) set_drop_subset)
    then show ?thesis
      using that by (fastforce simp: over_retained_def split: option.splits if_splits)
  qed
  show ?thesis
  proof (cases "over_retained (js_retain js) (completed_runs js)")
    case (Inl e)
    then show ?thesis by (intro exI [of _ "[]"]) (simp add: cleanup_def Let_def)
  next
    case (Inr ids)
    show ?thesis
    proof (cases "js_retain js = None \<and> js_ttl js = None")
      case True
      then show ?thesis by (intro exI [of _ "[]"]) (simp add: cleanup_def)
    next
      case False
      with Inr sub [OF Inr] ttl_expired_subset [of now "js_ttl js" "completed_runs js"]
      show ?thesis
        by (intro exI [of _ "remdups (ttl_expired now (js_ttl js) (completed_runs js) @ ids)"])
          (auto simp: cleanup_def Let_def)
    qed
  qed
qed

lemma js_ok_cleanup [simp]: "js_ok js \<Longrightarrow> js_ok (snd (cleanup now js))"
  using cleanup_forgets [of now js] js_ok_fold_forget by metis

lemma cleanup_rheap [simp]: "js_rheap (snd (cleanup now js)) = js_rheap js"
  using cleanup_forgets [of now js] fold_forget_simps(2) by metis

lemma cleanup_run_at:
  "js_ok js \<Longrightarrow> run_at (snd (cleanup now js)) r = run_at js r \<or>
    run_at (snd (cleanup now js)) r = None \<and> (\<exists>rs. run_at js r = Some rs \<and> terminal_status (rs_status rs))"
proof -
  assume ok: "js_ok js"
  obtain ids where ids: "snd (cleanup now js) = fold forget_run ids js"
    "set ids \<subseteq> snd ` set (completed_runs js)"
    using cleanup_forgets by blast
  show ?thesis
  proof (cases "r \<in> set ids")
    case True
    then obtain c where "c \<in> set (completed_runs js)" "r = snd c" using ids(2) by auto
    with True show ?thesis
      using completed_mem [OF ok, of c] by (auto simp: ids(1) fold_forget_views)
  qed (simp add: ids(1) fold_forget_views)
qed

lemma forget_run_fheap:
  "js_fheap (forget_run r js) f =
    (if get_future js r = Some f \<and> js_fheap js f = FPending then FCancelled else js_fheap js f)"
  by (cases "get_future js r")
    (auto simp: js_pop_run_def Let_def cancel_future_def fut_done_def)

lemma forget_keeps_done: "fut_done (js_fheap js f) \<Longrightarrow> js_fheap (forget_run r js) f = js_fheap js f"
  by (simp add: forget_run_fheap fut_done_def)

lemma fold_forget_keeps_done:
  "fut_done (js_fheap js f) \<Longrightarrow> js_fheap (fold forget_run ids js) f = js_fheap js f"
  by (induction ids arbitrary: js) (simp_all add: forget_keeps_done)

lemma cleanup_keeps_done: "fut_done (js_fheap js f) \<Longrightarrow> js_fheap (snd (cleanup now js)) f = js_fheap js f"
  using cleanup_forgets [of now js] fold_forget_keeps_done by metis

lemma fut_at_forget:
  assumes "js_ok js"
  shows "fut_at (forget_run r js) r' = (if r' = r then None else fut_at js r')"
proof -
  have "get_future js r = Some f \<Longrightarrow> get_future js r' = Some f \<Longrightarrow> r' = r" for f
    using addr_ok_inj [OF js_okD(2) [OF assms]] by (auto simp: get_future_def)
  then show ?thesis
    by (cases "get_future js r'") (auto simp: fut_at_def forget_run_fheap)
qed

lemma fold_forget_fut_at:
  "js_ok js \<Longrightarrow> fut_at (fold forget_run ids js) r = (if r \<in> set ids then None else fut_at js r)"
  by (induction ids arbitrary: js) (simp_all add: fut_at_forget)

lemma fold_forget_next [simp]: "js_next (fold forget_run ids js) = js_next js"
  by (induction ids arbitrary: js) simp_all

lemma cleanup_next [simp]: "js_next (snd (cleanup now js)) = js_next js"
  using cleanup_forgets [of now js] fold_forget_next by metis

lemma fold_forget_sub: "map_of (js_runs (fold forget_run ids js)) r = Some a \<Longrightarrow> map_of (js_runs js) r = Some a"
proof (induction ids arbitrary: js)
  case (Cons i ids)
  then have "map_of (js_runs (forget_run i js)) r = Some a"
    by (intro Cons.IH [of "forget_run i js"]) simp
  then show ?case by (simp add: dict_simps split: if_splits)
qed simp

lemma cleanup_sub: "map_of (js_runs (snd (cleanup now js))) r = Some a \<Longrightarrow> map_of (js_runs js) r = Some a"
  using cleanup_forgets [of now js] fold_forget_sub by metis

lemma finished_run_simps [simp]:
  "rs_status (finished_run t rs) = rs_status rs" "rs_run_id (finished_run t rs) = rs_run_id rs"
  "rs_finished_at (finished_run t rs) = Some t" "rs_error (finished_run t rs) = rs_error rs"
  "rs_result (finished_run t rs) = rs_result rs"
  by (simp_all add: finished_run_def)

lemma conclude_run_frame [simp]:
  "ex_tasks (snd (conclude_run b a iv out ex)) = ex_tasks ex"
  "ex_queue (snd (conclude_run b a iv out ex)) = ex_queue ex"
  "ex_locks (snd (conclude_run b a iv out ex)) = ex_locks ex"
  "ex_workers (snd (conclude_run b a iv out ex)) = ex_workers ex"
  "ex_exempt (snd (conclude_run b a iv out ex)) = ex_exempt ex"
  "ex_loop (snd (conclude_run b a iv out ex)) = ex_loop ex"
  "ex_config (snd (conclude_run b a iv out ex)) = ex_config ex"
  "js_next (ex_js (snd (conclude_run b a iv out ex))) = js_next (ex_js ex)"
  by (simp_all add: conclude_run_def Let_def split_beta exec_cleanup_js)

lemma conclude_run_rheap:
  "\<exists>t. js_rheap (ex_js (snd (conclude_run b a iv out ex))) =
    (js_rheap (ex_js ex))
      (a := finished_run t (end_run_state (run_end_of (ex_exempt ex) out) (js_rheap (ex_js ex) a)))"
  by (simp add: conclude_run_def Let_def split_beta exec_cleanup_js settle_run_rheap) blast

lemma conclude_run_js_ok [simp]:
  "js_ok (ex_js ex) \<Longrightarrow> js_ok (ex_js (snd (conclude_run b a iv out ex)))"
  by (simp add: conclude_run_def Let_def split_beta exec_cleanup_js)

lemma conclude_run_sub:
  "map_of (js_runs (ex_js (snd (conclude_run b a iv out ex)))) r = Some a' \<Longrightarrow>
   map_of (js_runs (ex_js ex)) r = Some a'"
  by (auto simp: conclude_run_def Let_def split_beta exec_cleanup_js dest: cleanup_sub)

lemma conclude_run_future:
  assumes "get_future (ex_js ex) (rs_run_id (js_rheap (ex_js ex) a)) = Some f"
    and "run_end_of (ex_exempt ex) out = Caught st v e"
  shows "js_fheap (ex_js (snd (conclude_run True a iv out ex))) f =
    (if js_fheap (ex_js ex) f = FPending
     then (case e of None \<Rightarrow> FResult v | Some x \<Rightarrow> FException x)
     else js_fheap (ex_js ex) f)"
proof -
  let ?ex1 = "snd (settle_run True a iv out ex)"
  have f1: "js_fheap (ex_js ?ex1) f =
    (if js_fheap (ex_js ex) f = FPending
     then (case e of None \<Rightarrow> FResult v | Some x \<Rightarrow> FException x)
     else js_fheap (ex_js ex) f)"
    using assms by (simp add: settle_run_fheap end_future_def)
  then have "fut_done (js_fheap (ex_js ?ex1) f)"
    by (simp add: fut_done_def split: option.split)
  then show ?thesis
    using f1 by (simp add: conclude_run_def Let_def split_beta exec_cleanup_js cleanup_keeps_done)
qed

lemma conclude_run_escapes:
  assumes "run_end_of (ex_exempt ex) out = Escapes e"
  shows "\<exists>x. fst (conclude_run b a iv out ex) = Inl x"
  using assms
  by (auto simp: conclude_run_def Let_def split_beta settle_run_escaped split: sum.split)

lemma cleanup_total:
  assumes "\<forall>c \<in> set (completed_runs js). fst c \<noteq> None"
  shows "fst (cleanup now js) = Inr ()"
proof -
  have "comparable (completed_runs js)"
    using assms by (auto simp: comparable_def list_all_iff)
  then have "\<exists>ids. over_retained (js_retain js) (completed_runs js) = Inr ids"
    by (simp add: over_retained_def split: option.split)
  then show ?thesis by (auto simp: cleanup_def Let_def)
qed

section \<open>Publishing in the executor's loop\<close>

definition in_own_loop :: "exec \<Rightarrow> bool" where
  "in_own_loop ex \<longleftrightarrow> exec_loop_running ex \<and> w_cur_loop ex = ex_loop ex"

lemma in_own_loop_publish [simp]: "in_own_loop (publish_event r e ex) = in_own_loop ex"
  by (simp add: in_own_loop_def)

definition run_history :: "exec \<Rightarrow> string \<Rightarrow> runtime_event list" where
  "run_history ex r = history (js_bus (ex_js ex)) r"

definition seq_of :: "exec \<Rightarrow> string \<Rightarrow> int" where
  "seq_of ex r = dict_get_or (js_seqs (ex_js ex)) r 0"

lemma with_sink_js [simp]: "ex_js (with_sink f ex) = ex_js ex"
  by (cases "ex_audit ex") (simp_all add: with_sink_def split_beta Let_def read_wall_def)

lemma publish_event_js_at:
  assumes "in_own_loop ex" and "ev_seq e = None"
  shows "ex_js (publish_event (Some r) e ex) =
    js_publish_event (w_wall ex (w_reads ex)) (Some r)
      ((if ev_run_id e = None then e\<lparr>ev_run_id := Some r\<rparr> else e)\<lparr>ev_seq := Some (seq_of ex r + 1)\<rparr>)
      (snd (next_event_seq r (ex_js ex)))"
proof -
  let ?e = "if ev_run_id e = None then e\<lparr>ev_run_id := Some r\<rparr> else e"
  let ?ex1 = "ex\<lparr>ex_js := snd (next_event_seq r (ex_js ex))\<rparr>"
  have st: "stamp_event (Some r) e ex = (?e\<lparr>ev_seq := Some (seq_of ex r + 1)\<rparr>, ?ex1)"
    using assms(2) by (simp add: stamp_event_def Let_def split_beta seq_of_def)
  have "\<not> (exec_loop_running (capture_event e' ?ex1) \<and> w_cur_loop (capture_event e' ?ex1) \<noteq> ex_loop (capture_event e' ?ex1))"
    for e' using assms(1) by (simp add: in_own_loop_def capture_event_def exec_loop_running_def loop_is_running_def)
  then have "deliver_event (Some r) e' (capture_event e' ?ex1) = store_event (Some r) e' (capture_event e' ?ex1)" for e'
    unfolding deliver_event_def by (rule if_not_P)
  then show ?thesis
    by (simp add: publish_event_def st store_event_def split_beta Let_def)
      (simp add: read_wall_def capture_event_def)
qed

lemma publish_event_js:
  assumes "in_own_loop ex" and "ev_seq e = None"
  shows "\<exists>t. ex_js (publish_event (Some r) e ex) =
    js_publish_event t (Some r)
      ((if ev_run_id e = None then e\<lparr>ev_run_id := Some r\<rparr> else e)\<lparr>ev_seq := Some (seq_of ex r + 1)\<rparr>)
      (snd (next_event_seq r (ex_js ex)))"
  using publish_event_js_at [OF assms] by blast

text \<open>
  The clock is read once when an event is stored and once more when it is recorded.
\<close>

definition reads_per_event :: "exec \<Rightarrow> nat" where
  "reads_per_event ex = (if ex_audit ex = None then 1 else 2)"

lemma publish_event_clock:
  assumes "in_own_loop ex" and "ev_seq e = None"
  shows "w_wall (publish_event (Some r) e ex) = w_wall ex"
    "w_reads (publish_event (Some r) e ex) = w_reads ex + reads_per_event ex"
    "reads_per_event (publish_event (Some r) e ex) = reads_per_event ex"
proof -
  let ?ex1 = "snd (stamp_event (Some r) e ex)"
  have own: "deliver_event (Some r) e' (capture_event e'' ?ex1) = store_event (Some r) e' (capture_event e'' ?ex1)"
    for e' e''
    using assms by (simp add: deliver_event_def in_own_loop_def stamp_event_def Let_def split_beta capture_event_def
        exec_loop_running_def loop_is_running_def)
  have st: "w_wall ?ex1 = w_wall ex" "w_reads ?ex1 = w_reads ex" "ex_audit ?ex1 = ex_audit ex"
    using assms(2) by (simp_all add: stamp_event_def Let_def split_beta)
  show "w_wall (publish_event (Some r) e ex) = w_wall ex"
    "w_reads (publish_event (Some r) e ex) = w_reads ex + reads_per_event ex"
    "reads_per_event (publish_event (Some r) e ex) = reads_per_event ex"
    unfolding publish_event_def Let_def split_beta own
    by (cases "ex_audit ex"; simp add: with_sink_def store_event_def read_wall_def capture_event_def split_beta
        upd_js_def reads_per_event_def st)+
qed

lemma publish_event_run:
  assumes "in_own_loop ex" and "ev_seq e = None"
  shows "run_history (publish_event (Some r) e ex) r =
      prune_max (b_max (js_bus (ex_js ex))) (prune_ttl (w_wall ex (w_reads ex)) (b_ttl (js_bus (ex_js ex)))
        (run_history ex r @
          [(if ev_run_id e = None then e\<lparr>ev_run_id := Some r\<rparr> else e)\<lparr>ev_seq := Some (seq_of ex r + 1)\<rparr>]))"
    "seq_of (publish_event (Some r) e ex) r = seq_of ex r + 1"
    "b_max (js_bus (ex_js (publish_event (Some r) e ex))) = b_max (js_bus (ex_js ex))"
    "b_ttl (js_bus (ex_js (publish_event (Some r) e ex))) = b_ttl (js_bus (ex_js ex))"
  using publish_event_js_at [OF assms, of r]
  by (simp_all add: run_history_def seq_of_def history_publish dict_simps)

text \<open>
  The events as they are numbered from a counter on, and the events of a history that its limits
  allow to drop: those more than the maximum from its end, and those whose time to live had
  passed at one of the readings of the clock.
\<close>

fun numbered :: "string \<Rightarrow> int \<Rightarrow> runtime_event list \<Rightarrow> runtime_event list" where
  "numbered r k [] = []"
| "numbered r k (e # es) =
    (if ev_run_id e = None then e\<lparr>ev_run_id := Some r\<rparr> else e)\<lparr>ev_seq := Some (k + 1)\<rparr> # numbered r (k + 1) es"

lemma numbered_snoc:
  "numbered r k (es @ [e]) = numbered r k es @
    [(if ev_run_id e = None then e\<lparr>ev_run_id := Some r\<rparr> else e)\<lparr>ev_seq := Some (k + int (length es) + 1)\<rparr>]"
  by (induction es arbitrary: k) (simp_all add: algebra_simps)

definition may_drop :: "int option \<Rightarrow> real option \<Rightarrow> real set \<Rightarrow> runtime_event list \<Rightarrow> nat \<Rightarrow> bool" where
  "may_drop mx ttl ts h i \<longleftrightarrow>
    (\<exists>m. mx = Some m \<and> 0 < m \<and> int i + m < int (length h)) \<or>
    (\<exists>d. ttl = Some d \<and> (\<exists>t \<in> ts. expired_front (t - d) (h ! i)))"

lemma prune_ttl_drops:
  "\<exists>j \<le> length h. prune_ttl now ttl h = drop j h \<and> (\<forall>i < j. may_drop mx ttl {now} h i) \<and>
    (\<forall>d. ttl = Some d \<longrightarrow> drop j h \<noteq> [] \<longrightarrow> \<not> expired_front (now - d) (hd (drop j h)))"
proof (cases ttl)
  case None
  then show ?thesis by (intro exI [of _ 0]) (simp add: prune_ttl_def)
next
  case (Some d)
  let ?P = "expired_front (now - d)"
  have "dropWhile ?P h = drop (length (takeWhile ?P h)) h" by (rule dropWhile_eq_drop)
  moreover have "?P (h ! i)" if "i < length (takeWhile ?P h)" for i
    using that nth_mem [OF that] by (simp add: takeWhile_nth) (metis set_takeWhileD takeWhile_nth nth_mem)
  ultimately show ?thesis
    using Some hd_dropWhile [of ?P h]
    by (intro exI [of _ "length (takeWhile ?P h)"]) (auto simp: prune_ttl_def may_drop_def length_takeWhile_le)
qed

lemma prune_max_drops:
  "\<exists>j \<le> length h. prune_max mx h = drop j h \<and> (\<forall>i < j. may_drop mx ttl ts h i) \<and>
    (\<forall>m. mx = Some m \<longrightarrow> 0 < m \<longrightarrow> int (length (drop j h)) \<le> m) \<and>
    (j \<noteq> 0 \<longrightarrow> (\<exists>m. mx = Some m \<and> 0 < m \<and> int (length (drop j h)) = m))"
proof (cases "\<exists>m. mx = Some m \<and> 0 < m \<and> m < int (length h)")
  case True
  then obtain m where m: "mx = Some m" "0 < m" "m < int (length h)" by blast
  then show ?thesis
    by (intro exI [of _ "length h - nat m"]) (auto simp: prune_max_def del_slice_to_def slice_stop_def may_drop_def nat_diff_distrib)
next
  case False
  then have "prune_max mx h = h"
    by (cases mx) (auto simp: prune_max_def del_slice_to_def slice_stop_def not_less)
  then show ?thesis using False by (intro exI [of _ 0]) auto
qed

lemma may_drop_shift:
  "may_drop mx ttl ts (drop k h) i \<Longrightarrow> k + i < length h \<Longrightarrow> ts \<subseteq> ts' \<Longrightarrow> may_drop mx ttl ts' h (k + i)"
  by (auto simp: may_drop_def add_ac)

text \<open>
  What is kept after an event was stored is within the limits: at most the maximum, and no event at
  its front whose time to live had passed, unless the maximum cut there.
\<close>

definition within_limits :: "int option \<Rightarrow> real option \<Rightarrow> real \<Rightarrow> runtime_event list \<Rightarrow> bool" where
  "within_limits mx ttl now h \<longleftrightarrow>
    (\<forall>m. mx = Some m \<longrightarrow> 0 < m \<longrightarrow> int (length h) \<le> m) \<and>
    (\<forall>d. ttl = Some d \<longrightarrow> h \<noteq> [] \<longrightarrow> expired_front (now - d) (hd h) \<longrightarrow>
       (\<exists>m. mx = Some m \<and> 0 < m \<and> int (length h) = m))"

lemma prune_drops:
  "\<exists>j \<le> length h. prune_max mx (prune_ttl now ttl h) = drop j h \<and>
    (\<forall>i < j. may_drop mx ttl {now} h i) \<and> within_limits mx ttl now (drop j h)"
proof -
  obtain a where a: "a \<le> length h" "prune_ttl now ttl h = drop a h" "\<forall>i < a. may_drop mx ttl {now} h i"
    "\<forall>d. ttl = Some d \<longrightarrow> drop a h \<noteq> [] \<longrightarrow> \<not> expired_front (now - d) (hd (drop a h))"
    using prune_ttl_drops [of h now ttl mx] by blast
  obtain b where b: "b \<le> length (drop a h)" "prune_max mx (drop a h) = drop b (drop a h)"
    "\<forall>i < b. may_drop mx ttl {now} (drop a h) i"
    "\<forall>m. mx = Some m \<longrightarrow> 0 < m \<longrightarrow> int (length (drop b (drop a h))) \<le> m"
    "b \<noteq> 0 \<longrightarrow> (\<exists>m. mx = Some m \<and> 0 < m \<and> int (length (drop b (drop a h))) = m)"
    using prune_max_drops [of "drop a h" mx ttl "{now}"] by blast
  have "may_drop mx ttl {now} h i" if i: "i < a + b" for i
  proof (cases "i < a")
    case False
    then show ?thesis
      using may_drop_shift [of mx ttl "{now}" a h "i - a" "{now}"] b(1,3) i a(1) by auto
  qed (use a(3) in blast)
  moreover have "within_limits mx ttl now (drop b (drop a h))"
    using b(4,5) a(4) by (cases "b = 0") (auto simp: within_limits_def)
  ultimately show ?thesis
    using a(1,2) b(1,2) by (intro exI [of _ "a + b"]) (simp add: add.commute)
qed

definition kept_by_limits ::
  "int option \<Rightarrow> real option \<Rightarrow> real set \<Rightarrow> runtime_event list \<Rightarrow> runtime_event list \<Rightarrow> bool" where
  "kept_by_limits mx ttl ts h h' \<longleftrightarrow>
    (\<exists>k \<le> length h. h' = drop k h \<and> (\<forall>i < k. may_drop mx ttl ts h i))"

lemma kept_by_limits_snoc:
  assumes "kept_by_limits mx ttl ts h h'" and "ts \<subseteq> ts'" and "now \<in> ts'"
  shows "kept_by_limits mx ttl ts' (h @ [e]) (prune_max mx (prune_ttl now ttl (h' @ [e])))"
proof -
  obtain k where k: "k \<le> length h" "h' = drop k h" "\<forall>i < k. may_drop mx ttl ts h i"
    using assms(1) by (auto simp: kept_by_limits_def)
  obtain j where j: "j \<le> length (h' @ [e])"
    "prune_max mx (prune_ttl now ttl (h' @ [e])) = drop j (h' @ [e])"
    "\<forall>i < j. may_drop mx ttl {now} (h' @ [e]) i"
    using prune_drops [of "h' @ [e]" mx now ttl] by blast
  have h': "h' @ [e] = drop k (h @ [e])" using k(1,2) by simp
  have "may_drop mx ttl ts' (h @ [e]) i" if i: "i < k + j" for i
  proof (cases "i < k")
    case True
    then have "may_drop mx ttl ts h i" using k(3) by blast
    then show ?thesis using True k(1) assms(2) by (auto simp: may_drop_def nth_append)
  next
    case False
    then show ?thesis
      using may_drop_shift [of mx ttl "{now}" k "h @ [e]" "i - k" ts'] j(1,3) i k(1) assms(3) unfolding h' by auto
  qed
  then show ?thesis
    unfolding kept_by_limits_def j(2) using j(1) k(1) unfolding h'
    by (intro exI [of _ "k + j"]) (auto simp: add.commute)
qed

lemma publish_many:
  assumes "in_own_loop ex" and "\<forall>e \<in> set es. ev_seq e = None"
  shows "in_own_loop (fold (publish_event (Some r)) es ex) \<and>
    seq_of (fold (publish_event (Some r)) es ex) r = seq_of ex r + int (length es) \<and>
    b_max (js_bus (ex_js (fold (publish_event (Some r)) es ex))) = b_max (js_bus (ex_js ex)) \<and>
    b_ttl (js_bus (ex_js (fold (publish_event (Some r)) es ex))) = b_ttl (js_bus (ex_js ex)) \<and>
    w_wall (fold (publish_event (Some r)) es ex) = w_wall ex \<and>
    w_reads (fold (publish_event (Some r)) es ex) = w_reads ex + length es * reads_per_event ex \<and>
    reads_per_event (fold (publish_event (Some r)) es ex) = reads_per_event ex \<and>
    kept_by_limits (b_max (js_bus (ex_js ex))) (b_ttl (js_bus (ex_js ex)))
      ((\<lambda>i. w_wall ex (w_reads ex + i * reads_per_event ex)) ` {..<length es})
      (run_history ex r @ numbered r (seq_of ex r) es) (run_history (fold (publish_event (Some r)) es ex) r)"
  using assms
proof (induction es rule: rev_induct)
  case Nil
  then show ?case by (auto simp: kept_by_limits_def)
next
  case (snoc e es)
  let ?ex = "fold (publish_event (Some r)) es ex"
  have e: "ev_seq e = None" and ih: "in_own_loop ?ex"
    "seq_of ?ex r = seq_of ex r + int (length es)" "b_max (js_bus (ex_js ?ex)) = b_max (js_bus (ex_js ex))"
    "b_ttl (js_bus (ex_js ?ex)) = b_ttl (js_bus (ex_js ex))" "w_wall ?ex = w_wall ex"
    "w_reads ?ex = w_reads ex + length es * reads_per_event ex" "reads_per_event ?ex = reads_per_event ex"
    "kept_by_limits (b_max (js_bus (ex_js ex))) (b_ttl (js_bus (ex_js ex)))
      ((\<lambda>i. w_wall ex (w_reads ex + i * reads_per_event ex)) ` {..<length es})
      (run_history ex r @ numbered r (seq_of ex r) es) (run_history ?ex r)"
    using snoc by simp_all
  note p = publish_event_run [OF ih(1) e, of r] publish_event_clock [OF ih(1) e, of r]
  show ?case
    using kept_by_limits_snoc [OF ih(8), of
        "(\<lambda>i. w_wall ex (w_reads ex + i * reads_per_event ex)) ` {..<length (es @ [e])}"] ih(1)
    by (simp add: p ih numbered_snoc add_ac) (smt (verit, best) image_eqI image_mono lessI lessThan_iff lessThan_subset_iff nat_less_le order_refl)
qed


section \<open>Properties\<close>

text \<open>C21: the events of a run are numbered without gaps and kept in order. Events published from the
  executor's loop without a sequence number get the numbers from the run's counter plus one
  upwards, and the run's history is the old one followed by exactly these events, of which only a
  prefix may be missing: events that exceed the configured maximum, or whose time to live had passed
  at a reading of the clock. After a publication the history is within its limits.\<close>

theorem published_events_are_numbered:
  assumes "in_own_loop ex" and "\<forall>e \<in> set es. ev_seq e = None"
  shows "let ex' = fold (publish_event (Some r)) es ex;
      mx = b_max (js_bus (ex_js ex)); ttl = b_ttl (js_bus (ex_js ex));
      all = run_history ex r @ numbered r (seq_of ex r) es;
      reading = (\<lambda>i. w_wall ex (w_reads ex + i * reads_per_event ex))
    in seq_of ex' r = seq_of ex r + int (length es) \<and>
      (\<exists>k \<le> length all. run_history ex' r = drop k all \<and>
        (\<forall>i < k. may_drop mx ttl (reading ` {..<length es}) all i)) \<and>
      (es \<noteq> [] \<longrightarrow> within_limits mx ttl (reading (length es - 1)) (run_history ex' r))"
proof (cases es rule: rev_cases)
  case Nil
  then show ?thesis using publish_many [OF assms, of r] by (simp add: kept_by_limits_def)
next
  case (snoc es' e)
  then have e: "ev_seq e = None" and m: "\<forall>e \<in> set es'. ev_seq e = None" using assms(2) by simp_all
  let ?ex = "fold (publish_event (Some r)) es' ex"
  note h = publish_many [OF assms(1) m, of r]
  have "within_limits (b_max (js_bus (ex_js ex))) (b_ttl (js_bus (ex_js ex)))
      (w_wall ex (w_reads ex + length es' * reads_per_event ex)) (run_history (publish_event (Some r) e ?ex) r)"
    using prune_drops h by (metis publish_event_run(1) e)
  then show ?thesis
    using publish_many [OF assms, of r] unfolding Let_def kept_by_limits_def by (simp add: snoc)
qed

definition sample_world :: world where
  "sample_world = \<lparr>w_wall = (\<lambda>_. 0), w_mono = (\<lambda>_. 0), w_uuid = (\<lambda>_. ''u''), w_reads = 0,
    w_uuids = 0, w_loop_running = (\<lambda>_. True), w_cur_loop = Some 0\<rparr>"

definition sample_config :: executor_config where
  "sample_config = default_executor_config
    \<lparr>ec_event_history_max := None, ec_event_history_ttl := None, ec_emit_run_events := False\<rparr>"

definition sample_exec :: exec where
  "sample_exec = (case new_executor 1 (Some 0) (Some sample_config) sample_world of Inr ex \<Rightarrow> ex)"

definition sample_event :: runtime_event where
  "sample_event = mk_runtime_event 0 (Kind STDOUT) (VStr ''hello'') NoLevel None None VNone None None None"

text \<open>An executor that keeps one event of each run.\<close>

definition short_exec :: exec where
  "short_exec =
    (case new_executor 1 (Some 0) (Some (sample_config\<lparr>ec_event_history_max := Some 1\<rparr>)) sample_world of Inr ex \<Rightarrow> ex)"

lemma published_events_are_numbered_witness:
  "seq_of (fold (publish_event (Some ''a'')) [sample_event, sample_event] short_exec) ''a'' = 2 \<and>
    length (run_history (fold (publish_event (Some ''a'')) [sample_event, sample_event] short_exec) ''a'') \<le> 1"
proof -
  have "in_own_loop short_exec" "ev_seq sample_event = None" "b_max (js_bus (ex_js short_exec)) = Some 1"
    "seq_of short_exec ''a'' = 0" by code_simp+
  then show ?thesis
    using published_events_are_numbered [of short_exec "[sample_event, sample_event]" "''a''"]
    by (simp add: Let_def within_limits_def)
qed

text \<open>
  A handler whose wait in the thread pool timed out still occupies its thread: the run has ended,
  but a shutdown that waits will wait for the handler, and the executor's loop with it.
\<close>

lemma timed_out_call_delays_shutdown:
  assumes "\<not> he_coro he n" and "ec_sync_in_threadpool (ex_config ex)" and "ex_pool ex = Some True"
    and "call_in_pool he (Handler n) iv (snd (read_mono ex)) = (r, ex1)" and "ex_pool ex1 \<noteq> None"
    and "t < fst (read_mono ex1) - fst (read_mono ex)"
  shows "fst (run_handler he c iv (Handler n) (Some t) ex) = Some (Inl timeout_error) \<and>
    pool_waits True (snd (run_handler he c iv (Handler n) (Some t) ex))"
  using assms by (simp add: run_handler_def is_coro_def Let_def split_beta pool_waits_def) (simp add: read_mono_def)

text \<open>
  With \<open>pop_on_wait\<close> a wait that times out forgets the run it waited for, which may still be running:
  afterwards nothing is known of it under its id.
\<close>

lemma timed_out_wait_forgets_run:
  assumes "ec_pop_on_wait (ex_config ex)" and "wait_result_sync r ex = None"
  shows "fst (wait_result_sync_timed r ex) = Inl timeout_error \<and>
    get_run_state (ex_js (snd (wait_result_sync_timed r ex))) r = None \<and>
    get_future (ex_js (snd (wait_result_sync_timed r ex))) r = None"
  using assms
  by (simp add: wait_result_sync_timed_def pop_on_wait_def exec_pop_run_def split_beta js_pop_run_def
      cancel_future_def get_run_state_def get_future_def Let_def dict_simps split: option.split)

text \<open>C15: what a handler prints reaches the run's subscribers. In the context that
  \<open>begin_run\<close> gives a handler on the executor's loop, \<open>proxy_print\<close> hands an event to the
  run's emitter, and publishing it appends to every live subscription of the run one event with
  the printed text, the run's id and the invocation's session and principal.\<close>

theorem print_reaches_subscribers:
  assumes loop: "in_own_loop ex" and ok: "js_ok (ex_js ex)"
    and live: "bus_live r (js_bus (ex_js ex)) q"
  shows "\<exists>e e'. proxy_print now (run_ctx r iv flag) pv text lv src rid = Emitted (PublishTo r) e \<and>
    bus_inbox (js_bus (ex_js (publish_event (Some r) e ex))) q =
      bus_inbox (js_bus (ex_js ex)) q @ [e'] \<and>
    ev_msg e' = text \<and> ev_run_id e' = Some r \<and> ev_seq e' = Some (seq_of ex r + 1) \<and>
    ev_session_id e' = inv_session_id iv \<and> ev_principal e' = inv_principal iv"
proof -
  obtain e where p: "proxy_print now (run_ctx r iv flag) pv text lv src rid = Emitted (PublishTo r) e"
    and e: "ev_msg e = text" "ev_run_id e = Some r" "ev_seq e = None"
      "ev_session_id e = inv_session_id iv" "ev_principal e = inv_principal iv"
    by (simp add: proxy_print_def run_ctx_def Let_def attach_runtime_context_def mk_runtime_event_def)
  let ?e = "e\<lparr>ev_seq := Some (seq_of ex r + 1)\<rparr>" and ?js = "snd (next_event_seq r (ex_js ex))"
  obtain t where js: "ex_js (publish_event (Some r) e ex) = js_publish_event t (Some r) ?e ?js"
    using publish_event_js [OF loop e(3), of r] e(2) by auto
  have b: "bus_ok (js_bus ?js)" "gsubs_ok (js_gsubs ?js) (js_bus ?js)" "bus_live r (js_bus ?js) q"
    using js_okD(6,7) [OF ok] live by simp_all
  then have "q \<notin> set (js_gsubs ?js)" by (auto simp: gsubs_ok_def bus_live_def)
  then have "bus_inbox (js_bus (js_publish_event t (Some r) ?e ?js)) q =
      bus_inbox (publish t (Some r) ?e (js_bus ?js)) q"
    by (simp add: js_publish_event_def Let_def bus_inbox_def put_all_other)
  also have "\<dots> = bus_inbox (js_bus ?js) q @ [?e]"
    using bus_stream.inbox_pub [OF b(1,3), of "(t, ?e)"] by (simp add: publish_at_def)
  finally show ?thesis using p e js by auto
qed

lemma print_reaches_subscribers_witness:
  "\<exists>e e'. proxy_print 0 (run_ctx ''a'' default_invocation None) new_provider (VStr ''x'') NoLevel ''cli'' None =
      Emitted (PublishTo ''a'') e \<and> ev_msg e' = VStr ''x'' \<and>
    bus_inbox (js_bus (ex_js (publish_event (Some ''a'') e
      (snd (stream_events ''a'' None 0 sample_exec))))) 0 = [e']"
proof -
  let ?ex = "snd (stream_events ''a'' None 0 sample_exec)"
  have new: "js_ok (ex_js sample_exec)" "js_loop (ex_js sample_exec) = None"
    by (simp_all add: sample_exec_def new_executor_def Let_def init_audit_sink_def sample_config_def
        default_executor_config_def default_audit_config_def world.defs) (simp add: new_job_store_def)
  have "in_own_loop ?ex" "bus_live ''a'' (js_bus (ex_js ?ex)) 0" "bus_inbox (js_bus (ex_js ?ex)) 0 = []"
    by code_simp+
  moreover have "js_ok (ex_js ?ex)"
    using js_ok_events [OF new(1)]
    by (simp add: stream_events_def ensure_event_subscription_def Let_def split_beta new(1))
  ultimately show ?thesis
    using print_reaches_subscribers [of ?ex "''a''" 0 0 default_invocation None new_provider
        "VStr ''x''" NoLevel "''cli''" None] by auto
qed

text \<open>A handler in the thread pool does not see its run. A plain function that the default
  configuration runs in the thread pool is called without the run's context: with any two
  contexts it does and returns the same. So inside such a handler \<open>proxy_print\<close> does not know
  the run, and \<open>is_cancelled\<close> is always false.\<close>

theorem pool_handler_sees_no_context:
  assumes sync: "\<not> he_coro he n" and plain: "\<And>c iv ex aw. fst (he_call he n c iv ex) \<noteq> ReturnsAwaitable aw"
    and pool: "ec_sync_in_threadpool (ex_config ex)" "ex_pool ex = Some True"
  shows "run_handler he c1 iv (Handler n) timeout ex = run_handler he c2 iv (Handler n) timeout ex \<and>
    \<not> ctx_is_cancelled no_context js \<and>
    (\<forall>em e. proxy_print now no_context pv text lv src rid \<noteq> Emitted em e)"
proof -
  have "\<exists>e v ex1. call_in_pool he (Handler n) iv (snd (read_mono ex)) = (Raises e, ex1) \<or>
      call_in_pool he (Handler n) iv (snd (read_mono ex)) = (Returns v, ex1)"
    using plain by (auto simp: call_in_pool_def call_handler_def split_beta Let_def)
      (metis call_result.exhaust)
  moreover have "ec_sync_in_threadpool (ex_config (snd (read_mono ex)))" "ex_pool (snd (read_mono ex)) = Some True"
    using pool by (simp_all add: read_mono_def)
  ultimately have "run_handler he c1 iv (Handler n) timeout ex = run_handler he c2 iv (Handler n) timeout ex"
    using sync by (auto simp: run_handler_def is_coro_def Let_def split_beta)
  moreover have "\<not> ctx_is_cancelled no_context js" by (simp add: ctx_is_cancelled_def no_context_def)
  ultimately show ?thesis by (simp add: proxy_print_no_context split: option.split)
qed

definition sample_env :: handler_env where
  "sample_env = \<lparr>he_coro = (\<lambda>_. False),
    he_call = (\<lambda>n c iv ex. (Returns (VBool (ctx_is_cancelled c (ex_js ex))), ex)),
    he_await = (\<lambda>n c t ex. (None, ex)), he_isfuture = (\<lambda>_. False)\<rparr>"

lemma pool_handler_sees_no_context_witness:
  "run_handler sample_env (run_ctx ''a'' default_invocation (Some 0)) default_invocation (Handler 0) None sample_exec =
    run_handler sample_env no_context default_invocation (Handler 0) None sample_exec"
proof -
  have "ec_sync_in_threadpool (ex_config sample_exec)" "ex_pool sample_exec = Some True" by code_simp+
  moreover have "\<not> he_coro sample_env 0" "fst (he_call sample_env 0 c iv ex) \<noteq> ReturnsAwaitable aw" for c iv ex aw
    by (simp_all add: sample_env_def)
  ultimately show ?thesis using pool_handler_sees_no_context by blast
qed

text \<open>
  An executor that was shut down in its loop and started again keeps its thread pool, which is
  closed: every plain handler fails before it is called.
\<close>

lemma restarted_executor_refuses_plain_handlers:
  assumes "\<not> he_coro he n" and "ec_sync_in_threadpool (ex_config ex)" "ex_pool ex \<noteq> None"
    and "start lp (shutdown_end ex) = (Inr (), ex1)"
  shows "fst (run_handler he c iv (Handler n) timeout ex1) =
    Some (Inl (PyExc RuntimeErrorC ''cannot schedule new futures after shutdown''))"
proof -
  have "ex_config ex1 = ex_config ex" "ex_pool ex1 = Some False"
    using assms(3,4) by (auto simp: start_def shutdown_end_def close_audit_sink_def Let_def upd_js_def split: if_splits option.splits)
  then show ?thesis using assms(1,2) by (simp add: run_handler_def is_coro_def read_mono_def)
qed

lemma if_same_value: "x = y \<Longrightarrow> (if P then x else y) = y"
  by simp

lemma begin_run_context:
  assumes "rs_status (js_rheap (ex_js ex) a) \<noteq> CANCELLED" and "rs_run_id (js_rheap (ex_js ex) a) = r"
  shows "\<exists>c ex1. begin_run (Some a) iv ex = (Some c, ex1) \<and>
    js_rheap (ex_js ex1) = (js_rheap (ex_js ex))(a := started_run (fst (read_wall ex)) (js_rheap (ex_js ex) a)) \<and>
    js_runs (ex_js ex1) = js_runs (ex_js ex) \<and> js_futs (ex_js ex1) = js_futs (ex_js ex) \<and>
    ex_exempt ex1 = ex_exempt ex \<and> ex_loop ex1 = ex_loop ex \<and> w_cur_loop ex1 = w_cur_loop ex \<and>
    js_retain (ex_js ex1) = js_retain (ex_js ex) \<and> js_ttl (ex_js ex1) = js_ttl (ex_js ex)"
  using assms
  by (simp add: begin_run_def begin_after_check_def Let_def split_beta)

lemma conclude_run_no_cleanup:
  assumes "js_retain (ex_js ex) = None" and "js_ttl (ex_js ex) = None"
    and "run_end_of (ex_exempt ex) out = Caught st v e"
  shows "fst (conclude_run b a iv out ex) = Inr ()"
    "js_runs (ex_js (snd (conclude_run b a iv out ex))) = js_runs (ex_js ex)"
    "js_futs (ex_js (snd (conclude_run b a iv out ex))) = js_futs (ex_js ex)"
  using assms
  by (simp_all add: conclude_run_def Let_def split_beta exec_cleanup_js cleanup_def settle_run_escaped)

lemma conclude_run_cur_loop: "w_cur_loop (snd (conclude_run b a iv out ex)) = w_cur_loop ex"
proof -
  have r: "w_cur_loop (resolve_if b r v e ex) = w_cur_loop ex" for r v e ex
    by (simp add: resolve_if_def)
  have "w_cur_loop (snd (settle_run b a iv out ex)) = w_cur_loop ex"
    by (cases out) (simp_all add: settle_run_def on_success_def on_error_def Let_def r)
  then show ?thesis
    by (simp add: conclude_run_def Let_def split_beta exec_cleanup_def)
qed

lemma register_run_offline:
  assumes id: "inv_run_id iv = Some r" and noloop: "ex_loop ex = None" "w_cur_loop ex = None"
    and keep: "js_retain (ex_js ex) = None" "js_ttl (ex_js ex) = None"
  shows "get_run_state (ex_js (register_run iv ex)) r = Some (js_next (ex_js ex))"
    "js_rheap (ex_js (register_run iv ex)) (js_next (ex_js ex)) = run_state_of_invocation r iv"
    "js_futs (ex_js (register_run iv ex)) = js_futs (ex_js ex)" "ex_loop (register_run iv ex) = None"
    "w_cur_loop (register_run iv ex) = None" "ex_exempt (register_run iv ex) = ex_exempt ex"
    "js_retain (ex_js (register_run iv ex)) = None" "js_ttl (ex_js (register_run iv ex)) = None"
proof -
  have "register_run iv ex = audit_run_state (js_next (ex_js ex))
      (audit_invocation iv (ex\<lparr>ex_js := snd (create_run iv (ex_js ex))\<rparr>))"
    by (simp add: register_run_def split_beta create_run_Some [OF id])
  then show "get_run_state (ex_js (register_run iv ex)) r = Some (js_next (ex_js ex))"
    "js_rheap (ex_js (register_run iv ex)) (js_next (ex_js ex)) = run_state_of_invocation r iv"
    "js_futs (ex_js (register_run iv ex)) = js_futs (ex_js ex)" "ex_loop (register_run iv ex) = None"
    "w_cur_loop (register_run iv ex) = None" "ex_exempt (register_run iv ex) = ex_exempt ex"
    "js_retain (ex_js (register_run iv ex)) = None" "js_ttl (ex_js (register_run iv ex)) = None"
    using noloop keep by (simp_all add: get_run_state_create [OF id])
      (simp add: create_run_def id Let_def)
qed

text \<open>A pending run that is executed inline ends with its handler's classified outcome.\<close>

lemma run_inline_outcome:
  assumes id: "inv_run_id iv = Some r" and run: "get_run_state (ex_js ex) r = Some a"
      "js_rheap (ex_js ex) a = run_state_of_invocation r iv"
    and keep: "js_retain (ex_js ex) = None" "js_ttl (ex_js ex) = None"
    and handler: "\<And>c ex1. \<exists>ex2. quiet ex1 ex2 \<and>
      run_handler_inline he c iv h (timeout_seconds iv) ex1 = (Some out, ex2)"
    and caught: "run_end_of (ex_exempt ex) out = Caught st v e"
  obtains t t0 ex' where "run_inline he iv h ex = Some (Inr (), ex')"
    "run_at (ex_js ex') r = Some (finished_run t (end_run_state (Caught st v e) (started_run t0 (run_state_of_invocation r iv))))"
    "js_futs (ex_js ex') = js_futs (ex_js ex)" "ex_loop ex' = ex_loop ex" "w_cur_loop ex' = w_cur_loop ex"
proof -
  have s: "rs_status (js_rheap (ex_js ex) a) \<noteq> CANCELLED" "rs_run_id (js_rheap (ex_js ex) a) = r"
    by (simp_all add: run run_state_of_invocation_def blank_run_state_def)
  obtain c ex1 where b: "begin_run (Some a) iv ex = (Some c, ex1)"
    and f1: "js_rheap (ex_js ex1) = (js_rheap (ex_js ex))(a := started_run (fst (read_wall ex)) (js_rheap (ex_js ex) a))"
      "js_runs (ex_js ex1) = js_runs (ex_js ex)" "js_futs (ex_js ex1) = js_futs (ex_js ex)"
      "ex_exempt ex1 = ex_exempt ex" "ex_loop ex1 = ex_loop ex" "w_cur_loop ex1 = w_cur_loop ex"
      "js_retain (ex_js ex1) = js_retain (ex_js ex)" "js_ttl (ex_js ex1) = js_ttl (ex_js ex)"
    using begin_run_context [OF s, of iv] by blast
  obtain ex2 where q: "quiet ex1 ex2"
    and h: "run_handler_inline he c iv h (timeout_seconds iv) ex1 = (Some out, ex2)"
    using handler by blast
  let ?ex3 = "snd (conclude_run False a iv out ex2)"
  have f2: "ex_exempt ex2 = ex_exempt ex" "js_retain (ex_js ex2) = None" "js_ttl (ex_js ex2) = None"
    "js_runs (ex_js ex2) = js_runs (ex_js ex)" "js_futs (ex_js ex2) = js_futs (ex_js ex)"
    "ex_loop ex2 = ex_loop ex" "w_cur_loop ex2 = w_cur_loop ex" "js_rheap (ex_js ex2) = js_rheap (ex_js ex1)"
    using quiet_frame [OF q] f1 keep by simp_all
  have c2: "run_end_of (ex_exempt ex2) out = Caught st v e" using caught by (simp add: f2)
  note n3 = conclude_run_no_cleanup [OF f2(2,3) c2]
  obtain t where "js_rheap (ex_js ?ex3) = (js_rheap (ex_js ex2))
      (a := finished_run t (end_run_state (Caught st v e) (js_rheap (ex_js ex2) a)))"
    using conclude_run_rheap [of False a iv out ex2] by (auto simp: c2)
  then have at: "run_at (ex_js ?ex3) r = Some (finished_run t (end_run_state (Caught st v e)
      (started_run (fst (read_wall ex)) (run_state_of_invocation r iv))))"
    using run by (simp add: run_at_def get_run_state_def n3 f2 f1)
  have "run_inline he iv h ex = Some (Inr (), ?ex3)"
    using run(1) b h n3(1) by (simp add: run_inline_def id Let_def) (metis prod.collapse)
  then show ?thesis by (rule that [OF _ at]) (simp_all add: n3 f2 conclude_run_cur_loop)
qed

lemma wait_sync_finished:
  assumes "run_at (ex_js ex) r = Some (finished_run t (end_run_state (Caught st v e) rs))" and "rs_error rs = None"
    and "get_future (ex_js ex) r = None" and "ex_loop ex = None" and "w_cur_loop ex = None"
    and caught: "run_end_of exempt out = Caught st v e"
  shows "wait_sync_plan r ex = SyncDone out"
proof -
  have "terminal_status st" by (rule run_end_caught_status [OF caught])
  moreover have "(case e of None \<Rightarrow> Inr v | Some x \<Rightarrow> Inl x) = out"
    using caught by (auto simp: run_end_of_def split: sum.splits if_splits)
  ultimately show ?thesis
    using assms(1-5)
    by (cases e) (simp_all add: wait_sync_plan_def end_run_state_def exec_loop_running_def loop_is_running_def)
qed

lemma submit_offline:
  assumes id: "inv_run_id iv = Some r"
    and noloop: "ex_loop ex = None" "w_cur_loop ex = None"
    and keep: "js_retain (ex_js ex) = None" "js_ttl (ex_js ex) = None"
    and fut: "get_future (ex_js ex) r = None"
    and handler: "\<And>c ex1. \<exists>ex2. quiet ex1 ex2 \<and>
      run_handler_inline he c iv (handler_or_missing h) (timeout_seconds iv) ex1 = (Some out, ex2)"
    and caught: "run_end_of (ex_exempt ex) out = Caught st v e"
  shows "\<exists>ex' ex''. submit he iv h ex = Some (Inr r, iv, ex') \<and>
    status_of (ex_js ex') r = Some st \<and> wait_result_sync r ex' = Some (out, ex'')"
proof -
  let ?ex = "register_run iv ex"
  note reg = register_run_offline [OF id noloop keep]
  have "run_end_of (ex_exempt ?ex) out = Caught st v e" using caught reg by simp
  then obtain t t0 ex' where ex': "run_inline he iv (handler_or_missing h) ?ex = Some (Inr (), ex')"
    "run_at (ex_js ex') r = Some (finished_run t (end_run_state (Caught st v e) (started_run t0 (run_state_of_invocation r iv))))"
    "js_futs (ex_js ex') = js_futs (ex_js ex)" "ex_loop ex' = None" "w_cur_loop ex' = None"
    using run_inline_outcome [OF id reg(1,2,7,8) handler] reg(3-5) by metis
  have no: "\<not> exec_loop_running ?ex" using reg by (simp add: exec_loop_running_def loop_is_running_def)
  have "?ex\<lparr>ex_loop := None\<rparr> = ?ex" using reg(4) by (simp flip: reg(4))
  then have "(if ex_loop ?ex = None then ?ex\<lparr>ex_loop := w_cur_loop ?ex\<rparr> else ?ex) = ?ex"
    unfolding reg(5) by (rule if_same_value)
  then have sub: "submit he iv h ex = Some (Inr r, iv, ex')"
    unfolding submit_def assign_run_id_def id Let_def option.case prod.case
    by (simp only: no ex'(1) if_True not_False_eq_True option.case prod.case sum.case)
  have "wait_sync_plan r ex' = SyncDone out"
    by (rule wait_sync_finished [OF ex'(2) _ _ ex'(4,5) caught])
      (use fut ex'(3) in \<open>simp_all add: get_future_def started_run_def run_state_of_invocation_def blank_run_state_def\<close>)
  then show ?thesis
    using sub ex'(2) by (auto simp: wait_result_sync_def status_of_def end_run_state_status)
qed

text \<open>C7: submitting without a loop runs the handler at once, and waiting then gives its
  outcome. With no event loop, and nothing configured to clean runs up, \<open>submit\<close> returns after
  the handler has ended, and \<open>wait_result_sync\<close> returns or raises exactly what the handler
  did, for every outcome the executor classifies.\<close>

theorem inline_submit_then_wait:
  assumes ok: "js_ok (ex_js ex)" and id: "inv_run_id iv = Some r"
    and noloop: "ex_loop ex = None" "w_cur_loop ex = None"
    and keep: "js_retain (ex_js ex) = None" "js_ttl (ex_js ex) = None"
    and fut: "get_future (ex_js ex) r = None"
    and handler: "\<And>c ex1. \<exists>ex2. quiet ex1 ex2 \<and>
      run_handler_inline he c iv (handler_or_missing h) (timeout_seconds iv) ex1 = (Some out, ex2)"
    and caught: "run_end_of (ex_exempt ex) out = Caught st v e"
  shows "\<exists>iv' ex' ex''. submit he iv h ex = Some (Inr r, iv', ex') \<and>
    status_of (ex_js ex') r = Some st \<and> wait_result_sync r ex' = Some (out, ex'')"
  using submit_offline [OF id noloop keep fut handler caught] by blast

definition offline_exec :: exec where
  "offline_exec = (case new_executor 1 None (Some sample_config)
     (sample_world\<lparr>w_cur_loop := None\<rparr>) of Inr ex \<Rightarrow> ex)"

lemma inline_submit_then_wait_witness:
  "\<exists>iv' ex' ex''. submit sample_env (default_invocation\<lparr>inv_run_id := Some ''a''\<rparr>) None offline_exec =
      Some (Inr ''a'', iv', ex') \<and> status_of (ex_js ex') ''a'' = Some FAILED \<and>
    wait_result_sync ''a'' ex' =
      Some (Inl (PyExc RuntimeErrorC ''No handler provided for invocation execution''), ex'')"
proof -
  let ?e = "PyExc RuntimeErrorC ''No handler provided for invocation execution''"
  let ?iv = "default_invocation\<lparr>inv_run_id := Some ''a''\<rparr>"
  have ok: "js_ok (ex_js offline_exec)"
    by (simp add: offline_exec_def new_executor_def Let_def init_audit_sink_def sample_config_def
        default_executor_config_def default_audit_config_def world.defs)
  have f: "ex_loop offline_exec = None" "w_cur_loop offline_exec = None"
    "js_retain (ex_js offline_exec) = None" "js_ttl (ex_js offline_exec) = None"
    "get_future (ex_js offline_exec) ''a'' = None"
    "run_end_of (ex_exempt offline_exec) (Inl ?e) = Caught FAILED VNone (Some ?e)" by code_simp+
  have h: "\<exists>ex2. quiet ex1 ex2 \<and> run_handler_inline sample_env c ?iv (handler_or_missing None)
      (timeout_seconds ?iv) ex1 = (Some (Inl ?e), ex2)" for c ex1
    by (simp add: run_handler_inline_def handler_or_missing_def call_handler_def Let_def split_beta
        read_mono_def quiet_def)
  have id: "inv_run_id ?iv = Some ''a''" by simp
  show ?thesis by (rule inline_submit_then_wait [OF ok id f(1-5) h f(6)])
qed

text \<open>A misplaced wait destroys its run. With \<open>pop_on_wait\<close>, calling
  \<open>wait_result_sync\<close> from the executor's loop thread raises \<open>RuntimeError\<close> as it should,
  but the \<open>finally\<close> block then pops the run: it is forgotten while it is pending or running,
  and its pending future is cancelled under its other waiters.\<close>

theorem misplaced_wait_pops_run:
  assumes "w_cur_loop ex \<noteq> None" and "w_cur_loop ex = ex_loop ex"
    and "ec_pop_on_wait (ex_config ex)"
    and f: "get_future (ex_js ex) r = Some f" and p: "js_fheap (ex_js ex) f = FPending"
  shows "\<exists>e ex'. wait_result_sync r ex = Some (Inl e, ex') \<and> exc_cls e = RuntimeErrorC \<and>
    run_at (ex_js ex') r = None \<and> js_fheap (ex_js ex') f = FCancelled"
  using assms
  by (simp add: wait_result_sync_def wait_sync_plan_def pop_on_wait_def exec_pop_run_def split_beta
      forget_run_fheap)

lemma misplaced_wait_pops_run_witness:
  "\<exists>e ex'. wait_result_sync ''a'' (enqueue_run ''a'' default_invocation MissingHandler
      (sample_exec\<lparr>ex_config := sample_config\<lparr>ec_pop_on_wait := True\<rparr>\<rparr>)) = Some (Inl e, ex') \<and>
    run_at (ex_js ex') ''a'' = None"
proof -
  let ?ex = "enqueue_run ''a'' default_invocation MissingHandler
      (sample_exec\<lparr>ex_config := sample_config\<lparr>ec_pop_on_wait := True\<rparr>\<rparr>)"
  have "w_cur_loop ?ex \<noteq> None" "w_cur_loop ?ex = ex_loop ?ex" "ec_pop_on_wait (ex_config ?ex)"
    "get_future (ex_js ?ex) ''a'' = Some 0" "js_fheap (ex_js ?ex) 0 = FPending" by code_simp+
  then show ?thesis using misplaced_wait_pops_run [of ?ex "''a''" 0] by blast
qed

end
