(* ===== verification/ExecSystem.thy ===== *)
theory ExecSystem
  imports Executor
begin

text \<open>
  The executor as a state machine: its worker tasks, and the threads and handlers that submit,
  cancel and publish, interleaved at the awaits. The worker loop (\<open>_worker_loop\<close> and
  \<open>_execute_work_item\<close>) appears as three atomic segments: taking an item, being granted a
  lock, and finishing after the handler. What a handler does in between are other steps; the
  outcome it ends with is arbitrary.

  A state is the executor and the submissions of other threads that have registered their run
  and whose enqueueing part the loop has not run yet (\<open>submit_threadsafe\<close>).
\<close>

section \<open>The segments of the worker loop\<close>

definition set_task :: "nat \<Rightarrow> worker \<Rightarrow> exec \<Rightarrow> exec" where
  "set_task w t ex = ex\<lparr>ex_tasks := (ex_tasks ex)[w := t]\<rparr>"

definition lock_at :: "exec \<Rightarrow> string \<Rightarrow> alock" where
  "lock_at ex k = dict_get_or (ex_locks ex) k new_lock"

definition set_lock :: "string \<Rightarrow> alock \<Rightarrow> exec \<Rightarrow> exec" where
  "set_lock k l ex = ex\<lparr>ex_locks := dict_set k l (ex_locks ex)\<rparr>"

definition release_lock :: "string \<Rightarrow> exec \<Rightarrow> exec" where
  "release_lock k ex =
    (if k = [] then ex else set_lock k ((lock_at ex k)\<lparr>lk_holder := None\<rparr>) ex)"

definition item_key :: "work_item \<Rightarrow> string" where
  "item_key wi = inv_lock_key (wi_invocation wi)"

text \<open>A worker that has its lock, or needs none, begins the run or skips it.\<close>

definition start_turn :: "nat \<Rightarrow> work_item \<Rightarrow> nat option \<Rightarrow> exec \<Rightarrow> exec" where
  "start_turn w wi ro ex =
    (case begin_run ro (wi_invocation wi) ex of
       (None, ex1) \<Rightarrow> set_task w Idle (release_lock (item_key wi) ex1)
     | (Some c, ex1) \<Rightarrow> set_task w (Running wi (the ro)) ex1)"

definition take_item :: "nat \<Rightarrow> work_item \<Rightarrow> work_item list \<Rightarrow> exec \<Rightarrow> exec" where
  "take_item w wi q ex =
    (let ex1 = ex\<lparr>ex_queue := Some q\<rparr>;
         ro = Option.bind (inv_run_id (wi_invocation wi)) (get_run_state (ex_js ex1));
         k = item_key wi;
         l = lock_at ex1 k
     in if k = [] then start_turn w wi ro ex1
        else if lk_holder l = None \<and> lk_waiters l = []
        then start_turn w wi ro (set_lock k (l\<lparr>lk_holder := Some w\<rparr>) ex1)
        else set_task w (WaitLock wi ro) (set_lock k (l\<lparr>lk_waiters := lk_waiters l @ [w]\<rparr>) ex1))"

text \<open>The first waiter of a free lock wakes up.\<close>

definition lock_granted :: "nat \<Rightarrow> work_item \<Rightarrow> nat option \<Rightarrow> exec \<Rightarrow> exec" where
  "lock_granted w wi ro ex =
    (let k = item_key wi; l = lock_at ex k in
     start_turn w wi ro (set_lock k \<lparr>lk_holder = Some w, lk_waiters = tl (lk_waiters l)\<rparr> ex))"

text \<open>The handler has ended; an exception that leaves the worker loop ends the task.\<close>

definition finish_turn :: "nat \<Rightarrow> work_item \<Rightarrow> nat \<Rightarrow> pyval res \<Rightarrow> exec \<Rightarrow> exec" where
  "finish_turn w wi a out ex =
    (let (r, ex1) = conclude_run True a (wi_invocation wi) out ex
     in set_task w (case r of Inl _ \<Rightarrow> Stopped | Inr _ \<Rightarrow> Idle) (release_lock (item_key wi) ex1))"

section \<open>The step relation\<close>

type_synonym submission = "string \<times> invocation \<times> handler_ref"
type_synonym sys = "exec \<times> submission list"

fun task_item :: "worker \<Rightarrow> work_item option" where
  "task_item (WaitLock wi ro) = Some wi"
| "task_item (Running wi a) = Some wi"
| "task_item Idle = None"
| "task_item Stopped = None"

definition item_id :: "work_item \<Rightarrow> string option" where
  "item_id wi = inv_run_id (wi_invocation wi)"

definition task_id :: "worker \<Rightarrow> string option" where
  "task_id t = Option.bind (task_item t) item_id"

definition queued :: "exec \<Rightarrow> work_item list" where
  "queued ex = (case ex_queue ex of None \<Rightarrow> [] | Some q \<Rightarrow> q)"

text \<open>
  How often a run id occurs among the queued items, the workers' items and the pending
  submissions. A new run's id is one that occurs nowhere: \<open>uuid4\<close> gives such ids, and a
  caller who chooses the id is expected to.
\<close>

definition owners :: "string \<Rightarrow> sys \<Rightarrow> nat" where
  "owners r s =
    length (filter (\<lambda>wi. item_id wi = Some r) (queued (fst s))) +
    length (filter (\<lambda>t. task_id t = Some r) (ex_tasks (fst s))) +
    length (filter (\<lambda>p. fst p = r) (snd s))"

definition fresh_id :: "string \<Rightarrow> sys \<Rightarrow> bool" where
  "fresh_id r s \<longleftrightarrow> owners r s = 0 \<and> get_run_state (ex_js (fst s)) r = None"

text \<open>
  Beside the worker loop's segments and what other threads do, \<open>switched\<close> is a change of the code
  that runs, \<open>pool_used\<close> the start or the end of a call in the thread pool nobody waits for, and
  \<open>shut_end\<close> the second half of a shutdown.
\<close>

inductive exec_step :: "sys \<Rightarrow> sys \<Rightarrow> bool" where
  submitted:
    "exec_loop_running ex \<Longrightarrow> submit he iv h ex = Some (Inr r, iv1, ex') \<Longrightarrow> fresh_id r (ex, ps) \<Longrightarrow>
     exec_step (ex, ps) (ex', ps)"
| registered:
    "exec_loop_running ex \<Longrightarrow> w_cur_loop ex \<noteq> ex_loop ex \<Longrightarrow>
     assign_run_id iv ex = (r, iv1, ex1) \<Longrightarrow> fresh_id r (ex, ps) \<Longrightarrow>
     exec_step (ex, ps) (register_run iv1 ex1, ps @ [(r, iv1, h)])"
| enqueued:
    "exec_step (ex, ps @ (r, iv, h) # ps') (in_loop (enqueue_run r iv h) ex, ps @ ps')"
| taken:
    "w < length (ex_tasks ex) \<Longrightarrow> ex_tasks ex ! w = Idle \<Longrightarrow> ex_queue ex = Some (wi # q) \<Longrightarrow>
     exec_step (ex, ps) (take_item w wi q ex, ps)"
| granted:
    "w < length (ex_tasks ex) \<Longrightarrow> ex_tasks ex ! w = WaitLock wi ro \<Longrightarrow>
     lk_holder (lock_at ex (item_key wi)) = None \<Longrightarrow>
     lk_waiters (lock_at ex (item_key wi)) = w # ws \<Longrightarrow>
     exec_step (ex, ps) (lock_granted w wi ro ex, ps)"
| finished:
    "w < length (ex_tasks ex) \<Longrightarrow> ex_tasks ex ! w = Running wi a \<Longrightarrow>
     exec_step (ex, ps) (finish_turn w wi a out ex, ps)"
| cancelled: "exec_step (ex, ps) (snd (exec_cancel r ex), ps)"
| popped: "exec_step (ex, ps) (snd (exec_pop_run r ex), ps)"
| published: "exec_step (ex, ps) (publish_event ro e ex, ps)"
| called_back: "exec_step (ex, ps) (run_callback ex, ps)"
| started: "ex_loop ex \<noteq> None \<Longrightarrow> exec_step (ex, ps) (snd (start None ex), ps)"
| shut_down: "exec_step (ex, ps) (snd (shutdown_begin ex), ps)"
| switched: "exec_step (ex, ps) (ex\<lparr>w_cur_loop := c\<rparr>, ps)"
| pool_used: "exec_step (ex, ps) (ex\<lparr>ex_pool_calls := n\<rparr>, ps)"
| shut_end: "\<not> pool_waits wait ex \<Longrightarrow> exec_step (ex, ps) (shutdown_end ex, ps)"

inductive_cases exec_stepE: "exec_step s t"

text \<open>An executor as its constructor builds it.\<close>

definition sys_init :: "sys \<Rightarrow> bool" where
  "sys_init s \<longleftrightarrow> snd s = [] \<and> (\<exists>n lp cfg w. new_executor n lp cfg w = Inr (fst s))"

section \<open>Locks\<close>

text \<open>
  A lock's holder is the worker that runs a handler under its key; its waiters are the
  workers that wait for it.
\<close>

definition runs_with :: "worker list \<Rightarrow> string \<Rightarrow> nat \<Rightarrow> bool" where
  "runs_with ts k w \<longleftrightarrow> w < length ts \<and> (\<exists>wi a. ts ! w = Running wi a \<and> item_key wi = k)"

definition waits_for :: "worker list \<Rightarrow> string \<Rightarrow> nat \<Rightarrow> bool" where
  "waits_for ts k w \<longleftrightarrow> w < length ts \<and> (\<exists>wi ro. ts ! w = WaitLock wi ro \<and> item_key wi = k)"

definition locks_ok :: "worker list \<Rightarrow> (string \<Rightarrow> alock) \<Rightarrow> bool" where
  "locks_ok ts la \<longleftrightarrow>
    (\<forall>k w. k \<noteq> [] \<longrightarrow> (lk_holder (la k) = Some w \<longleftrightarrow> runs_with ts k w)) \<and>
    (\<forall>k w. k \<noteq> [] \<longrightarrow> (w \<in> set (lk_waiters (la k)) \<longleftrightarrow> waits_for ts k w)) \<and>
    (\<forall>k. distinct (lk_waiters (la k))) \<and> lk_waiters (la []) = [] \<and>
    (\<forall>w wi ro. w < length ts \<longrightarrow> ts ! w = WaitLock wi ro \<longrightarrow> item_key wi \<noteq> [])"

lemma runs_with_update:
  "w < length ts \<Longrightarrow> runs_with (ts[w := t]) k v =
    (if v = w then (\<exists>wi a. t = Running wi a \<and> item_key wi = k) else runs_with ts k v)"
  by (auto simp: runs_with_def nth_list_update)

lemma waits_for_update:
  "w < length ts \<Longrightarrow> waits_for (ts[w := t]) k v =
    (if v = w then (\<exists>wi ro. t = WaitLock wi ro \<and> item_key wi = k) else waits_for ts k v)"
  by (auto simp: waits_for_def nth_list_update)

lemma locks_okD:
  assumes "locks_ok ts la"
  shows "k \<noteq> [] \<Longrightarrow> lk_holder (la k) = Some w \<longleftrightarrow> runs_with ts k w"
    "k \<noteq> [] \<Longrightarrow> w \<in> set (lk_waiters (la k)) \<longleftrightarrow> waits_for ts k w"
    "distinct (lk_waiters (la k))" "lk_waiters (la []) = []"
    "w < length ts \<Longrightarrow> ts ! w = WaitLock wi ro \<Longrightarrow> item_key wi \<noteq> []"
  using assms by (auto simp: locks_ok_def)

lemma locks_ok_run:
  assumes ok: "locks_ok ts la" and w: "w < length ts" and idle: "ts ! w = Idle"
    and free: "item_key wi \<noteq> [] \<Longrightarrow> lk_holder (la (item_key wi)) = None"
    and la': "\<And>k. la' k = (if k = item_key wi \<and> k \<noteq> [] then (la k)\<lparr>lk_holder := Some w\<rparr> else la k)"
  shows "locks_ok (ts[w := Running wi a]) la'"
proof -
  have none: "item_key wi \<noteq> [] \<Longrightarrow> \<not> runs_with ts (item_key wi) v" for v
    using locks_okD(1) [OF ok] free by (metis option.distinct(1))
  have "\<not> waits_for ts k w" "\<not> runs_with ts k w" for k
    using idle by (auto simp: waits_for_def runs_with_def)
  then show ?thesis
    using ok none w unfolding locks_ok_def la'
    by (auto simp: runs_with_update waits_for_update nth_list_update)
qed

lemma locks_ok_wait:
  assumes ok: "locks_ok ts la" and w: "w < length ts" and idle: "ts ! w = Idle"
    and k: "item_key wi \<noteq> []"
    and la': "\<And>k. la' k = (if k = item_key wi then (la k)\<lparr>lk_waiters := lk_waiters (la k) @ [w]\<rparr> else la k)"
  shows "locks_ok (ts[w := WaitLock wi ro]) la'"
proof -
  have no: "\<not> waits_for ts k w" "\<not> runs_with ts k w" for k
    using idle by (auto simp: waits_for_def runs_with_def)
  then have "w \<notin> set (lk_waiters (la (item_key wi)))"
    using locks_okD(2) [OF ok k] by blast
  then show ?thesis
    using ok no w k unfolding locks_ok_def la'
    by (auto simp: runs_with_update waits_for_update nth_list_update)
qed

lemma locks_ok_grant:
  assumes ok: "locks_ok ts la" and w: "w < length ts" and wt: "ts ! w = WaitLock wi ro"
    and free: "lk_holder (la (item_key wi)) = None" and ws: "lk_waiters (la (item_key wi)) = w # ws"
    and la': "\<And>k. la' k = (if k = item_key wi then \<lparr>lk_holder = h, lk_waiters = ws\<rparr> else la k)"
    and t: "t = Running wi a \<and> h = Some w \<or> t = Idle \<and> h = None"
  shows "locks_ok (ts[w := t]) la'"
proof -
  have k: "item_key wi \<noteq> []" using locks_okD(5) [OF ok w wt] .
  have none: "\<not> runs_with ts (item_key wi) v" for v
    using locks_okD(1) [OF ok k] free by (metis option.distinct(1))
  have no: "\<not> runs_with ts k' w" "k' \<noteq> item_key wi \<Longrightarrow> \<not> waits_for ts k' w" for k'
    using wt by (auto simp: runs_with_def waits_for_def)
  have wset: "waits_for ts (item_key wi) v \<longleftrightarrow> v = w \<or> v \<in> set ws" for v
    using locks_okD(2) [OF ok k, of v] ws by auto
  have "w \<notin> set ws" "distinct ws" using locks_okD(3) [OF ok, of "item_key wi"] ws by auto
  then show ?thesis
    using ok none no w k t wset unfolding locks_ok_def la'
    by (auto simp: runs_with_update waits_for_update nth_list_update)
qed

lemma locks_ok_release:
  assumes ok: "locks_ok ts la" and w: "w < length ts" and run: "ts ! w = Running wi a"
    and la': "\<And>k. la' k = (if k = item_key wi \<and> k \<noteq> [] then (la k)\<lparr>lk_holder := None\<rparr> else la k)"
    and t: "t = Idle \<or> t = Stopped"
  shows "locks_ok (ts[w := t]) la'"
proof -
  have rw: "runs_with ts (item_key wi) w" using run w by (simp add: runs_with_def)
  have one: "item_key wi \<noteq> [] \<Longrightarrow> runs_with ts (item_key wi) v \<Longrightarrow> v = w" for v
    using locks_okD(1) [OF ok] rw by (metis option.inject)
  have no: "\<not> waits_for ts k w" "k \<noteq> item_key wi \<Longrightarrow> \<not> runs_with ts k w" for k
    using run by (auto simp: waits_for_def runs_with_def)
  show ?thesis
    using ok one no w t unfolding locks_ok_def la'
    by (auto simp: runs_with_update waits_for_update nth_list_update)
qed

lemma locks_ok_append:
  assumes "locks_ok ts la" shows "locks_ok (ts @ replicate n Idle) la"
proof -
  have "runs_with (ts @ replicate n Idle) k w = runs_with ts k w"
    "waits_for (ts @ replicate n Idle) k w = waits_for ts k w" for k w
    by (auto simp: runs_with_def waits_for_def nth_append)
  with assms show ?thesis by (auto simp: locks_ok_def nth_append)
qed

lemma cancel_task_idem [simp]: "cancel_task (cancel_task t) = cancel_task t"
  by (cases t) simp_all

lemma cancel_fold:
  "length (fold (\<lambda>w ts. ts[w := cancel_task (ts ! w)]) ws ts) = length ts"
  "w < length ts \<Longrightarrow> fold (\<lambda>w ts. ts[w := cancel_task (ts ! w)]) ws ts ! w =
    (if w \<in> set ws then cancel_task (ts ! w) else ts ! w)"
proof -
  show "length (fold (\<lambda>w ts. ts[w := cancel_task (ts ! w)]) ws ts) = length ts" for ts
    by (induction ws arbitrary: ts) simp_all
  show "w < length ts \<Longrightarrow> fold (\<lambda>w ts. ts[w := cancel_task (ts ! w)]) ws ts ! w =
      (if w \<in> set ws then cancel_task (ts ! w) else ts ! w)"
  proof (induction ws arbitrary: ts)
    case (Cons v ws)
    then show ?case by (cases "v = w") simp_all
  qed simp
qed

lemma cancel_task_iff [simp]:
  "cancel_task t = Running wi a \<longleftrightarrow> t = Running wi a" "cancel_task t \<noteq> WaitLock wi ro"
  by (cases t; simp)+

lemma locks_ok_cancel:
  assumes ok: "locks_ok ts la"
    and ts': "length ts' = length ts"
      "\<And>w. w < length ts \<Longrightarrow> ts' ! w = (if w \<in> set ws then cancel_task (ts ! w) else ts ! w)"
    and la': "\<And>k. la' k = (la k)\<lparr>lk_waiters := filter (\<lambda>w. w \<notin> set ws) (lk_waiters (la k))\<rparr>"
  shows "locks_ok ts' la'"
proof -
  have "runs_with ts' k w = runs_with ts k w"
    "waits_for ts' k w = (waits_for ts k w \<and> w \<notin> set ws)" for k w
    using ts' by (auto simp: runs_with_def waits_for_def split: if_splits)
  with ok ts' show ?thesis
    unfolding locks_ok_def la' by auto
qed

section \<open>Runs, items and their owners\<close>

definition waiting :: "run_status \<Rightarrow> bool" where
  "waiting st \<longleftrightarrow> st \<in> {PENDING, CANCELLED}"

definition obj_ok :: "job_store \<Rightarrow> work_item \<Rightarrow> nat \<Rightarrow> bool" where
  "obj_ok js wi a \<longleftrightarrow> a < js_next js \<and> item_id wi = Some (rs_run_id (js_rheap js a))"

definition task_ok :: "job_store \<Rightarrow> worker \<Rightarrow> bool" where
  "task_ok js t \<longleftrightarrow>
    (\<forall>wi a. t = Running wi a \<longrightarrow> obj_ok js wi a \<and> rs_status (js_rheap js a) = RUNNING) \<and>
    (\<forall>wi ro. t = WaitLock wi ro \<longrightarrow> item_id wi \<noteq> None \<and>
       (\<forall>a. ro = Some a \<longrightarrow> obj_ok js wi a \<and> waiting (rs_status (js_rheap js a))))"

definition id_ok :: "job_store \<Rightarrow> string option \<Rightarrow> bool" where
  "id_ok js i \<longleftrightarrow> i \<noteq> None \<and>
    (\<forall>a. get_run_state js (the i) = Some a \<longrightarrow> waiting (rs_status (js_rheap js a)))"

definition runs_ok :: "sys \<Rightarrow> bool" where
  "runs_ok s \<longleftrightarrow>
    js_ok (ex_js (fst s)) \<and>
    (\<forall>w < length (ex_tasks (fst s)). task_ok (ex_js (fst s)) (ex_tasks (fst s) ! w)) \<and>
    (\<forall>wi \<in> set (queued (fst s)). id_ok (ex_js (fst s)) (item_id wi)) \<and>
    (\<forall>p \<in> set (snd s). id_ok (ex_js (fst s)) (Some (fst p)) \<and> inv_run_id (fst (snd p)) = Some (fst p)) \<and>
    (\<forall>r. owners r s \<le> 1)"

definition sys_inv :: "sys \<Rightarrow> bool" where
  "sys_inv s \<longleftrightarrow> locks_ok (ex_tasks (fst s)) (lock_at (fst s)) \<and> runs_ok s"

lemma runs_okD:
  assumes "runs_ok (ex, ps)"
  shows "js_ok (ex_js ex)"
    "w < length (ex_tasks ex) \<Longrightarrow> task_ok (ex_js ex) (ex_tasks ex ! w)"
    "wi \<in> set (queued ex) \<Longrightarrow> id_ok (ex_js ex) (item_id wi)"
    "(r, iv, h) \<in> set ps \<Longrightarrow> id_ok (ex_js ex) (Some r)"
    "(r, iv, h) \<in> set ps \<Longrightarrow> inv_run_id iv = Some r"
    "owners r (ex, ps) \<le> 1"
  using assms by (auto simp: runs_ok_def)

subsection \<open>Counting owners\<close>

lemma filter_update:
  "w < length xs \<Longrightarrow> length (filter P (xs[w := x])) + of_bool (P (xs ! w)) =
    length (filter P xs) + of_bool (P x)"
proof (induction xs arbitrary: w)
  case (Cons y ys)
  then show ?case by (cases w) auto
qed simp

lemma filter_length_0: "length (filter P xs) = 0 \<longleftrightarrow> (\<forall>x \<in> set xs. \<not> P x)"
  by (simp add: filter_empty_conv)

lemma owners_update:
  assumes "w < length (ex_tasks ex)" and "ex_tasks ex' = (ex_tasks ex)[w := t]"
    and "queued ex' = queued ex"
  shows "owners r (ex', ps) + of_bool (task_id (ex_tasks ex ! w) = Some r) =
    owners r (ex, ps) + of_bool (task_id t = Some r)"
  using filter_update [OF assms(1), of "\<lambda>t. task_id t = Some r" t] assms(2,3)
  by (simp add: owners_def)

lemma owner_task_unique:
  assumes "owners r (ex, ps) \<le> 1" and w: "w < length (ex_tasks ex)"
    and "task_id (ex_tasks ex ! w) = Some r"
  shows "v < length (ex_tasks ex) \<Longrightarrow> v \<noteq> w \<Longrightarrow> task_id (ex_tasks ex ! v) \<noteq> Some r"
    "wi \<in> set (queued ex) \<Longrightarrow> item_id wi \<noteq> Some r" "p \<in> set ps \<Longrightarrow> fst p \<noteq> r"
proof -
  let ?P = "\<lambda>t. task_id t = Some r"
  have "length (filter ?P ((ex_tasks ex)[w := Idle])) + 1 = length (filter ?P (ex_tasks ex))"
    using filter_update [OF w, of ?P Idle] assms(3) by (simp add: task_id_def)
  with assms(1) have z: "length (filter ?P ((ex_tasks ex)[w := Idle])) = 0"
    "length (filter (\<lambda>wi. item_id wi = Some r) (queued ex)) = 0"
    "length (filter (\<lambda>p. fst p = r) ps) = 0"
    unfolding owners_def fst_conv snd_conv by linarith+
  show "wi \<in> set (queued ex) \<Longrightarrow> item_id wi \<noteq> Some r" "p \<in> set ps \<Longrightarrow> fst p \<noteq> r"
    using z(2,3) unfolding filter_length_0 by auto
  assume "v < length (ex_tasks ex)" "v \<noteq> w"
  then have "ex_tasks ex ! v \<in> set ((ex_tasks ex)[w := Idle])"
    by (metis length_list_update nth_list_update_neq nth_mem)
  then show "task_id (ex_tasks ex ! v) \<noteq> Some r" using z(1) unfolding filter_length_0 by blast
qed

lemma owner_queue_unique:
  assumes "owners r (ex, ps) \<le> 1" and q: "ex_queue ex = Some (wi # q)" and "item_id wi = Some r"
  shows "v < length (ex_tasks ex) \<Longrightarrow> task_id (ex_tasks ex ! v) \<noteq> Some r"
    "wi' \<in> set q \<Longrightarrow> item_id wi' \<noteq> Some r" "p \<in> set ps \<Longrightarrow> fst p \<noteq> r"
proof -
  have z: "length (filter (\<lambda>t. task_id t = Some r) (ex_tasks ex)) = 0"
    "length (filter (\<lambda>wi. item_id wi = Some r) q) = 0"
    "length (filter (\<lambda>p. fst p = r) ps) = 0"
    using assms by (simp_all add: owners_def queued_def)
  then show "v < length (ex_tasks ex) \<Longrightarrow> task_id (ex_tasks ex ! v) \<noteq> Some r"
    "wi' \<in> set q \<Longrightarrow> item_id wi' \<noteq> Some r" "p \<in> set ps \<Longrightarrow> fst p \<noteq> r"
    unfolding filter_length_0 by auto
qed

subsection \<open>Changing one run state object\<close>

text \<open>
  \<open>run_change js js' a\<close>: between \<open>js\<close> and \<open>js'\<close> at most the run state object at \<open>a\<close>
  was written, its id kept, and runs may have been forgotten but none was added.
\<close>

definition run_change :: "job_store \<Rightarrow> job_store \<Rightarrow> nat \<Rightarrow> bool" where
  "run_change js js' a \<longleftrightarrow>
    (\<forall>b. b \<noteq> a \<longrightarrow> js_rheap js' b = js_rheap js b) \<and>
    rs_run_id (js_rheap js' a) = rs_run_id (js_rheap js a) \<and>
    js_next js \<le> js_next js' \<and>
    (\<forall>r b. get_run_state js' r = Some b \<longrightarrow> get_run_state js r = Some b) \<and>
    (js_ok js \<longrightarrow> js_ok js')"

lemma run_change_refl [simp]: "run_change js js a"
  by (simp add: run_change_def)

lemma run_change_quiet: "js_quiet js js' \<Longrightarrow> run_change js js' a"
  by (simp add: run_change_def js_quiet_def get_run_state_def)

lemma task_ok_change:
  assumes "task_ok js t" and "run_change js js' a"
    and "task_id t \<noteq> Some (rs_run_id (js_rheap js a)) \<or> js_rheap js' a = js_rheap js a"
  shows "task_ok js' t"
proof -
  have obj: "obj_ok js' wi b \<and> js_rheap js' b = js_rheap js b"
    if "obj_ok js wi b" and "task_id t = item_id wi" for wi b
  proof -
    have "js_rheap js' b = js_rheap js b"
      using that assms(2,3) by (cases "b = a") (auto simp: obj_ok_def run_change_def)
    with that assms(2) show ?thesis by (auto simp: obj_ok_def run_change_def)
  qed
  show ?thesis
  proof (cases t)
    case (WaitLock wi ro)
    with assms(1) obj [of wi] show ?thesis by (auto simp: task_ok_def task_id_def)
  next
    case (Running wi b)
    with assms(1) obj [of wi b] show ?thesis by (auto simp: task_ok_def task_id_def)
  qed (simp_all add: task_ok_def)
qed

lemma id_ok_change:
  assumes "id_ok js i" and ch: "run_change js js' a" and ok: "js_ok js"
    and "i \<noteq> Some (rs_run_id (js_rheap js a)) \<or> js_rheap js' a = js_rheap js a"
  shows "id_ok js' i"
proof -
  obtain r where r: "i = Some r" using assms(1) by (auto simp: id_ok_def)
  have "waiting (rs_status (js_rheap js' b))" if "get_run_state js' r = Some b" for b
  proof -
    have b: "get_run_state js r = Some b" using that ch by (auto simp: run_change_def)
    then have w: "waiting (rs_status (js_rheap js b))" using assms(1) by (simp add: id_ok_def r)
    have "rs_run_id (js_rheap js b) = r" using js_okD(10) [OF ok] b by (simp add: get_run_state_def)
    then have "b = a \<Longrightarrow> js_rheap js' a = js_rheap js a" using assms(4) by (auto simp: r)
    with w ch show ?thesis by (cases "b = a") (auto simp: run_change_def)
  qed
  then show ?thesis by (simp add: id_ok_def r)
qed

text \<open>A step that moves no item and writes no object that an item refers to.\<close>

lemma runs_ok_still:
  assumes ok: "runs_ok (ex, ps)" and ch: "run_change (ex_js ex) (ex_js ex') a"
    and same: "js_rheap (ex_js ex') a = js_rheap (ex_js ex) a"
    and "ex_tasks ex' = ex_tasks ex" and "queued ex' = queued ex"
  shows "runs_ok (ex', ps)"
proof -
  have "js_ok (ex_js ex')" using ch runs_okD(1) [OF ok] by (simp add: run_change_def)
  then show ?thesis
    using ok same assms(4,5) task_ok_change [OF _ ch] id_ok_change [OF _ ch runs_okD(1) [OF ok]]
    by (auto simp: runs_ok_def owners_def)
qed

lemma runs_ok_quiet: "runs_ok (ex, ps) \<Longrightarrow> quiet ex ex' \<Longrightarrow> runs_ok (ex', ps)"
  by (rule runs_ok_still [of ex ps ex' 0])
    (auto simp: quiet_frame queued_def, auto simp: quiet_def intro: run_change_quiet)

lemma locks_ok_quiet:
  "locks_ok (ex_tasks ex) (lock_at ex) \<Longrightarrow> quiet ex ex' \<Longrightarrow> locks_ok (ex_tasks ex') (lock_at ex')"
  by (simp add: quiet_frame lock_at_def [abs_def])

lemma sys_inv_quiet: "sys_inv (ex, ps) \<Longrightarrow> quiet ex ex' \<Longrightarrow> sys_inv (ex', ps)"
  by (auto simp: sys_inv_def intro: runs_ok_quiet locks_ok_quiet)

section \<open>The worker's segments keep the invariant\<close>

lemma set_task_simps [simp]:
  "ex_tasks (set_task w t ex) = (ex_tasks ex)[w := t]" "ex_queue (set_task w t ex) = ex_queue ex"
  "ex_js (set_task w t ex) = ex_js ex" "ex_locks (set_task w t ex) = ex_locks ex"
  "lock_at (set_task w t ex) k = lock_at ex k" "queued (set_task w t ex) = queued ex"
  by (simp_all add: set_task_def lock_at_def queued_def)

lemma set_lock_simps [simp]:
  "ex_tasks (set_lock k l ex) = ex_tasks ex" "ex_queue (set_lock k l ex) = ex_queue ex"
  "ex_js (set_lock k l ex) = ex_js ex" "queued (set_lock k l ex) = queued ex"
  "lock_at (set_lock k l ex) k' = (if k' = k then l else lock_at ex k')"
  "ex_exempt (set_lock k l ex) = ex_exempt ex"
  by (simp_all add: set_lock_def lock_at_def queued_def dict_simps)

lemma release_lock_simps [simp]:
  "ex_tasks (release_lock k ex) = ex_tasks ex" "ex_queue (release_lock k ex) = ex_queue ex"
  "ex_js (release_lock k ex) = ex_js ex" "queued (release_lock k ex) = queued ex"
  "lock_at (release_lock k ex) k' =
    (if k' = k \<and> k' \<noteq> [] then (lock_at ex k')\<lparr>lk_holder := None\<rparr> else lock_at ex k')"
  by (simp_all add: release_lock_def)

lemma set_queue_simps [simp]:
  "queued (ex\<lparr>ex_queue := q\<rparr>) = (case q of None \<Rightarrow> [] | Some xs \<Rightarrow> xs)"
  "lock_at (ex\<lparr>ex_queue := q\<rparr>) k = lock_at ex k"
  by (simp_all add: queued_def lock_at_def)

lemma started_run_simps [simp]:
  "rs_status (started_run t rs) = RUNNING" "rs_run_id (started_run t rs) = rs_run_id rs"
  by (simp_all add: started_run_def)

lemma start_turn_cases:
  obtains (skip) "ro = None \<or> rs_status (js_rheap (ex_js ex) (the ro)) = CANCELLED"
      "start_turn w wi ro ex = set_task w Idle (release_lock (item_key wi) ex)"
  | (run) a ex1 t where "ro = Some a" "rs_status (js_rheap (ex_js ex) a) \<noteq> CANCELLED"
      "start_turn w wi ro ex = set_task w (Running wi a) ex1"
      "ex_tasks ex1 = ex_tasks ex" "queued ex1 = queued ex" "lock_at ex1 = lock_at ex"
      "js_rheap (ex_js ex1) = (js_rheap (ex_js ex))(a := started_run t (js_rheap (ex_js ex) a))"
      "run_change (ex_js ex) (ex_js ex1) a" "js_next (ex_js ex1) = js_next (ex_js ex)"
proof (cases "ro = None \<or> rs_status (js_rheap (ex_js ex) (the ro)) = CANCELLED")
  case True
  then show ?thesis by (intro skip) (simp_all add: start_turn_def begin_run_skip)
next
  case False
  then obtain a where a: "ro = Some a" "rs_status (js_rheap (ex_js ex) a) \<noteq> CANCELLED" by auto
  from begin_run_starts [OF a(2), of "wi_invocation wi"] obtain c ex1 where
    b: "begin_run (Some a) (wi_invocation wi) ex = (Some c, ex1)"
      "ex_tasks ex1 = ex_tasks ex" "ex_queue ex1 = ex_queue ex" "ex_locks ex1 = ex_locks ex"
      "js_rheap (ex_js ex1) = (js_rheap (ex_js ex))(a := started_run (fst (read_wall ex)) (js_rheap (ex_js ex) a))"
      "js_runs (ex_js ex1) = js_runs (ex_js ex)" "js_next (ex_js ex1) = js_next (ex_js ex)"
      "js_ok (ex_js ex) \<Longrightarrow> js_ok (ex_js ex1)"
    by metis
  show ?thesis
    using a b by (intro run [of a ex1])
      (simp_all add: start_turn_def queued_def lock_at_def [abs_def] run_change_def get_run_state_def)
qed

lemma runs_ok_turn:
  assumes ok: "runs_ok (ex, ps)" and w: "w < length (ex_tasks ex)"
    and ch: "run_change (ex_js ex) (ex_js ex') a"
    and ts: "ex_tasks ex' = (ex_tasks ex)[w := t]" and q: "set (queued ex') \<subseteq> set (queued ex)"
    and own: "\<And>r. owners r (ex', ps) \<le> 1" and t: "task_ok (ex_js ex') t"
    and alone: "\<And>v. v < length (ex_tasks ex) \<Longrightarrow> v \<noteq> w \<Longrightarrow>
        task_id (ex_tasks ex ! v) \<noteq> Some (rs_run_id (js_rheap (ex_js ex) a))"
      "\<And>wi. wi \<in> set (queued ex') \<Longrightarrow> item_id wi \<noteq> Some (rs_run_id (js_rheap (ex_js ex) a))"
      "\<And>p. p \<in> set ps \<Longrightarrow> fst p \<noteq> rs_run_id (js_rheap (ex_js ex) a)"
  shows "runs_ok (ex', ps)"
proof -
  have "js_ok (ex_js ex')" using ch runs_okD(1) [OF ok] by (simp add: run_change_def)
  moreover have "task_ok (ex_js ex') (ex_tasks ex' ! v)" if "v < length (ex_tasks ex')" for v
    using that task_ok_change [OF runs_okD(2) [OF ok] ch] alone(1) t
    by (cases "v = w") (simp_all add: ts)
  moreover have "id_ok (ex_js ex') (item_id wi)" if "wi \<in> set (queued ex')" for wi
    using that q id_ok_change [OF runs_okD(3) [OF ok] ch runs_okD(1) [OF ok]] alone(2) by blast
  moreover have "id_ok (ex_js ex') (Some (fst p)) \<and> inv_run_id (fst (snd p)) = Some (fst p)"
    if "p \<in> set ps" for p
  proof -
    obtain r iv h where p: "p = (r, iv, h)" by (cases p) auto
    with that have "id_ok (ex_js ex) (Some r)" "inv_run_id iv = Some r"
      using runs_okD(4,5) [OF ok] by blast+
    then show ?thesis
      using id_ok_change [OF _ ch runs_okD(1) [OF ok]] alone(3) [OF that] by (simp add: p)
  qed
  ultimately show ?thesis using own by (simp add: runs_ok_def)
qed

lemma runs_ok_drop:
  assumes ok: "runs_ok (ex, ps)" and js: "ex_js ex' = ex_js ex"
    and ts: "ex_tasks ex' = (ex_tasks ex)[w := Idle]" and q: "set (queued ex') \<subseteq> set (queued ex)"
    and own: "\<And>r. owners r (ex', ps) \<le> 1"
  shows "runs_ok (ex', ps)"
proof -
  have "task_ok (ex_js ex) (ex_tasks ex' ! v)" if "v < length (ex_tasks ex')" for v
    using that runs_okD(2) [OF ok] by (cases "v = w") (simp_all add: ts task_ok_def)
  then show ?thesis
    using ok q own by (auto simp: runs_ok_def js)
qed

lemma start_turn_runs_ok:
  assumes ok: "runs_ok (ex, ps)" and w: "w < length (ex_tasks ex)"
    and L: "ex_js exL = ex_js ex" "ex_tasks exL = ex_tasks ex" "set (queued exL) \<subseteq> set (queued ex)"
    and own: "\<And>r. owners r (exL, ps) + of_bool (item_id wi = Some r) \<le>
        1 + of_bool (task_id (ex_tasks ex ! w) = Some r)"
    and ro: "\<And>a. ro = Some a \<Longrightarrow> obj_ok (ex_js ex) wi a"
    and alone: "\<And>r v. item_id wi = Some r \<Longrightarrow> v < length (ex_tasks ex) \<Longrightarrow> v \<noteq> w \<Longrightarrow>
        task_id (ex_tasks ex ! v) \<noteq> Some r"
      "\<And>r wi'. item_id wi = Some r \<Longrightarrow> wi' \<in> set (queued exL) \<Longrightarrow> item_id wi' \<noteq> Some r"
      "\<And>r p. item_id wi = Some r \<Longrightarrow> p \<in> set ps \<Longrightarrow> fst p \<noteq> r"
  shows "runs_ok (start_turn w wi ro exL, ps)"
proof -
  have ownU: "owners r (ex', ps) \<le> 1"
    if "ex_tasks ex' = (ex_tasks exL)[w := t]" "queued ex' = queued exL"
      "task_id t = None \<or> task_id t = item_id wi" for ex' t r
  proof -
    have "owners r (ex', ps) + of_bool (task_id (ex_tasks ex ! w) = Some r) =
        owners r (exL, ps) + of_bool (task_id t = Some r)"
      using owners_update [of w exL ex' t r ps] that(1,2) w by (simp add: L)
    with own [of r] that(3) show ?thesis by (auto simp: of_bool_def split: if_splits)
  qed
  show ?thesis
  proof (rule start_turn_cases [of ro exL w wi])
    let ?ex' = "set_task w Idle (release_lock (item_key wi) exL)"
    assume "start_turn w wi ro exL = ?ex'"
    moreover have "runs_ok (?ex', ps)"
    proof -
      have "owners r (?ex', ps) \<le> 1" for r
        by (rule ownU [where t = Idle]) (simp_all add: task_id_def)
      then show ?thesis
        using L by (intro runs_ok_drop [OF ok]) simp_all
    qed
    ultimately show ?thesis by simp
  next
    fix a ex1 t
    assume a: "ro = Some a" and eq: "start_turn w wi ro exL = set_task w (Running wi a) ex1"
      and f: "ex_tasks ex1 = ex_tasks exL" "queued ex1 = queued exL"
      and h: "js_rheap (ex_js ex1) = (js_rheap (ex_js exL))(a := started_run t (js_rheap (ex_js exL) a))"
      and ch: "run_change (ex_js exL) (ex_js ex1) a" and n: "js_next (ex_js ex1) = js_next (ex_js exL)"
    have id: "item_id wi = Some (rs_run_id (js_rheap (ex_js ex) a))" and "a < js_next (ex_js ex)"
      using ro [OF a] by (simp_all add: obj_ok_def)
    then have "task_ok (ex_js ex1) (Running wi a)"
      by (simp add: task_ok_def obj_ok_def h L n)
    moreover have "owners r (set_task w (Running wi a) ex1, ps) \<le> 1" for r
      by (rule ownU [where t = "Running wi a"]) (simp_all add: f task_id_def)
    ultimately show ?thesis
      unfolding eq
    proof (intro runs_ok_turn [OF ok w, where a = a and t = "Running wi a"], goal_cases)
      case 1
      show ?case using ch by (simp add: L(1))
    next
      case 3
      show ?case using L(3) by (simp add: f)
    next
      case (7 wi')
      then show ?case using alone(2) [OF id] by (simp add: f)
    qed (simp_all add: f L(2) alone(1,3) [OF id])
  qed
qed

text \<open>Taking an item: the new worker state holds the item, which has left the queue.\<close>

lemma taken_ro:
  assumes ok: "runs_ok (ex, ps)" and mem: "wi \<in> set (queued ex)"
    and ro: "Option.bind (inv_run_id (wi_invocation wi)) (get_run_state (ex_js ex)) = Some a"
  shows "obj_ok (ex_js ex) wi a \<and> waiting (rs_status (js_rheap (ex_js ex) a))"
proof -
  obtain r where r: "inv_run_id (wi_invocation wi) = Some r" "get_run_state (ex_js ex) r = Some a"
    using ro by (auto simp: bind_eq_Some_conv)
  have "rs_run_id (js_rheap (ex_js ex) a) = r" "a < js_next (ex_js ex)"
    using js_okD(1,10) [OF runs_okD(1) [OF ok]] r(2)
    by (auto simp: get_run_state_def dest: addr_ok_less)
  moreover have "id_ok (ex_js ex) (Some r)"
    using runs_okD(3) [OF ok mem] r(1) by (simp add: item_id_def)
  ultimately show ?thesis using r by (simp add: obj_ok_def item_id_def id_ok_def)
qed

lemma runs_ok_wait:
  assumes ok: "runs_ok (ex, ps)" and w: "w < length (ex_tasks ex)" "ex_tasks ex ! w = Idle"
    and q: "ex_queue ex = Some (wi # q)"
    and ex': "ex_js ex' = ex_js ex" "ex_tasks ex' = (ex_tasks ex)[w := WaitLock wi ro]" "queued ex' = q"
    and ro: "\<And>a. ro = Some a \<Longrightarrow> obj_ok (ex_js ex) wi a \<and> waiting (rs_status (js_rheap (ex_js ex) a))"
  shows "runs_ok (ex', ps)"
proof -
  let ?ex1 = "ex\<lparr>ex_queue := Some q\<rparr>"
  have mem: "wi \<in> set (queued ex)" and sub: "set q \<subseteq> set (queued ex)" using q by (auto simp: queued_def)
  have "item_id wi \<noteq> None" using runs_okD(3) [OF ok mem] by (simp add: id_ok_def)
  then have "task_ok (ex_js ex) (WaitLock wi ro)" using ro by (auto simp: task_ok_def)
  then have "task_ok (ex_js ex) (ex_tasks ex' ! v)" if "v < length (ex_tasks ex')" for v
    using that runs_okD(2) [OF ok] by (cases "v = w") (simp_all add: ex')
  moreover have "owners r (ex', ps) \<le> 1" for r
  proof -
    have "owners r (ex', ps) = owners r (?ex1, ps) + of_bool (item_id wi = Some r)"
      using owners_update [of w ?ex1 ex' "WaitLock wi ro" r ps] w by (simp add: ex' task_id_def)
    moreover have "owners r (?ex1, ps) + of_bool (item_id wi = Some r) = owners r (ex, ps)"
      by (simp add: owners_def q queued_def)
    ultimately show ?thesis using runs_okD(6) [OF ok, of r] by linarith
  qed
  ultimately show ?thesis
    using ok sub by (auto simp: runs_ok_def ex')
qed

lemma runs_ok_take:
  assumes ok: "runs_ok (ex, ps)" and w: "w < length (ex_tasks ex)" "ex_tasks ex ! w = Idle"
    and q: "ex_queue ex = Some (wi # q)"
  shows "runs_ok (take_item w wi q ex, ps)"
proof -
  let ?ex1 = "ex\<lparr>ex_queue := Some q\<rparr>"
  let ?ro = "Option.bind (inv_run_id (wi_invocation wi)) (get_run_state (ex_js ex))"
  have mem: "wi \<in> set (queued ex)" and sub: "set q \<subseteq> set (queued ex)" using q by (auto simp: queued_def)
  have start: "runs_ok (start_turn w wi ?ro exL, ps)"
    if L: "ex_js exL = ex_js ex" "ex_tasks exL = ex_tasks ex" "queued exL = q" for exL
  proof (rule start_turn_runs_ok [OF ok w(1) L(1,2)])
    show "owners r (exL, ps) + of_bool (item_id wi = Some r)
        \<le> 1 + of_bool (task_id (ex_tasks ex ! w) = Some r)" for r
    proof -
      have "queued ex = wi # q" by (simp add: queued_def q)
      then have "owners r (exL, ps) + of_bool (item_id wi = Some r) = owners r (ex, ps)"
        unfolding owners_def fst_conv snd_conv L(2,3) by simp
      with runs_okD(6) [OF ok, of r] show ?thesis by linarith
    qed
    show "set (queued exL) \<subseteq> set (queued ex)" using sub by (simp add: L)
    show "obj_ok (ex_js ex) wi a" if "?ro = Some a" for a
      using taken_ro [OF ok mem that] by simp
    fix r assume r: "item_id wi = Some r"
    note u = owner_queue_unique [OF runs_okD(6) [OF ok] q r]
    show "v < length (ex_tasks ex) \<Longrightarrow> task_id (ex_tasks ex ! v) \<noteq> Some r" for v by (rule u(1))
    show "wi' \<in> set (queued exL) \<Longrightarrow> item_id wi' \<noteq> Some r" for wi' using u(2) by (simp add: L)
    show "p \<in> set ps \<Longrightarrow> fst p \<noteq> r" for p by (rule u(3))
  qed
  have wait: "runs_ok (set_task w (WaitLock wi ?ro) exL, ps)"
    if L: "ex_js exL = ex_js ex" "ex_tasks exL = ex_tasks ex" "queued exL = q" for exL
    by (rule runs_ok_wait [OF ok w q]) (simp_all add: L, use taken_ro [OF ok mem] in blast)
  show ?thesis
    unfolding take_item_def Let_def by (auto intro!: start wait)
qed

lemma locks_ok_take:
  assumes ok: "locks_ok (ex_tasks ex) (lock_at ex)" and w: "w < length (ex_tasks ex)"
    and idle: "ex_tasks ex ! w = Idle"
  shows "locks_ok (ex_tasks (take_item w wi q ex)) (lock_at (take_item w wi q ex))"
proof -
  let ?k = "item_key wi" and ?ex1 = "ex\<lparr>ex_queue := Some q\<rparr>"
  let ?ro = "Option.bind (inv_run_id (wi_invocation wi)) (get_run_state (ex_js ex))"
  have same: "(ex_tasks ex)[w := Idle] = ex_tasks ex" using idle by (metis list_update_id)
  have start: "locks_ok (ex_tasks (start_turn w wi ro exL)) (lock_at (start_turn w wi ro exL))"
    if L: "ex_tasks exL = ex_tasks ex"
      "\<And>k. lock_at exL k = (if k = ?k \<and> k \<noteq> [] then (lock_at ex k)\<lparr>lk_holder := Some w\<rparr> else lock_at ex k)"
      and free: "?k \<noteq> [] \<Longrightarrow> lk_holder (lock_at ex ?k) = None" for ro exL
  proof (rule start_turn_cases [of ro exL w wi])
    assume eq: "start_turn w wi ro exL = set_task w Idle (release_lock ?k exL)"
    have "lock_at (start_turn w wi ro exL) k = lock_at ex k" for k
      using free by (auto simp: eq L)
    then have "lock_at (start_turn w wi ro exL) = lock_at ex" by (rule ext)
    moreover have "ex_tasks (start_turn w wi ro exL) = ex_tasks ex" by (simp add: eq L same)
    ultimately show ?thesis using ok by simp
  next
    fix a ex1 t
    assume "start_turn w wi ro exL = set_task w (Running wi a) ex1"
      and "ex_tasks ex1 = ex_tasks exL" "lock_at ex1 = lock_at exL"
    then show ?thesis
      using L free by (simp, intro locks_ok_run [OF ok w idle]) simp_all
  qed
  show ?thesis
  proof (cases "?k = []")
    case True
    then show ?thesis unfolding take_item_def Let_def by simp (rule start; simp)
  next
    case k: False
    show ?thesis
    proof (cases "lk_holder (lock_at ex ?k) = None \<and> lk_waiters (lock_at ex ?k) = []")
      case True
      with k show ?thesis unfolding take_item_def Let_def by simp (rule start; simp)
    next
      case False
      with k show ?thesis
        unfolding take_item_def Let_def by auto (rule locks_ok_wait [OF ok w idle k]; simp)+
    qed
  qed
qed

lemma sys_inv_take:
  assumes "sys_inv (ex, ps)" and "w < length (ex_tasks ex)" and "ex_tasks ex ! w = Idle"
    and "ex_queue ex = Some (wi # q)"
  shows "sys_inv (take_item w wi q ex, ps)"
  using assms by (simp add: sys_inv_def runs_ok_take locks_ok_take)

lemma sys_inv_grant:
  assumes inv: "sys_inv (ex, ps)" and w: "w < length (ex_tasks ex)"
    and wt: "ex_tasks ex ! w = WaitLock wi ro"
    and free: "lk_holder (lock_at ex (item_key wi)) = None"
    and ws: "lk_waiters (lock_at ex (item_key wi)) = w # ws"
  shows "sys_inv (lock_granted w wi ro ex, ps)"
proof -
  let ?k = "item_key wi"
  let ?exL = "set_lock ?k \<lparr>lk_holder = Some w, lk_waiters = ws\<rparr> ex"
  have locks: "locks_ok (ex_tasks ex) (lock_at ex)" and ok: "runs_ok (ex, ps)"
    using inv by (simp_all add: sys_inv_def)
  have k: "?k \<noteq> []" using locks_okD(5) [OF locks w wt] .
  have eq: "lock_granted w wi ro ex = start_turn w wi ro ?exL"
    by (simp add: lock_granted_def Let_def ws)
  have id: "task_id (ex_tasks ex ! w) = item_id wi" by (simp add: wt task_id_def)
  have "locks_ok (ex_tasks (start_turn w wi ro ?exL)) (lock_at (start_turn w wi ro ?exL))"
  proof (rule start_turn_cases [of ro ?exL w wi])
    assume "start_turn w wi ro ?exL = set_task w Idle (release_lock ?k ?exL)"
    then show ?thesis
      using k by (simp, intro locks_ok_grant [OF locks w wt free ws, where h = None and t = Idle]) simp_all
  next
    fix a ex1 t
    assume "start_turn w wi ro ?exL = set_task w (Running wi a) ex1"
      and "ex_tasks ex1 = ex_tasks ?exL" "lock_at ex1 = lock_at ?exL"
    then show ?thesis
      by (simp, intro locks_ok_grant [OF locks w wt free ws, where h = "Some w" and t = "Running wi a"])
        simp_all
  qed
  moreover have "runs_ok (start_turn w wi ro ?exL, ps)"
  proof (rule start_turn_runs_ok [OF ok w])
    show "owners r (?exL, ps) + of_bool (item_id wi = Some r)
        \<le> 1 + of_bool (task_id (ex_tasks ex ! w) = Some r)" for r
      using runs_okD(6) [OF ok, of r] id by (simp add: owners_def)
    show "obj_ok (ex_js ex) wi a" if "ro = Some a" for a
      using runs_okD(2) [OF ok w] that by (simp add: wt task_ok_def)
    fix r assume r: "item_id wi = Some r"
    note u = owner_task_unique [OF runs_okD(6) [OF ok] w, unfolded id, OF r]
    show "v < length (ex_tasks ex) \<Longrightarrow> v \<noteq> w \<Longrightarrow> task_id (ex_tasks ex ! v) \<noteq> Some r" for v by (rule u(1))
    show "wi' \<in> set (queued ?exL) \<Longrightarrow> item_id wi' \<noteq> Some r" for wi' using u(2) by simp
    show "p \<in> set ps \<Longrightarrow> fst p \<noteq> r" for p by (rule u(3))
  qed simp_all
  ultimately show ?thesis by (simp add: eq sys_inv_def)
qed

lemma conclude_run_change: "run_change (ex_js ex) (ex_js (snd (conclude_run b a iv out ex))) a"
proof -
  obtain t where h: "js_rheap (ex_js (snd (conclude_run b a iv out ex))) =
      (js_rheap (ex_js ex))
        (a := finished_run t (end_run_state (run_end_of (ex_exempt ex) out) (js_rheap (ex_js ex) a)))"
    using conclude_run_rheap by blast
  then show ?thesis
    by (auto simp: run_change_def get_run_state_def dest: conclude_run_sub)
qed

lemma finish_turn_simps:
  "ex_tasks (finish_turn w wi a out ex) =
    (ex_tasks ex)[w := (case fst (conclude_run True a (wi_invocation wi) out ex) of Inl _ \<Rightarrow> Stopped | Inr _ \<Rightarrow> Idle)]"
  "queued (finish_turn w wi a out ex) = queued ex"
  "ex_js (finish_turn w wi a out ex) = ex_js (snd (conclude_run True a (wi_invocation wi) out ex))"
  "lock_at (finish_turn w wi a out ex) k =
    (if k = item_key wi \<and> k \<noteq> [] then (lock_at ex k)\<lparr>lk_holder := None\<rparr> else lock_at ex k)"
proof -
  have l: "lock_at (snd (conclude_run True a (wi_invocation wi) out ex)) k = lock_at ex k" for k
    by (simp add: lock_at_def)
  have q: "queued (snd (conclude_run True a (wi_invocation wi) out ex)) = queued ex"
    by (simp add: queued_def)
  show "ex_tasks (finish_turn w wi a out ex) =
      (ex_tasks ex)[w := (case fst (conclude_run True a (wi_invocation wi) out ex) of Inl _ \<Rightarrow> Stopped | Inr _ \<Rightarrow> Idle)]"
    "queued (finish_turn w wi a out ex) = queued ex"
    "ex_js (finish_turn w wi a out ex) = ex_js (snd (conclude_run True a (wi_invocation wi) out ex))"
    "lock_at (finish_turn w wi a out ex) k =
      (if k = item_key wi \<and> k \<noteq> [] then (lock_at ex k)\<lparr>lk_holder := None\<rparr> else lock_at ex k)"
    by (auto simp: finish_turn_def split_beta Let_def l q)
qed

lemma sys_inv_finish:
  assumes inv: "sys_inv (ex, ps)" and w: "w < length (ex_tasks ex)"
    and run: "ex_tasks ex ! w = Running wi a"
  shows "sys_inv (finish_turn w wi a out ex, ps)"
proof -
  have locks: "locks_ok (ex_tasks ex) (lock_at ex)" and ok: "runs_ok (ex, ps)"
    using inv by (simp_all add: sys_inv_def)
  let ?t = "case fst (conclude_run True a (wi_invocation wi) out ex) of Inl _ \<Rightarrow> Stopped | Inr _ \<Rightarrow> Idle"
  have t: "?t = Idle \<or> ?t = Stopped" by (simp split: sum.split)
  have id: "task_id (ex_tasks ex ! w) = Some (rs_run_id (js_rheap (ex_js ex) a))"
    using runs_okD(2) [OF ok w] by (simp add: run task_ok_def obj_ok_def task_id_def)
  note u = owner_task_unique [OF runs_okD(6) [OF ok] w id]
  have "locks_ok (ex_tasks (finish_turn w wi a out ex)) (lock_at (finish_turn w wi a out ex))"
    unfolding finish_turn_simps(1)
    by (rule locks_ok_release [OF locks w run _ t]) (simp add: finish_turn_simps)
  moreover have "runs_ok (finish_turn w wi a out ex, ps)"
  proof (rule runs_ok_turn [OF ok w, where a = a and t = ?t])
    show "run_change (ex_js ex) (ex_js (finish_turn w wi a out ex)) a"
      by (simp add: finish_turn_simps conclude_run_change)
    show "owners r (finish_turn w wi a out ex, ps) \<le> 1" for r
    proof -
      have "task_id ?t = None" using t by (auto simp: task_id_def)
      then have "owners r (finish_turn w wi a out ex, ps) \<le> owners r (ex, ps)"
        using owners_update [OF w finish_turn_simps(1) [of w wi a out] finish_turn_simps(2), of r ps]
        by simp
      with runs_okD(6) [OF ok, of r] show ?thesis by linarith
    qed
    show "task_ok (ex_js (finish_turn w wi a out ex)) ?t" using t by (auto simp: task_ok_def)
  qed (simp_all add: finish_turn_simps u)
  ultimately show ?thesis by (simp add: sys_inv_def)
qed

section \<open>The other steps keep the invariant\<close>

lemma exec_cancel_quiet:
  "quiet (ex\<lparr>ex_js := snd (js_cancel (fst (read_wall ex)) r (ex_js ex))\<rparr>) (snd (exec_cancel r ex))"
proof -
  let ?ex2 = "(snd (read_wall ex))\<lparr>ex_js := snd (js_cancel (fst (read_wall ex)) r (ex_js ex))\<rparr>"
  have "quiet (ex\<lparr>ex_js := snd (js_cancel (fst (read_wall ex)) r (ex_js ex))\<rparr>) ?ex2"
    by (simp add: quiet_def read_wall_def)
  moreover have "quiet ?ex2 (snd (exec_cancel r ex))"
    by (auto simp: exec_cancel_def Let_def split_beta read_wall_def
        intro: quiet_emit quiet_trans [OF quiet_audits(1) quiet_emit] split: option.split)
  ultimately show ?thesis by (rule quiet_trans)
qed

lemma cancel_rheap:
  "get_run_state js r = Some a \<Longrightarrow>
   js_rheap (snd (js_cancel t r js)) =
    (if rs_status (js_rheap js a) = PENDING then (js_rheap js)(a := cancelled_run t (js_rheap js a))
     else js_rheap js)"
  by (cases "rs_status (js_rheap js a)")
    (simp_all add: js_cancel_pending js_cancel_running js_cancel_terminal)

lemma cancel_run_change:
  assumes ok: "js_ok js" and a: "get_run_state js r = Some a"
  shows "run_change js (snd (js_cancel t r js)) a"
proof -
  have "js_ok (snd (js_cancel t r js))" using ok by simp
  moreover have "get_run_state (snd (js_cancel t r js)) r' = get_run_state js r'" for r'
    by (rule js_cancel_cases [of js r t]) simp_all
  moreover have "js_next (snd (js_cancel t r js)) = js_next js"
    by (rule js_cancel_cases [of js r t]) simp_all
  moreover have "(b \<noteq> a \<longrightarrow> js_rheap (snd (js_cancel t r js)) b = js_rheap js b) \<and>
      rs_run_id (js_rheap (snd (js_cancel t r js)) a) = rs_run_id (js_rheap js a)" for b
    by (simp add: cancel_rheap [OF a])
  ultimately show ?thesis by (simp add: run_change_def)
qed

text \<open>
  Cancelling writes only a pending run, and leaves it in a state a waiting item may have.
\<close>

lemma runs_ok_cancel:
  assumes ok: "runs_ok (ex, ps)"
  shows "runs_ok (ex\<lparr>ex_js := snd (js_cancel t r (ex_js ex))\<rparr>, ps)"
proof (rule js_cancel_cases [of "ex_js ex" r t])
  fix a
  assume a: "get_run_state (ex_js ex) r = Some a" and st: "rs_status (js_rheap (ex_js ex) a) = PENDING"
    and eq: "js_cancel t r (ex_js ex) = (''cancelled'', settle_future r (FException cancelled_error)
           (upd_run a (cancelled_run t) (set_flag r (ex_js ex))))"
  let ?js = "snd (js_cancel t r (ex_js ex))"
  have h: "js_rheap ?js = (js_rheap (ex_js ex))(a := cancelled_run t (js_rheap (ex_js ex) a))"
    "js_next ?js = js_next (ex_js ex)" "\<And>r'. get_run_state ?js r' = get_run_state (ex_js ex) r'"
    by (simp_all add: eq)
  have "task_ok ?js t'" if "task_ok (ex_js ex) t'" for t'
    using that st by (auto simp: task_ok_def obj_ok_def h waiting_def)
  moreover have "id_ok ?js i" if "id_ok (ex_js ex) i" for i
    using that by (auto simp: id_ok_def h waiting_def)
  ultimately show ?thesis
    using ok by (auto simp: runs_ok_def owners_def queued_def)
next
  assume "js_cancel t r (ex_js ex) = (''missing'', ex_js ex)"
  with ok show ?thesis by simp
next
  fix a
  assume "get_run_state (ex_js ex) r = Some a" "js_cancel t r (ex_js ex) = (''requested'', set_flag r (ex_js ex))"
  then show ?thesis
    using cancel_run_change [OF runs_okD(1) [OF ok], of r a t]
    by (intro runs_ok_still [OF ok, of _ a]) (auto simp: queued_def)
next
  fix a
  assume "get_run_state (ex_js ex) r = Some a" "js_cancel t r (ex_js ex) = (''noop'', set_flag r (ex_js ex))"
  then show ?thesis
    using cancel_run_change [OF runs_okD(1) [OF ok], of r a t]
    by (intro runs_ok_still [OF ok, of _ a]) (auto simp: queued_def)
qed

lemma sys_inv_cancel: "sys_inv (ex, ps) \<Longrightarrow> sys_inv (snd (exec_cancel r ex), ps)"
proof (rule sys_inv_quiet [OF _ exec_cancel_quiet])
  assume "sys_inv (ex, ps)"
  then show "sys_inv (ex\<lparr>ex_js := snd (js_cancel (fst (read_wall ex)) r (ex_js ex))\<rparr>, ps)"
    by (simp add: sys_inv_def runs_ok_cancel) (simp add: lock_at_def [abs_def])
qed

lemma sys_inv_pop:
  assumes "sys_inv (ex, ps)" shows "sys_inv (snd (exec_pop_run r ex), ps)"
proof -
  have eq: "snd (exec_pop_run r ex) = ex\<lparr>ex_js := forget_run r (ex_js ex)\<rparr>"
    by (simp add: exec_pop_run_def split_beta)
  have "run_change (ex_js ex) (forget_run r (ex_js ex)) 0"
    by (simp add: run_change_def)
  moreover have "runs_ok (ex, ps)" "locks_ok (ex_tasks ex) (lock_at ex)"
    using assms by (simp_all add: sys_inv_def)
  ultimately have "runs_ok (ex\<lparr>ex_js := forget_run r (ex_js ex)\<rparr>, ps)"
    by (elim runs_ok_still [where a = 0]) (simp_all add: queued_def)
  moreover have "lock_at (ex\<lparr>ex_js := js\<rparr>) = lock_at ex" for js
    by (simp add: lock_at_def [abs_def])
  ultimately show ?thesis
    using \<open>locks_ok (ex_tasks ex) (lock_at ex)\<close> by (simp add: eq sys_inv_def)
qed

subsection \<open>Starting, shutting down, submitting\<close>

lemma sys_inv_same:
  assumes "sys_inv (ex, ps)" and "ex_js ex' = ex_js ex" and "ex_tasks ex' = ex_tasks ex"
    and "ex_queue ex' = ex_queue ex" and "ex_locks ex' = ex_locks ex"
  shows "sys_inv (ex', ps)"
proof -
  have "lock_at ex' = lock_at ex" "queued ex' = queued ex"
    using assms by (simp_all add: lock_at_def [abs_def] queued_def)
  then show ?thesis
    using assms(1) unfolding sys_inv_def runs_ok_def owners_def fst_conv snd_conv assms(2,3) by simp
qed

text \<open>New idle tasks, and a job store with the same run states and runs.\<close>

lemma sys_inv_extend:
  assumes inv: "sys_inv (ex, ps)" and ch: "run_change (ex_js ex) (ex_js ex') 0"
    and h: "js_rheap (ex_js ex') = js_rheap (ex_js ex)"
    and ts: "ex_tasks ex' = ex_tasks ex @ replicate n Idle"
    and q: "queued ex' = queued ex" and l: "ex_locks ex' = ex_locks ex"
  shows "sys_inv (ex', ps)"
proof -
  have ok: "runs_ok (ex, ps)" and locks: "locks_ok (ex_tasks ex) (lock_at ex)"
    using inv by (simp_all add: sys_inv_def)
  have la: "lock_at ex' = lock_at ex" using l by (simp add: lock_at_def [abs_def])
  let ?ex1 = "ex'\<lparr>ex_tasks := ex_tasks ex\<rparr>"
  have ok1: "runs_ok (?ex1, ps)"
    using ch h q by (intro runs_ok_still [OF ok, where a = 0]) (simp_all add: queued_def)
  have "task_ok (ex_js ex') (ex_tasks ex' ! v)" if "v < length (ex_tasks ex')" for v
    using that runs_okD(2) [OF ok1, of v] by (cases "v < length (ex_tasks ex)")
      (simp_all add: ts nth_append task_ok_def)
  moreover have "owners r (ex', ps) = owners r (?ex1, ps)" for r
    by (simp add: owners_def ts queued_def task_id_def)
  moreover have "queued ?ex1 = queued ex'" by (simp add: queued_def)
  ultimately have "runs_ok (ex', ps)"
    using ok1 unfolding runs_ok_def fst_conv snd_conv by simp
  then show ?thesis
    using locks_ok_append [OF locks, of n] by (simp add: sys_inv_def la ts)
qed

lemma start_simps:
  assumes "ex_loop ex \<noteq> None"
  shows "\<exists>n. ex_tasks (snd (start None ex)) = ex_tasks ex @ replicate n Idle"
    "ex_queue (snd (start None ex)) = Some (queued ex)"
    "ex_locks (snd (start None ex)) = ex_locks ex"
    "ex_js (snd (start None ex)) = set_loop (ex_loop ex) (ex_js ex)"
    "ex_loop (snd (start None ex)) = ex_loop ex" "fst (start None ex) = Inr ()"
proof -
  obtain l where l: "ex_loop ex = Some l" using assms by blast
  show "\<exists>n. ex_tasks (snd (start None ex)) = ex_tasks ex @ replicate n Idle"
    by (intro exI [of _ "if ex_workers ex = [] then nat (ec_workers (ex_config ex)) else 0"])
      (simp add: l start_def Let_def)
  show "ex_queue (snd (start None ex)) = Some (queued ex)"
    by (cases "ex_queue ex") (simp_all add: l start_def Let_def queued_def)
qed (use assms in \<open>auto simp: start_def Let_def\<close>)

lemma set_loop_simps [simp]:
  "js_rheap (set_loop l js) = js_rheap js" "js_runs (set_loop l js) = js_runs js"
  "js_next (set_loop l js) = js_next js" "js_ok (set_loop l js) = js_ok js"
  "get_run_state (set_loop l js) r = get_run_state js r" "js_futs (set_loop l js) = js_futs js"
  "js_fheap (set_loop l js) = js_fheap js" "get_future (set_loop l js) r = get_future js r"
  "run_at (set_loop l js) r = run_at js r" "js_invs (set_loop l js) = js_invs js"
  by (simp_all add: set_loop_def js_ok_def view_defs)

lemma sys_inv_start:
  assumes inv: "sys_inv (ex, ps)" and l: "ex_loop ex \<noteq> None"
  shows "sys_inv (snd (start None ex), ps)"
proof -
  obtain n where "ex_tasks (snd (start None ex)) = ex_tasks ex @ replicate n Idle"
    using start_simps(1) [OF l] by blast
  then show ?thesis
    using inv by (elim sys_inv_extend) (simp_all add: start_simps [OF l] run_change_def queued_def)
qed

lemma cancel_task_id: "task_id (cancel_task t) = Some r \<Longrightarrow> task_id t = Some r"
  by (cases t) (simp_all add: task_id_def)

lemma map_of_map_snd: "map_of (map (\<lambda>(k, v). (k, f v)) d) k = map_option f (map_of d k)"
  by (induction d) auto

lemma filter_pointwise_le:
  "length xs = length ys \<Longrightarrow> (\<And>i. i < length xs \<Longrightarrow> P (xs ! i) \<Longrightarrow> P (ys ! i)) \<Longrightarrow>
   length (filter P xs) \<le> length (filter P ys)"
proof (induction xs ys rule: list_induct2)
  case (Cons x xs y ys)
  have "P x \<Longrightarrow> P y" using Cons.prems [of 0] by simp
  moreover have "length (filter P xs) \<le> length (filter P ys)"
    using Cons.prems [of "Suc i" for i] by (intro Cons.IH) simp
  ultimately show ?case by auto
qed simp

lemma sys_inv_shutdown:
  assumes inv: "sys_inv (ex, ps)" shows "sys_inv (snd (shutdown_begin ex), ps)"
proof -
  let ?ws = "ex_workers ex" and ?ex' = "snd (shutdown_begin ex)"
  have ok: "runs_ok (ex, ps)" and locks: "locks_ok (ex_tasks ex) (lock_at ex)"
    using inv by (simp_all add: sys_inv_def)
  have f: "ex_js ?ex' = ex_js ex" "queued ?ex' = queued ex" "length (ex_tasks ?ex') = length (ex_tasks ex)"
    by (simp_all add: shutdown_begin_def cancel_tasks_def cancel_fold queued_def)
  have ts: "ex_tasks ?ex' ! w = (if w \<in> set ?ws then cancel_task (ex_tasks ex ! w) else ex_tasks ex ! w)"
    if "w < length (ex_tasks ex)" for w
    using that by (simp add: shutdown_begin_def cancel_tasks_def cancel_fold)
  have la: "lock_at ?ex' k = (lock_at ex k)\<lparr>lk_waiters := filter (\<lambda>w. w \<notin> set ?ws) (lk_waiters (lock_at ex k))\<rparr>" for k
    by (simp add: shutdown_begin_def cancel_tasks_def lock_at_def dict_get_or_def map_of_map_snd
        new_lock_def split: option.split)
  have "locks_ok (ex_tasks ?ex') (lock_at ?ex')"
    by (rule locks_ok_cancel [OF locks f(3) ts la])
  moreover have "task_ok (ex_js ex) (ex_tasks ?ex' ! w)" if "w < length (ex_tasks ex)" for w
    using runs_okD(2) [OF ok that] ts [OF that] by (auto simp: task_ok_def)
  moreover have "owners r (?ex', ps) \<le> 1" for r
  proof -
    have "length (filter (\<lambda>t. task_id t = Some r) (ex_tasks ?ex'))
        \<le> length (filter (\<lambda>t. task_id t = Some r) (ex_tasks ex))"
      using ts by (intro filter_pointwise_le) (auto simp: f split: if_splits dest: cancel_task_id)
    then show ?thesis using runs_okD(6) [OF ok, of r] by (simp add: owners_def f)
  qed
  ultimately show ?thesis using ok by (simp add: sys_inv_def runs_ok_def f)
qed

text \<open>Registering a run with a fresh id, and enqueueing a registered one.\<close>

lemma register_quiet:
  "inv_run_id iv = Some r \<Longrightarrow>
   quiet (ex\<lparr>ex_js := snd (create_run iv (ex_js ex))\<rparr>) (register_run iv ex)"
  by (simp add: register_run_def split_beta create_run_Some)
    (rule quiet_trans [OF quiet_audits(2) quiet_audits(1)])

lemma create_run_rheap:
  "inv_run_id iv = Some r \<Longrightarrow>
   js_rheap (snd (create_run iv js)) = (js_rheap js)(js_next js := run_state_of_invocation r iv)"
  "inv_run_id iv = Some r \<Longrightarrow> js_next (snd (create_run iv js)) = Suc (js_next js)"
  by (simp_all add: create_run_def Let_def)

lemma run_state_of_invocation_simps [simp]:
  "rs_status (run_state_of_invocation r iv) = PENDING" "rs_run_id (run_state_of_invocation r iv) = r"
  by (simp_all add: run_state_of_invocation_def blank_run_state_def)

lemma sys_inv_register:
  assumes inv: "sys_inv (ex, ps)" and id: "inv_run_id iv = Some r" and fresh: "fresh_id r (ex, ps)"
  shows "sys_inv (register_run iv ex, ps @ [(r, iv, h)])"
proof -
  let ?js = "snd (create_run iv (ex_js ex))" and ?ex = "ex\<lparr>ex_js := snd (create_run iv (ex_js ex))\<rparr>"
  have ok: "runs_ok (ex, ps)" and locks: "locks_ok (ex_tasks ex) (lock_at ex)"
    using inv by (simp_all add: sys_inv_def)
  have jok: "js_ok (ex_js ex)" using runs_okD(1) [OF ok] .
  have lt: "a < js_next (ex_js ex)" if "get_run_state (ex_js ex) r' = Some a" for r' a
    using addr_ok_less [OF js_okD(1) [OF jok]] that by (simp add: get_run_state_def)
  have "task_ok ?js t" if "task_ok (ex_js ex) t" for t
    using that by (auto simp: task_ok_def obj_ok_def create_run_rheap [OF id])
  moreover have new: "id_ok ?js i" if "id_ok (ex_js ex) i \<or> i = Some r" for i
    using that lt by (fastforce simp: id_ok_def get_run_state_create [OF id] create_run_rheap [OF id]
        waiting_def split: if_splits)
  moreover have "owners r' (?ex, ps @ [(r, iv, h)]) = owners r' (ex, ps) + of_bool (r' = r)" for r'
    by (simp add: owners_def queued_def)
  moreover have "owners r' (ex, ps) + of_bool (r' = r) \<le> 1" for r'
    using runs_okD(6) [OF ok, of r'] fresh by (auto simp: fresh_id_def)
  moreover have "queued ?ex = queued ex" by (simp add: queued_def)
  ultimately have "runs_ok (?ex, ps @ [(r, iv, h)])"
    using ok jok id unfolding runs_ok_def fst_conv snd_conv by auto
  then have "sys_inv (?ex, ps @ [(r, iv, h)])"
    using locks by (simp add: sys_inv_def) (simp add: lock_at_def [abs_def])
  then show ?thesis by (rule sys_inv_quiet [OF _ register_quiet [OF id]])
qed

lemma enqueue_run_simps:
  assumes "ex_loop ex \<noteq> None"
  shows "ex_tasks (enqueue_run r iv h ex) = ex_tasks (snd (start None ex))"
    "ex_locks (enqueue_run r iv h ex) = ex_locks ex"
    "queued (enqueue_run r iv h ex) = queued ex @ [\<lparr>wi_invocation = iv, wi_handler = h\<rparr>]"
    "js_rheap (ex_js (enqueue_run r iv h ex)) = js_rheap (ex_js ex)"
    "js_next (ex_js (enqueue_run r iv h ex)) = Suc (js_next (ex_js ex))"
    "get_run_state (ex_js (enqueue_run r iv h ex)) r' = get_run_state (ex_js ex) r'"
    "get_future (ex_js (enqueue_run r iv h ex)) r' =
      (if r' = r then Some (js_next (ex_js ex)) else get_future (ex_js ex) r')"
    "js_fheap (ex_js (enqueue_run r iv h ex)) = (js_fheap (ex_js ex))(js_next (ex_js ex) := FPending)"
  using start_simps [OF assms]
  by (simp_all add: enqueue_run_def Let_def split_beta queued_def) (simp add: get_future_def)

lemma js_ok_enqueue:
  assumes "js_ok (ex_js ex)" and "ex_loop ex \<noteq> None"
  shows "js_ok (ex_js (enqueue_run r iv h ex))"
proof -
  let ?js = "snd (create_future (set_loop (ex_loop ex) (ex_js ex)))"
  have "get_future ?js r' \<noteq> Some (js_next (ex_js ex))" for r'
    using addr_ok_fresh [OF js_okD(2) [OF assms(1)]] by (simp add: get_future_def)
  then have "js_ok (set_future r (js_next (ex_js ex)) ?js)"
    using assms by (intro js_ok_set_future) simp_all
  then show ?thesis
    using start_simps [OF assms(2)] by (simp add: enqueue_run_def Let_def split_beta)
qed

lemma sys_inv_enqueue:
  assumes inv: "sys_inv (ex, ps @ (r, iv, h) # ps')" and l: "ex_loop ex \<noteq> None"
  shows "sys_inv (enqueue_run r iv h ex, ps @ ps')"
proof -
  let ?ex1 = "snd (start None ex)" and ?ex' = "enqueue_run r iv h ex"
  have inv1: "sys_inv (?ex1, ps @ (r, iv, h) # ps')" by (rule sys_inv_start [OF inv l])
  then have ok: "runs_ok (?ex1, ps @ (r, iv, h) # ps')" and locks: "locks_ok (ex_tasks ?ex1) (lock_at ?ex1)"
    by (simp_all add: sys_inv_def)
  note f = enqueue_run_simps [OF l] start_simps [OF l]
  have q: "queued ?ex1 = queued ex" by (simp add: queued_def f(10))
  have la: "lock_at ?ex' = lock_at ?ex1" by (simp add: lock_at_def [abs_def] f)
  have p: "(r, iv, h) \<in> set (ps @ (r, iv, h) # ps')" by simp
  have "js_ok (ex_js ?ex')"
    using js_ok_enqueue [OF _ l] runs_okD(1) [OF ok] by (simp add: f)
  moreover have "task_ok (ex_js ?ex') t" if "task_ok (ex_js ?ex1) t" for t
    using that by (auto simp: task_ok_def obj_ok_def f)
  moreover have same: "id_ok (ex_js ?ex') i" if "id_ok (ex_js ?ex1) i" for i
    using that by (simp add: id_ok_def f)
  moreover have "id_ok (ex_js ?ex') (item_id \<lparr>wi_invocation = iv, wi_handler = h\<rparr>)"
    using same runs_okD(4,5) [OF ok p] by (simp add: item_id_def)
  moreover have "owners r' (?ex', ps @ ps') = owners r' (?ex1, ps @ (r, iv, h) # ps')" for r'
    using runs_okD(5) [OF ok p] by (simp add: owners_def f(1,3) q item_id_def)
  ultimately have "runs_ok (?ex', ps @ ps')"
    using ok unfolding runs_ok_def fst_conv snd_conv f(1,3) q by auto
  then show ?thesis using locks by (simp add: sys_inv_def la f(1))
qed

lemma sys_inv_in_loop:
  assumes "sys_inv (f (ex\<lparr>w_cur_loop := ex_loop ex\<rparr>), ps)" shows "sys_inv (in_loop f ex, ps)"
  using assms by (rule sys_inv_same) (simp_all add: in_loop_def)

lemma assign_run_id_simps:
  assumes "assign_run_id iv ex = (r, iv1, ex1)"
  shows "inv_run_id iv1 = Some r" "quiet ex ex1"
  using assms by (auto simp: assign_run_id_def fresh_uuid_def quiet_def split: option.splits)

lemma submit_running:
  assumes "exec_loop_running ex" and "assign_run_id iv ex = (r, iv1, ex1)"
  shows "submit he iv h ex =
    Some (Inr r, iv1, enqueue_run r iv1 (handler_or_missing h) (register_run iv1 ex1))"
proof -
  note a = assign_run_id_simps [OF assms(2)]
  have q: "quiet (ex1\<lparr>ex_js := snd (create_run iv1 (ex_js ex1))\<rparr>) (register_run iv1 ex1)"
    by (rule register_quiet [OF a(1)])
  obtain l where l: "ex_loop ex = Some l" "w_loop_running ex l"
    using assms(1) by (auto simp: exec_loop_running_def loop_is_running_def split: option.splits)
  then have "ex_loop (register_run iv1 ex1) = Some l" "w_loop_running (register_run iv1 ex1) l"
    using q a(2) by (simp_all add: quiet_def)
  then have "ex_loop (register_run iv1 ex1) = Some l" "exec_loop_running (register_run iv1 ex1)"
    by (simp_all add: exec_loop_running_def loop_is_running_def)
  then show ?thesis by (simp add: submit_def assms(2))
qed

section \<open>The invariant holds in every reachable state\<close>

lemma exec_loop_running_loop: "exec_loop_running ex \<Longrightarrow> ex_loop ex \<noteq> None"
  by (auto simp: exec_loop_running_def loop_is_running_def split: option.splits)

lemma fresh_id_quiet: "fresh_id r (ex, ps) \<Longrightarrow> quiet ex ex' \<Longrightarrow> fresh_id r (ex', ps)"
  by (simp add: fresh_id_def owners_def queued_def quiet_frame)

lemma sys_inv_submit:
  assumes inv: "sys_inv (ex, ps)" and run: "exec_loop_running ex"
    and sub: "submit he iv h ex = Some (Inr r, iv1, ex')" and fresh: "fresh_id r (ex, ps)"
  shows "sys_inv (ex', ps)"
proof -
  obtain r' iv' ex1 where a: "assign_run_id iv ex = (r', iv', ex1)" by (cases "assign_run_id iv ex")
  note as = assign_run_id_simps [OF a]
  have eq: "r' = r" "ex' = enqueue_run r iv' (handler_or_missing h) (register_run iv' ex1)"
    using sub submit_running [OF run a] by auto
  have "sys_inv (register_run iv' ex1, ps @ [(r, iv', handler_or_missing h)])"
    using as eq(1) fresh_id_quiet [OF fresh as(2)] sys_inv_quiet [OF inv as(2)]
    by (intro sys_inv_register) simp_all
  moreover have "ex_loop (register_run iv' ex1) = ex_loop ex"
    using register_quiet [OF as(1), of ex1] as(2) by (simp add: quiet_def)
  ultimately show ?thesis
    using sys_inv_enqueue [of "register_run iv' ex1" ps r iv' "handler_or_missing h" "[]"]
      exec_loop_running_loop [OF run] by (simp add: eq)
qed

lemma sys_inv_registered:
  assumes inv: "sys_inv (ex, ps)" and a: "assign_run_id iv ex = (r, iv1, ex1)"
    and fresh: "fresh_id r (ex, ps)"
  shows "sys_inv (register_run iv1 ex1, ps @ [(r, iv1, h)])"
  using assign_run_id_simps [OF a] fresh_id_quiet [OF fresh] sys_inv_quiet [OF inv]
  by (intro sys_inv_register) simp_all

text \<open>
  Submissions are pending only when the loop was there: \<open>sys_loop\<close> is part of the invariant.
\<close>

definition sys_loop :: "sys \<Rightarrow> bool" where
  "sys_loop s \<longleftrightarrow> snd s \<noteq> [] \<longrightarrow> ex_loop (fst s) \<noteq> None"

lemma ex_loop_step_frames:
  "ex_loop (start_turn w wi ro ex) = ex_loop ex" "ex_loop (take_item w wi q ex) = ex_loop ex"
  "ex_loop (lock_granted w wi ro ex) = ex_loop ex" "ex_loop (finish_turn w wi a out ex) = ex_loop ex"
  "ex_loop (snd (exec_cancel r ex)) = ex_loop ex" "ex_loop (snd (exec_pop_run r ex)) = ex_loop ex"
  "ex_loop (snd (shutdown_begin ex)) = ex_loop ex"
proof -
  have b: "ex_loop (snd (begin_run ro iv ex)) = ex_loop ex" for ro iv ex
    by (simp add: begin_run_def begin_after_check_def Let_def split_beta split: option.split)
  have s: "ex_loop (start_turn w wi ro ex) = ex_loop ex" for ro ex
    using b [of ro "wi_invocation wi" ex]
    by (auto simp: start_turn_def set_task_def release_lock_def set_lock_def split: prod.split option.split)
  then show "ex_loop (start_turn w wi ro ex) = ex_loop ex" .
  show "ex_loop (take_item w wi q ex) = ex_loop ex" "ex_loop (lock_granted w wi ro ex) = ex_loop ex"
    by (simp_all add: take_item_def lock_granted_def Let_def s set_task_def set_lock_def)
  show "ex_loop (finish_turn w wi a out ex) = ex_loop ex"
    by (simp add: finish_turn_def split_beta Let_def set_task_def release_lock_def set_lock_def)
  show "ex_loop (snd (exec_cancel r ex)) = ex_loop ex"
    using exec_cancel_quiet [of ex r] by (simp add: quiet_def)
qed (simp_all add: exec_pop_run_def shutdown_begin_def cancel_tasks_def split_beta)

lemma sys_inv_step: "sys_inv s \<and> sys_loop s \<Longrightarrow> exec_step s t \<Longrightarrow> sys_inv t \<and> sys_loop t"
proof (erule exec_stepE, goal_cases)
  case (1 ex he iv h r iv1 ex' ps)
  obtain r' iv' ex1 where a: "assign_run_id iv ex = (r', iv', ex1)" by (cases "assign_run_id iv ex")
  have "ex_loop ex' \<noteq> None"
    using 1 submit_running [OF 1(4) a] exec_loop_running_loop [OF 1(4)] assign_run_id_simps [OF a]
      register_quiet [OF assign_run_id_simps(1) [OF a], of ex1]
    by (auto simp: quiet_def enqueue_run_def Let_def split_beta start_simps)
  moreover have "sys_inv (ex', ps)" 
    using 1(1) sys_inv_submit [OF _ 1(4,5,6)] by (simp add: 1(2))
  ultimately show ?case using 1 by (simp add: sys_loop_def)
next
  case (2 ex iv r iv1 ex1 ps h)
  have "ex_loop (register_run iv1 ex1) \<noteq> None"
    using exec_loop_running_loop [OF 2(4)] assign_run_id_simps [OF 2(6)]
      register_quiet [OF assign_run_id_simps(1) [OF 2(6)], of ex1] by (simp add: quiet_def)
  moreover have "sys_inv (register_run iv1 ex1, ps @ [(r, iv1, h)])"
    using 2(1) sys_inv_registered [OF _ 2(6,7)] by (simp add: 2(2))
  ultimately show ?case by (simp add: 2(3) sys_loop_def)
next
  case (3 ex ps r iv h ps')
  then have l: "ex_loop ex \<noteq> None" by (simp add: sys_loop_def)
  let ?ex0 = "ex\<lparr>w_cur_loop := ex_loop ex\<rparr>"
  have "sys_inv (enqueue_run r iv h ?ex0, ps @ ps')"
    using 3 l by (intro sys_inv_enqueue) (auto intro: sys_inv_same)
  moreover have "ex_loop (in_loop (enqueue_run r iv h) ex) = ex_loop ex"
    using l by (simp add: in_loop_def enqueue_run_def Let_def split_beta start_simps)
  ultimately show ?case using 3 l by (simp add: sys_inv_in_loop sys_loop_def)
qed (auto simp: sys_loop_def ex_loop_step_frames start_simps intro: sys_inv_take sys_inv_grant
      sys_inv_finish sys_inv_cancel sys_inv_pop sys_inv_start sys_inv_shutdown
      sys_inv_quiet [OF _ quiet_publish] sys_inv_quiet [OF _ quiet_callback] sys_inv_same
      simp: shutdown_end_def close_audit_sink_def)

lemma sys_inv_init: "sys_init s \<Longrightarrow> sys_inv s \<and> sys_loop s"
proof -
  assume "sys_init s"
  then obtain ex n lp cfg w where s: "s = (ex, [])" and new: "new_executor n lp cfg w = Inr ex"
    unfolding sys_init_def by (cases s) auto
  have f: "js_ok (ex_js ex)" "ex_tasks ex = []"
    "ex_queue ex = None" "ex_locks ex = []"
    using new by (auto simp: new_executor_def Let_def world.defs split: sum.splits option.splits)
  then show ?thesis
    by (auto simp: s sys_inv_def sys_loop_def locks_ok_def lock_at_def dict_get_or_def new_lock_def
        runs_with_def waits_for_def runs_ok_def queued_def owners_def)
qed

interpretation exec_sys: invariant_system sys_init exec_step "\<lambda>s. sys_inv s \<and> sys_loop s"
  by unfold_locales (rule sys_inv_init, assumption, rule sys_inv_step)

section \<open>The life of a run\<close>

text \<open>
  How the object of a run may change in one step: not at all, from \<open>PENDING\<close> to
  \<open>RUNNING\<close> or \<open>CANCELLED\<close>, or from \<open>RUNNING\<close> to anything but \<open>PENDING\<close>. An
  object in a terminal state is never written again.
\<close>

definition life_step :: "run_state \<Rightarrow> run_state \<Rightarrow> bool" where
  "life_step rs rs' \<longleftrightarrow> rs' = rs \<or>
    rs_status rs = PENDING \<and> rs_status rs' \<in> {RUNNING, CANCELLED} \<or>
    rs_status rs = RUNNING \<and> rs_status rs' \<noteq> PENDING"

lemma life_step_refl [simp]: "life_step rs rs"
  by (simp add: life_step_def)

lemma life_step_terminal: "life_step rs rs' \<Longrightarrow> terminal_status (rs_status rs) \<Longrightarrow> rs' = rs"
  by (auto simp: life_step_def)

definition lives :: "job_store \<Rightarrow> job_store \<Rightarrow> bool" where
  "lives js js' \<longleftrightarrow> js_next js \<le> js_next js' \<and>
    (\<forall>a < js_next js. life_step (js_rheap js a) (js_rheap js' a))"

lemma lives_same: "js_rheap js' = js_rheap js \<Longrightarrow> js_next js \<le> js_next js' \<Longrightarrow> lives js js'"
  by (simp add: lives_def)

lemma lives_quiet: "quiet ex ex' \<Longrightarrow> lives (ex_js ex) (ex_js ex')"
  by (rule lives_same) (simp_all add: quiet_frame)

lemma lives_upd:
  "js_rheap js' = (js_rheap js)(a := x) \<Longrightarrow> js_next js' = js_next js \<Longrightarrow>
   life_step (js_rheap js a) x \<Longrightarrow> lives js js'"
  by (simp add: lives_def)

lemma lives_start_turn:
  assumes L: "ex_js exL = ex_js ex"
    and ro: "\<And>a. ro = Some a \<Longrightarrow> waiting (rs_status (js_rheap (ex_js ex) a))"
  shows "lives (ex_js ex) (ex_js (start_turn w wi ro exL))"
proof (rule start_turn_cases [of ro exL w wi])
  assume "start_turn w wi ro exL = set_task w Idle (release_lock (item_key wi) exL)"
  then show ?thesis by (simp add: L lives_same)
next
  fix a ex1 t
  assume a: "ro = Some a" "rs_status (js_rheap (ex_js exL) a) \<noteq> CANCELLED"
    and eq: "start_turn w wi ro exL = set_task w (Running wi a) ex1"
    and h: "js_rheap (ex_js ex1) = (js_rheap (ex_js exL))(a := started_run t (js_rheap (ex_js exL) a))"
    and n: "js_next (ex_js ex1) = js_next (ex_js exL)"
  have "rs_status (js_rheap (ex_js ex) a) = PENDING" using ro [OF a(1)] a(2) by (simp add: waiting_def L)
  then show ?thesis
    by (intro lives_upd [of _ _ a "started_run t (js_rheap (ex_js ex) a)"])
      (simp_all add: eq h n L life_step_def)
qed

lemma lives_take:
  assumes ok: "runs_ok (ex, ps)" and q: "ex_queue ex = Some (wi # q)"
  shows "lives (ex_js ex) (ex_js (take_item w wi q ex))"
proof -
  let ?ro = "Option.bind (inv_run_id (wi_invocation wi)) (get_run_state (ex_js ex))"
  have mem: "wi \<in> set (queued ex)" using q by (simp add: queued_def)
  have "lives (ex_js ex) (ex_js (start_turn w wi ?ro exL))" if "ex_js exL = ex_js ex" for exL
    using lives_start_turn [OF that] taken_ro [OF ok mem] by blast
  then show ?thesis by (auto simp: take_item_def Let_def lives_same)
qed

lemma lives_finish:
  assumes ok: "runs_ok (ex, ps)" and w: "w < length (ex_tasks ex)" and run: "ex_tasks ex ! w = Running wi a"
  shows "lives (ex_js ex) (ex_js (finish_turn w wi a out ex))"
proof -
  obtain t where h: "js_rheap (ex_js (finish_turn w wi a out ex)) = (js_rheap (ex_js ex))
      (a := finished_run t (end_run_state (run_end_of (ex_exempt ex) out) (js_rheap (ex_js ex) a)))"
    using conclude_run_rheap unfolding finish_turn_simps by blast
  have st: "rs_status (js_rheap (ex_js ex) a) = RUNNING"
    using runs_okD(2) [OF ok w] by (simp add: run task_ok_def)
  have "rs_status (end_run_state (run_end_of (ex_exempt ex) out) (js_rheap (ex_js ex) a)) \<noteq> PENDING"
    using run_end_caught_status [of "ex_exempt ex" out] st
    by (auto simp: end_run_state_status split: run_end.split)
  then show ?thesis
    using h st by (intro lives_upd [OF h]) (auto simp: finish_turn_simps life_step_def)
qed

lemma lives_cancel: "lives js (snd (js_cancel t r js))"
proof (cases "get_run_state js r")
  case (Some a)
  moreover have "js_next (snd (js_cancel t r js)) = js_next js"
    by (rule js_cancel_cases [of js r t]) simp_all
  ultimately show ?thesis
    by (auto simp: lives_def cancel_rheap life_step_def)
qed (simp add: js_cancel_missing lives_same)

lemma lives_register: "inv_run_id iv = Some r \<Longrightarrow> lives (ex_js ex) (ex_js (register_run iv ex))"
  using quiet_frame(5,8) [OF register_quiet, of iv r ex]
  by (simp add: lives_def create_run_rheap)

lemma lives_trans: "lives a b \<Longrightarrow> js_rheap c = js_rheap b \<Longrightarrow> js_next b \<le> js_next c \<Longrightarrow> lives a c"
  by (simp add: lives_def)

lemma lives_step:
  "sys_inv s \<and> sys_loop s \<Longrightarrow> exec_step s t \<Longrightarrow> lives (ex_js (fst s)) (ex_js (fst t))"
proof (erule exec_stepE, goal_cases)
  case (1 ex he iv h r iv1 ex' ps)
  obtain r' iv' ex1 where a: "assign_run_id iv ex = (r', iv', ex1)" by (cases "assign_run_id iv ex")
  note as = assign_run_id_simps [OF a]
  have "ex_loop (register_run iv' ex1) \<noteq> None"
    using exec_loop_running_loop [OF 1(4)] as(2) register_quiet [OF as(1), of ex1] by (simp add: quiet_def)
  moreover have "ex' = enqueue_run r' iv' (handler_or_missing h) (register_run iv' ex1)"
    using 1(5) submit_running [OF 1(4) a] by auto
  moreover have "lives (ex_js ex) (ex_js (register_run iv' ex1))"
    using lives_register [OF as(1), of ex1] quiet_frame(5,8) [OF as(2)] by (simp add: lives_def)
  ultimately show ?case by (simp add: 1(2,3)) (erule lives_trans, simp_all add: enqueue_run_simps)
next
  case (2 ex iv r iv1 ex1 ps h)
  then show ?case
    using lives_register [OF assign_run_id_simps(1) [OF 2(6)], of ex1]
      quiet_frame(5,8) [OF assign_run_id_simps(2) [OF 2(6)]] by (simp add: lives_def)
next
  case (3 ex ps r iv h ps')
  then have "ex_loop ex \<noteq> None" by (simp add: sys_loop_def)
  then show ?case by (simp add: 3 in_loop_def enqueue_run_simps lives_same)
next
  case (7 ex ps r)
  then show ?case
    using lives_cancel [of "ex_js ex" "fst (read_wall ex)" r] quiet_frame(5,8) [OF exec_cancel_quiet, of r ex]
    by (simp add: lives_def)
next
  case (5 w ex wi ro ws ps)
  have "\<And>a. ro = Some a \<Longrightarrow> waiting (rs_status (js_rheap (ex_js ex) a))"
    using runs_okD(2) [of ex ps w] 5 by (simp add: sys_inv_def task_ok_def)
  then show ?case by (simp add: 5 lock_granted_def Let_def lives_start_turn)
qed (auto simp: sys_inv_def exec_pop_run_def split_beta start_simps shutdown_begin_def cancel_tasks_def
      shutdown_end_def close_audit_sink_def intro: lives_take lives_finish lives_quiet quiet_publish quiet_callback lives_same)

section \<open>A concrete executor\<close>

text \<open>
  Two workers on a running loop; a run \<open>''a''\<close> under the lock key \<open>''k''\<close> is submitted
  and taken by the first worker; a second run under the same key then waits at the second
  worker, or the first one finishes. The witnesses below evaluate on these states.
\<close>

definition demo_world :: world where
  "demo_world = \<lparr>w_wall = (\<lambda>_. 0), w_mono = (\<lambda>_. 0), w_uuid = (\<lambda>_. ''u''), w_reads = 0,
    w_uuids = 0, w_loop_running = (\<lambda>_. True), w_cur_loop = Some 0\<rparr>"

definition demo_config :: executor_config where
  "demo_config = default_executor_config\<lparr>ec_workers := 2, ec_emit_run_events := False\<rparr>"

definition demo_start :: exec where
  "demo_start = (case new_executor 2 (Some 0) (Some demo_config) demo_world of Inr ex \<Rightarrow> ex)"

definition demo_iv :: invocation where
  "demo_iv = default_invocation\<lparr>inv_run_id := Some ''a'', inv_lock_key := ''k''\<rparr>"

definition demo_item :: work_item where
  "demo_item = \<lparr>wi_invocation = demo_iv, wi_handler = Handler 0\<rparr>"

definition demo_queued :: exec where
  "demo_queued = enqueue_run ''a'' demo_iv (Handler 0) (register_run demo_iv demo_start)"

definition demo_running :: exec where
  "demo_running = take_item 0 demo_item [] demo_queued"

definition demo_iv2 :: invocation where
  "demo_iv2 = default_invocation\<lparr>inv_run_id := Some ''b'', inv_lock_key := ''k''\<rparr>"

definition demo_item2 :: work_item where
  "demo_item2 = \<lparr>wi_invocation = demo_iv2, wi_handler = Handler 0\<rparr>"

definition demo_queued2 :: exec where
  "demo_queued2 = enqueue_run ''b'' demo_iv2 (Handler 0) (register_run demo_iv2 demo_running)"

definition demo_waiting :: exec where
  "demo_waiting = take_item 1 demo_item2 [] demo_queued2"

definition demo_done :: exec where
  "demo_done = finish_turn 0 demo_item 0 (Inr VNone) demo_running"

lemmas demo_defs = demo_world_def demo_config_def demo_start_def demo_iv_def demo_item_def
  demo_queued_def demo_running_def demo_done_def default_invocation_def
  default_executor_config_def default_audit_config_def

lemma demo_submitted:
  assumes "exec_loop_running ex" and "inv_run_id iv = Some r" and "fresh_id r (ex, [])"
  shows "exec_step (ex, []) (enqueue_run r iv h (register_run iv ex), [])"
proof -
  have a: "assign_run_id iv ex = (r, iv, ex)" using assms(2) by (simp add: assign_run_id_def)
  show ?thesis
    using submit_running [OF assms(1) a, of undefined "Some h"] assms(3)
    by (intro exec_step.submitted [OF assms(1), where iv = iv and h = "Some h" and r = r])
      (simp_all add: handler_or_missing_def)
qed

lemma demo_init: "sys_init (demo_start, [])"
proof -
  have "new_executor 2 (Some 0) (Some demo_config) demo_world = Inr demo_start"
    by (simp add: demo_defs new_executor_def init_audit_sink_def Let_def)
  then show ?thesis by (auto simp: sys_init_def)
qed

lemma demo_tasks:
  "ex_tasks demo_queued = [Idle, Idle]" "ex_queue demo_queued = Some [demo_item]"
  "ex_tasks demo_running = [Running demo_item 0, Idle]"
  "ex_tasks demo_queued2 = [Running demo_item 0, Idle]" "ex_queue demo_queued2 = Some [demo_item2]"
  "ex_tasks demo_waiting = [Running demo_item 0, WaitLock demo_item2 (Some 2)]"
  by code_simp+

lemma demo_steps:
  "exec_step (demo_start, []) (demo_queued, [])" "exec_step (demo_queued, []) (demo_running, [])"
  "exec_step (demo_running, []) (demo_queued2, [])" "exec_step (demo_queued2, []) (demo_waiting, [])"
  "exec_step (demo_running, []) (demo_done, [])"
proof -
  have "exec_loop_running demo_start" "fresh_id ''a'' (demo_start, [])"
    "exec_loop_running demo_running" "fresh_id ''b'' (demo_running, [])" by code_simp+
  then show "exec_step (demo_start, []) (demo_queued, [])" "exec_step (demo_running, []) (demo_queued2, [])"
    unfolding demo_queued_def demo_queued2_def
    by (auto intro!: demo_submitted simp: demo_iv_def demo_iv2_def)
  show "exec_step (demo_queued, []) (demo_running, [])" "exec_step (demo_queued2, []) (demo_waiting, [])"
        using exec_step.taken [of 0 demo_queued demo_item "[]" "[]"]
      exec_step.taken [of 1 demo_queued2 demo_item2 "[]" "[]"]
    by (simp_all add: demo_tasks demo_running_def demo_waiting_def)
  show "exec_step (demo_running, []) (demo_done, [])"
    unfolding demo_done_def by (rule exec_step.finished) (simp_all add: demo_tasks)
qed

lemma demo_reaches:
  "rtranclp exec_step (demo_start, []) (demo_queued, [])"
  "rtranclp exec_step (demo_start, []) (demo_running, [])"
  "rtranclp exec_step (demo_start, []) (demo_waiting, [])"
  "rtranclp exec_step (demo_start, []) (demo_done, [])"
  by (meson demo_steps rtranclp.rtrancl_into_rtrancl rtranclp.rtrancl_refl)+

section \<open>Properties\<close>

text \<open>C1: runs under the same lock key exclude each other. In every state the executor can
  reach, under any interleaving of submissions, cancellations, publications, shutdowns and
  worker segments, two workers that run handlers under one non-empty lock key are the same
  worker.\<close>

theorem mutual_exclusion:
  assumes "sys_init s0" and "rtranclp exec_step s0 s" and "k \<noteq> []"
    and "runs_with (ex_tasks (fst s)) k v" and "runs_with (ex_tasks (fst s)) k w"
  shows "v = w"
proof -
  have "locks_ok (ex_tasks (fst s)) (lock_at (fst s))"
    using exec_sys.inv_reachable [OF assms(1,2)] by (simp add: sys_inv_def)
  from locks_okD(1) [OF this assms(3)] assms(4,5) show ?thesis by (metis option.inject)
qed

lemma mutual_exclusion_witness:
  "{v. runs_with (ex_tasks demo_waiting) ''k'' v} = {0}"
proof -
  have 0: "runs_with (ex_tasks demo_waiting) ''k'' 0"
    by (simp add: demo_tasks runs_with_def demo_item_def item_key_def demo_iv_def)
  then show ?thesis
    using mutual_exclusion [OF demo_init demo_reaches(3), of "''k''" _ 0] by auto
qed

text \<open>C4: no wake-up is lost. Whenever a worker waits for a lock, either some worker runs
  under that lock, or the lock is free and its first waiter can be granted it at once.\<close>

theorem no_lost_wakeup:
  assumes "sys_init s0" and "rtranclp exec_step s0 s" and "waits_for (ex_tasks (fst s)) k w"
  shows "(\<exists>v. runs_with (ex_tasks (fst s)) k v) \<or>
    (\<exists>v wi ro. item_key wi = k \<and> ex_tasks (fst s) ! v = WaitLock wi ro \<and>
       exec_step s (lock_granted v wi ro (fst s), snd s))"
proof -
  obtain ex ps where s: "s = (ex, ps)" by (cases s)
  have ok: "locks_ok (ex_tasks ex) (lock_at ex)"
    using exec_sys.inv_reachable [OF assms(1,2)] by (simp add: sys_inv_def s)
  have k: "k \<noteq> []" using assms(3) locks_okD(5) [OF ok] by (auto simp: waits_for_def s)
  show ?thesis
  proof (cases "lk_holder (lock_at ex k)")
    case (Some v)
    then show ?thesis using locks_okD(1) [OF ok k] by (auto simp: s)
  next
    case None
    have "w \<in> set (lk_waiters (lock_at ex k))" using locks_okD(2) [OF ok k] assms(3) by (simp add: s)
    then obtain v ws where ws: "lk_waiters (lock_at ex k) = v # ws"
      by (cases "lk_waiters (lock_at ex k)") auto
    then have "waits_for (ex_tasks ex) k v" using locks_okD(2) [OF ok k, of v] by simp
    then obtain wi ro where v: "v < length (ex_tasks ex)" "ex_tasks ex ! v = WaitLock wi ro" "item_key wi = k"
      by (auto simp: waits_for_def)
    have "exec_step (ex, ps) (lock_granted v wi ro ex, ps)"
      using v ws None by (intro exec_step.granted) simp_all
    then show ?thesis using v by (auto simp: s)
  qed
qed

lemma no_lost_wakeup_witness:
  "waits_for (ex_tasks demo_waiting) ''k'' 1 \<and>
    ((\<exists>v. runs_with (ex_tasks demo_waiting) ''k'' v) \<or>
     (\<exists>v wi ro. item_key wi = ''k'' \<and> ex_tasks demo_waiting ! v = WaitLock wi ro \<and>
       exec_step (demo_waiting, []) (lock_granted v wi ro demo_waiting, [])))"
proof -
  have "waits_for (ex_tasks demo_waiting) ''k'' 1"
    by (simp add: demo_tasks waits_for_def demo_item2_def item_key_def demo_iv2_def)
  then show ?thesis
    using no_lost_wakeup [OF demo_init demo_reaches(3), of "''k''" 1] by simp
qed

text \<open>The status of a run object, as a rank that never falls; a run that is not there yet is pending.\<close>

definition status_rank :: "nat \<Rightarrow> sys \<Rightarrow> run_status" where
  "status_rank a s = (if a < js_next (ex_js (fst s)) then rs_status (js_rheap (ex_js (fst s)) a) else PENDING)"

lemma life_step_grows: "life_step rs rs' \<Longrightarrow> rs_status rs \<le> rs_status rs'"
  by (auto simp: life_step_def less_eq_run_status_def)

interpretation exec_life: monotone_system sys_init exec_step "\<lambda>s. sys_inv s \<and> sys_loop s" "status_rank a" for a
proof unfold_locales
  fix s t assume "sys_inv s \<and> sys_loop s" "exec_step s t"
  then have "lives (ex_js (fst s)) (ex_js (fst t))" by (rule lives_step)
  then show "status_rank a s \<le> status_rank a t"
    using life_step_grows by (auto simp: status_rank_def lives_def less_eq_run_status_def [of PENDING])
qed

text \<open>C6: the life cycle of a run. One step of the executor leaves the state object of a run
  as it is, or moves it from \<open>PENDING\<close> to \<open>RUNNING\<close> or \<open>CANCELLED\<close>, or writes a
  \<open>RUNNING\<close> run without making it \<open>PENDING\<close> again; and however many steps follow, the run's
  status only moves forward in the order of its life, in which the four ends are maximal.\<close>

theorem run_lifecycle:
  assumes "sys_init s0" and "rtranclp exec_step s0 s" and "exec_step s t" and "rtranclp exec_step t u"
    and "a < js_next (ex_js (fst s))"
  shows "life_step (js_rheap (ex_js (fst s)) a) (js_rheap (ex_js (fst t)) a) \<and>
    rs_status (js_rheap (ex_js (fst s)) a) \<le> rs_status (js_rheap (ex_js (fst u)) a)"
proof -
  have l: "lives (ex_js (fst s)) (ex_js (fst t))"
    by (rule lives_step [OF exec_sys.inv_reachable [OF assms(1,2)] assms(3)])
  have su: "rtranclp exec_step s u" using assms(3,4) by (rule converse_rtranclp_into_rtranclp)
  have "a < js_next (ex_js (fst u))"
  proof (rule exec_sys.stable_reachable [OF assms(1,2) su, where P = "\<lambda>x. a < js_next (ex_js (fst x))"])
    fix x y assume "sys_inv x \<and> sys_loop x" "a < js_next (ex_js (fst x))" "exec_step x y"
    then show "a < js_next (ex_js (fst y))" using lives_step [of x y] by (simp add: lives_def)
  qed (rule assms(5))
  then show ?thesis
    using l exec_life.rank_grows [OF assms(1,2) su, of a] assms(5) by (simp add: status_rank_def lives_def)
qed

lemma run_lifecycle_witness:
  "life_step (js_rheap (ex_js demo_queued) 0) (js_rheap (ex_js demo_running) 0) \<and>
    rs_status (js_rheap (ex_js demo_queued) 0) \<le> rs_status (js_rheap (ex_js demo_running) 0) \<and>
    rs_status (js_rheap (ex_js demo_queued) 0) = PENDING \<and>
    rs_status (js_rheap (ex_js demo_running) 0) = RUNNING"
proof -
  have "0 < js_next (ex_js demo_queued)" "rs_status (js_rheap (ex_js demo_queued) 0) = PENDING"
    "rs_status (js_rheap (ex_js demo_running) 0) = RUNNING" by code_simp+
  then show ?thesis
    using run_lifecycle [OF demo_init demo_reaches(1) demo_steps(2) rtranclp.rtrancl_refl, of 0] by simp
qed

text \<open>C2: a terminal state is final. Once a run has succeeded, failed, timed out or been
  cancelled, nothing the executor does later changes its state object: not its status, its
  result, its error or its times.\<close>

theorem terminal_is_final:
  assumes "sys_init s0" and "rtranclp exec_step s0 s" and "rtranclp exec_step s t"
    and "a < js_next (ex_js (fst s))" and "terminal_status (rs_status (js_rheap (ex_js (fst s)) a))"
  shows "js_rheap (ex_js (fst t)) a = js_rheap (ex_js (fst s)) a"
proof -
  let ?rs = "js_rheap (ex_js (fst s)) a"
  let ?P = "\<lambda>u. a < js_next (ex_js (fst u)) \<and> js_rheap (ex_js (fst u)) a = ?rs"
  have "?P t"
  proof (rule exec_sys.stable_reachable [OF assms(1-3), where P = ?P])
    show "?P s" using assms(4) by simp
    fix x y
    assume "sys_inv x \<and> sys_loop x" and P: "?P x" and "exec_step x y"
    then have l: "lives (ex_js (fst x)) (ex_js (fst y))" by (intro lives_step)
    then have "life_step (js_rheap (ex_js (fst x)) a) (js_rheap (ex_js (fst y)) a)"
      using P unfolding lives_def by blast
    then have "js_rheap (ex_js (fst y)) a = js_rheap (ex_js (fst x)) a"
      using P assms(5) by (intro life_step_terminal) simp_all
    then show "?P y" using P l by (simp add: lives_def)
  qed
  then show ?thesis ..
qed

lemma terminal_is_final_witness:
  "rs_status (js_rheap (ex_js demo_done) 0) = SUCCEEDED \<and>
    js_rheap (ex_js (snd (exec_cancel ''a'' demo_done))) 0 = js_rheap (ex_js demo_done) 0"
proof -
  have s: "0 < js_next (ex_js demo_done)" "rs_status (js_rheap (ex_js demo_done) 0) = SUCCEEDED"
    by code_simp+
  have "rtranclp exec_step (demo_done, []) (snd (exec_cancel ''a'' demo_done), [])"
    by (rule r_into_rtranclp, rule exec_step.cancelled)
  from terminal_is_final [OF demo_init demo_reaches(4) this, of 0] s show ?thesis by simp
qed

text \<open>A handler runs only for its own run, and that run says so. The state object a
  worker holds while its handler runs is marked \<open>RUNNING\<close>, carries the run id of the
  worker's invocation, and no other worker, queued item or pending submission has that id.\<close>

theorem running_is_owned:
  assumes "sys_init s0" and "rtranclp exec_step s0 s"
    and "w < length (ex_tasks (fst s))" and "ex_tasks (fst s) ! w = Running wi a"
  shows "rs_status (js_rheap (ex_js (fst s)) a) = RUNNING \<and>
    inv_run_id (wi_invocation wi) = Some (rs_run_id (js_rheap (ex_js (fst s)) a)) \<and>
    owners (rs_run_id (js_rheap (ex_js (fst s)) a)) s = 1"
proof -
  obtain ex ps where s: "s = (ex, ps)" by (cases s)
  have ok: "runs_ok (ex, ps)"
    using exec_sys.inv_reachable [OF assms(1,2)] by (simp add: sys_inv_def s)
  have t: "obj_ok (ex_js ex) wi a" "rs_status (js_rheap (ex_js ex) a) = RUNNING"
    using runs_okD(2) [OF ok, of w] assms(3,4) by (simp_all add: s task_ok_def)
  let ?r = "rs_run_id (js_rheap (ex_js ex) a)"
  have "task_id (ex_tasks ex ! w) = Some ?r"
    using t(1) assms(4) by (simp add: s task_id_def obj_ok_def)
  then have "length (filter (\<lambda>t. task_id t = Some ?r) (ex_tasks ex)) \<noteq> 0"
    using assms(3) nth_mem [of w "ex_tasks ex"] unfolding filter_length_0 by (auto simp: s)
  then have "owners ?r (ex, ps) = 1"
    using runs_okD(6) [OF ok, of ?r] unfolding owners_def fst_conv by linarith
  with t show ?thesis by (simp add: s obj_ok_def item_id_def)
qed

lemma running_is_owned_witness:
  "rs_status (js_rheap (ex_js demo_waiting) 0) = RUNNING \<and>
    owners (rs_run_id (js_rheap (ex_js demo_waiting) 0)) (demo_waiting, []) = 1"
  using running_is_owned [OF demo_init demo_reaches(3), of 0 demo_item 0] by (simp add: demo_tasks)

text \<open>C3: a finished handler settles its run. When a worker's handler ends with an outcome the
  executor classifies (a result, a timeout, an exempt exception or another \<open>Exception\<close>), the
  run's object takes the matching terminal status, with a finishing time; the worker no longer
  runs under any lock; and a waiter suspended on the run's pending future resumes with exactly
  the handler's outcome.\<close>

theorem finish_settles_run:
  assumes "sys_init s0" and "rtranclp exec_step s0 (ex, ps)"
    and w: "w < length (ex_tasks ex)" and run: "ex_tasks ex ! w = Running wi a"
    and caught: "run_end_of (ex_exempt ex) out = Caught st v e"
    and r: "rs_run_id (js_rheap (ex_js ex) a) = r"
  shows "rs_status (js_rheap (ex_js (finish_turn w wi a out ex)) a) = st \<and> terminal_status st \<and>
    rs_finished_at (js_rheap (ex_js (finish_turn w wi a out ex)) a) \<noteq> None \<and>
    (\<forall>k. \<not> runs_with (ex_tasks (finish_turn w wi a out ex)) k w) \<and>
    (\<forall>f. get_future (ex_js ex) r = Some f \<longrightarrow> js_fheap (ex_js ex) f = FPending \<longrightarrow>
       (\<exists>ex'. wait_poll r (AwaitFuture f) (finish_turn w wi a out ex) = Some (out, ex')))"
proof -
  let ?ex' = "finish_turn w wi a out ex"
  obtain t where h: "js_rheap (ex_js ?ex') a =
      finished_run t (end_run_state (Caught st v e) (js_rheap (ex_js ex) a))"
    using conclude_run_rheap [of True a "wi_invocation wi" out ex] by (auto simp: finish_turn_simps caught)
  have "\<not> runs_with (ex_tasks ?ex') k w" for k
    using w by (auto simp: finish_turn_simps runs_with_def split: sum.splits)
  moreover have "\<exists>ex'. wait_poll r (AwaitFuture f) ?ex' = Some (out, ex')"
    if "get_future (ex_js ex) r = Some f" and "js_fheap (ex_js ex) f = FPending" for f
  proof -
    have "js_fheap (ex_js ?ex') f = (case e of None \<Rightarrow> FResult v | Some x \<Rightarrow> FException x)"
      using conclude_run_future [of ex a f out st v e "wi_invocation wi"] that caught r
      by (simp add: finish_turn_simps)
    moreover have "(case e of None \<Rightarrow> Inr v | Some x \<Rightarrow> Inl x) = out"
      using caught by (auto simp: run_end_of_def split: sum.splits if_splits)
    ultimately show ?thesis by (cases e) (auto simp: wait_poll_def)
  qed
  ultimately show ?thesis
    using run_end_caught_status [OF caught] by (simp add: h end_run_state_status)
qed

lemma finish_settles_run_witness:
  "rs_status (js_rheap (ex_js demo_done) 0) = SUCCEEDED \<and>
    (\<exists>ex'. wait_poll ''a'' (AwaitFuture 1) demo_done = Some (Inr VNone, ex'))"
proof -
  have c: "run_end_of (ex_exempt demo_running) (Inr VNone) = Caught SUCCEEDED VNone None"
    by (simp add: run_end_of_def)
  have f: "rs_run_id (js_rheap (ex_js demo_running) 0) = ''a''"
    "get_future (ex_js demo_running) ''a'' = Some 1" "js_fheap (ex_js demo_running) 1 = FPending"
    by code_simp+
  show ?thesis
    using finish_settles_run [OF demo_init demo_reaches(2) _ _ c f(1), of 0 demo_item] f(2,3)
    by (simp add: demo_tasks demo_done_def)
qed

text \<open>An exception that no clause catches strands its run. A handler outcome that is
  neither a timeout, nor exempt, nor an \<open>Exception\<close> (with a custom \<open>exempt_exceptions\<close>
  this includes \<open>CancelledError\<close>, which task cancellation raises) ends the worker task for
  good, leaves the run's status at \<open>RUNNING\<close> and leaves its future pending, so its waiters
  hang; only the lock is released.\<close>

theorem escaping_outcome_strands_run:
  assumes w: "w < length (ex_tasks ex)" and ok: "js_ok (ex_js ex)"
    and esc: "run_end_of (ex_exempt ex) (Inl x) = Escapes x"
    and st: "rs_status (js_rheap (ex_js ex) a) = RUNNING"
    and r: "get_run_state (ex_js ex) r = Some a"
    and f: "get_future (ex_js ex) r = Some f" and p: "js_fheap (ex_js ex) f = FPending"
  shows "ex_tasks (finish_turn w wi a (Inl x) ex) ! w = Stopped \<and>
    status_of (ex_js (finish_turn w wi a (Inl x) ex)) r = Some RUNNING \<and>
    fut_at (ex_js (finish_turn w wi a (Inl x) ex)) r = Some FPending"
proof -
  let ?c = "conclude_run True a (wi_invocation wi) (Inl x) ex"
  let ?js = "ex_js (snd ?c)"
  obtain y where "fst ?c = Inl y" using conclude_run_escapes [OF esc] by blast
  then have "ex_tasks (finish_turn w wi a (Inl x) ex) ! w = Stopped"
    using w by (simp add: finish_turn_simps)
  moreover have "run_at ?js r = Some (finished_run t (js_rheap (ex_js ex) a)) \<and> fut_at ?js r = Some FPending"
    if t: "t = fst (read_wall ex)" for t
  proof -
    let ?ex1 = "audit_run_state a (upd_js (upd_run a (finished_run t)) (snd (read_wall ex)))"
    have "settle_run True a (wi_invocation wi) (Inl x) ex = (Some x, ex)"
      using esc by (simp add: settle_run_def run_end_escapes)
    then have js: "?js = snd (cleanup (fst (read_wall ?ex1)) (ex_js ?ex1))"
      by (simp add: conclude_run_def Let_def split_beta exec_cleanup_js t)
    have ok1: "js_ok (ex_js ?ex1)" using ok by simp
    have run1: "run_at (ex_js ?ex1) r = Some (finished_run t (js_rheap (ex_js ex) a))"
      using r by (simp add: run_at_upd_run)
    obtain ids where ids: "?js = fold forget_run ids (ex_js ?ex1)"
      "set ids \<subseteq> snd ` set (completed_runs (ex_js ?ex1))"
      using cleanup_forgets js by metis
    have "r \<notin> set ids"
    proof
      assume "r \<in> set ids"
      then obtain c where "c \<in> set (completed_runs (ex_js ?ex1))" "snd c = r" using ids(2) by auto
      then show False using completed_mem [OF ok1, of c] run1 st by auto
    qed
    then have "run_at ?js r = run_at (ex_js ?ex1) r" "fut_at ?js r = fut_at (ex_js ?ex1) r"
      using ids(1) fold_forget_views fold_forget_fut_at [OF ok1] by simp_all
    then show ?thesis using run1 f p by (simp add: fut_at_def)
  qed
  ultimately show ?thesis using st by (simp add: finish_turn_simps status_of_def)
qed

definition demo_strict :: exec where
  "demo_strict = demo_running\<lparr>ex_exempt := []\<rparr>"

lemma escaping_outcome_strands_run_witness:
  "ex_tasks (finish_turn 0 demo_item 0 (Inl cancelled_error) demo_strict) ! 0 = Stopped \<and>
    status_of (ex_js (finish_turn 0 demo_item 0 (Inl cancelled_error) demo_strict)) ''a'' = Some RUNNING"
proof -
  have e: "run_end_of (ex_exempt demo_strict) (Inl cancelled_error) = Escapes cancelled_error"
    by code_simp
  have "js_ok (ex_js demo_running)"
    using exec_sys.inv_reachable [OF demo_init demo_reaches(2)] by (simp add: sys_inv_def runs_ok_def)
  then have ok: "js_ok (ex_js demo_strict)" by (simp add: demo_strict_def)
  have f: "rs_status (js_rheap (ex_js demo_strict) 0) = RUNNING"
    "get_run_state (ex_js demo_strict) ''a'' = Some 0" "get_future (ex_js demo_strict) ''a'' = Some 1"
    "js_fheap (ex_js demo_strict) 1 = FPending" "0 < length (ex_tasks demo_strict)"
    by code_simp+
  show ?thesis
    using escaping_outcome_strands_run [OF f(5) ok e f(1-4)] by simp
qed

subsection \<open>Cancelling\<close>

lemma js_cancel_frames:
  "get_run_state (snd (js_cancel t r js)) r' = get_run_state js r'"
  "get_invocation (snd (js_cancel t r js)) r' = get_invocation js r'"
  "get_future (snd (js_cancel t r js)) r' = get_future js r'"
  "js_next (snd (js_cancel t r js)) = js_next js"
  by (rule js_cancel_cases [of js r t]; simp)+

lemma exec_cancel_fst: "fst (exec_cancel r ex) = fst (js_cancel (fst (read_wall ex)) r (ex_js ex))"
proof -
  have "ex_js (snd (read_wall ex)) = ex_js ex" by (simp add: read_wall_def)
  then show ?thesis by (simp add: exec_cancel_def Let_def split_beta)
qed

lemma exec_cancel_loop: "ex_loop (snd (exec_cancel r ex)) = ex_loop ex"
  by (rule ex_loop_step_frames)

text \<open>C12: cancellation is cooperative for a running handler. When a worker begins a pending
  run whose cancel flag is unset, the handler sees an unset flag; a later \<open>cancel\<close> answers
  \<open>''requested''\<close>, leaves the run \<open>RUNNING\<close>, and from then on \<open>is_cancelled\<close> is true
  in the handler's context.\<close>

theorem cancel_reaches_running_handler:
  assumes ok: "js_ok (ex_js ex)" and r: "get_run_state (ex_js ex) r = Some a"
    and st: "rs_status (js_rheap (ex_js ex) a) = PENDING" and fl: "\<not> js_is_cancelled (ex_js ex) r"
    and b: "begin_run (Some a) iv ex = (Some c, ex1)"
  shows "\<not> ctx_is_cancelled c (ex_js ex1) \<and> fst (exec_cancel r ex1) = ''requested'' \<and>
    status_of (ex_js (snd (exec_cancel r ex1))) r = Some RUNNING \<and>
    ctx_is_cancelled c (ex_js (snd (exec_cancel r ex1)))"
proof -
  have id: "rs_run_id (js_rheap (ex_js ex) a) = r"
    using js_okD(10) [OF ok] r by (simp add: get_run_state_def)
  obtain k where k: "map_of (js_flags (ex_js ex)) r = Some k"
    using js_okD(9) [OF ok, of r] r by (auto simp: get_run_state_def)
  have c: "c = run_ctx r iv (Some k)"
    and flags: "js_flags (ex_js ex1) = js_flags (ex_js ex)" "js_cheap (ex_js ex1) = js_cheap (ex_js ex)"
    and run1: "get_run_state (ex_js ex1) r = Some a"
    and st1: "rs_status (js_rheap (ex_js ex1) a) = RUNNING"
    using b st r id k
    by (auto simp: begin_run_def begin_after_check_def Let_def split_beta get_cancel_flag_def started_run_def)
  have can: "js_cancel t r (ex_js ex1) = (''requested'', set_flag r (ex_js ex1))" for t
    using js_cancel_running [OF run1 st1] .
  have ctx: "ctx_is_cancelled c js = js_cheap js k" for js
    by (simp add: c ctx_is_cancelled_def run_ctx_def)
  have js2: "js_cheap (ex_js (snd (exec_cancel r ex1))) = js_cheap (set_flag r (ex_js ex1))"
    "status_of (ex_js (snd (exec_cancel r ex1))) r = status_of (ex_js ex1) r"
    using quiet_frame(7,13) [OF exec_cancel_quiet, of r ex1] can
    by (simp_all add: status_of_def)
  have "js_cheap (set_flag r (ex_js ex1)) k" using flags k by (simp add: set_flag_def)
  moreover have "\<not> js_cheap (ex_js ex1) k" using fl k flags by (simp add: js_is_cancelled_def)
  ultimately show ?thesis
    using can js2 run1 st1 by (simp add: ctx exec_cancel_fst status_of_def run_at_def)
qed

lemma cancel_reaches_running_handler_witness:
  "\<exists>c ex1. begin_run (Some 0) demo_iv demo_queued = (Some c, ex1) \<and> \<not> ctx_is_cancelled c (ex_js ex1) \<and>
    ctx_is_cancelled c (ex_js (snd (exec_cancel ''a'' ex1)))"
proof -
  have ok: "js_ok (ex_js demo_queued)"
    using exec_sys.inv_reachable [OF demo_init demo_reaches(1)] by (simp add: sys_inv_def runs_ok_def)
  have f: "get_run_state (ex_js demo_queued) ''a'' = Some 0"
    "rs_status (js_rheap (ex_js demo_queued) 0) = PENDING" "\<not> js_is_cancelled (ex_js demo_queued) ''a''"
    by code_simp+
  obtain c ex1 where b: "begin_run (Some 0) demo_iv demo_queued = (Some c, ex1)"
    using begin_run_starts [of demo_queued 0 demo_iv] f(2) by (metis run_status.distinct(7))
  from cancel_reaches_running_handler [OF ok f b] b show ?thesis by blast
qed

text \<open>C13: a cancelled run never starts. Cancelling a pending run answers \<open>''cancelled''\<close>,
  fails its pending future with \<open>CancelledError\<close>, and a worker that takes it afterwards
  skips it without touching anything.\<close>

theorem cancelled_run_is_skipped:
  assumes ok: "js_ok (ex_js ex)" and r: "get_run_state (ex_js ex) r = Some a"
    and st: "rs_status (js_rheap (ex_js ex) a) = PENDING" and f: "fut_at (ex_js ex) r = Some FPending"
  shows "fst (exec_cancel r ex) = ''cancelled'' \<and>
    status_of (ex_js (snd (exec_cancel r ex))) r = Some CANCELLED \<and>
    fut_at (ex_js (snd (exec_cancel r ex))) r = Some (FException cancelled_error) \<and>
    begin_run (get_run_state (ex_js (snd (exec_cancel r ex))) r) iv (snd (exec_cancel r ex)) =
      (None, snd (exec_cancel r ex))"
proof -
  let ?t = "fst (read_wall ex)"
  note q = quiet_frame [OF exec_cancel_quiet, of r ex, simplified]
  have can: "js_cancel ?t r (ex_js ex) = (''cancelled'',
      settle_future r (FException cancelled_error) (upd_run a (cancelled_run ?t) (set_flag r (ex_js ex))))"
    by (rule js_cancel_pending [OF r st])
  have ok2: "js_ok (upd_run a (cancelled_run ?t) (set_flag r (ex_js ex)))" using ok by simp
  have "fut_at (ex_js (snd (exec_cancel r ex))) r = Some (FException cancelled_error)"
    using q(15) f by (simp add: can fut_at_settle [OF ok2])
  moreover have "get_run_state (ex_js (snd (exec_cancel r ex))) r = Some a"
    "rs_status (js_rheap (ex_js (snd (exec_cancel r ex))) a) = CANCELLED"
    using q(5,12) r by (simp_all add: can)
  ultimately show ?thesis
    by (simp add: exec_cancel_fst can begin_run_skip status_of_def run_at_def)
qed

text \<open>
  What the atomic segment leaves out: when the cancel comes between the check of \<open>begin_run\<close> and
  the assignment of the status, which another thread can do, it answers \<open>''cancelled''\<close> and fails
  the future, and the worker then sets the run to running and calls its handler all the same.
\<close>

lemma cancel_within_begin_lost:
  assumes ok: "js_ok (ex_js ex)" and r: "get_run_state (ex_js ex) r = Some a"
    and st: "rs_status (js_rheap (ex_js ex) a) = PENDING" and f: "fut_at (ex_js ex) r = Some FPending"
  shows "begin_run (Some a) iv ex = (case begin_after_check a iv ex of (c, ex1) \<Rightarrow> (Some c, ex1)) \<and>
    fst (exec_cancel r ex) = ''cancelled'' \<and>
    (let ex2 = snd (begin_after_check a iv (snd (exec_cancel r ex))) in
      status_of (ex_js ex2) r = Some RUNNING \<and> fut_at (ex_js ex2) r = Some (FException cancelled_error))"
proof -
  let ?t = "fst (read_wall ex)"
  note q = quiet_frame [OF exec_cancel_quiet, of r ex, simplified]
  have can: "js_cancel ?t r (ex_js ex) = (''cancelled'',
      settle_future r (FException cancelled_error) (upd_run a (cancelled_run ?t) (set_flag r (ex_js ex))))"
    by (rule js_cancel_pending [OF r st])
  have ok2: "js_ok (upd_run a (cancelled_run ?t) (set_flag r (ex_js ex)))" using ok by simp
  have f2: "fut_at (ex_js (snd (exec_cancel r ex))) r = Some (FException cancelled_error)"
    using q(15) f by (simp add: can fut_at_settle [OF ok2])
  have r2: "get_run_state (ex_js (snd (exec_cancel r ex))) r = Some a" using q(12) r by (simp add: can)
  have "fut_at (ex_js (snd (begin_after_check a iv ex2))) r = fut_at (ex_js ex2) r"
    "get_run_state (ex_js (snd (begin_after_check a iv ex2))) r = get_run_state (ex_js ex2) r"
    "rs_status (js_rheap (ex_js (snd (begin_after_check a iv ex2))) a) = RUNNING" for ex2
    by (simp_all add: begin_after_check_def Let_def split_beta started_run_def)
  then show ?thesis
    using f2 r2 st by (simp add: begin_run_def exec_cancel_fst can Let_def status_of_def run_at_def)
qed

lemma cancelled_run_is_skipped_witness:
  "fst (exec_cancel ''a'' demo_queued) = ''cancelled'' \<and>
    fut_at (ex_js (snd (exec_cancel ''a'' demo_queued))) ''a'' = Some (FException cancelled_error)"
proof -
  have ok: "js_ok (ex_js demo_queued)"
    using exec_sys.inv_reachable [OF demo_init demo_reaches(1)] by (simp add: sys_inv_def runs_ok_def)
  have f: "get_run_state (ex_js demo_queued) ''a'' = Some 0"
    "rs_status (js_rheap (ex_js demo_queued) 0) = PENDING" "fut_at (ex_js demo_queued) ''a'' = Some FPending"
    by code_simp+
  from cancelled_run_is_skipped [OF ok f] show ?thesis by simp
qed

subsection \<open>Windows between segments\<close>

lemma register_views:
  assumes "inv_run_id iv = Some r" and "js_ok (ex_js ex)"
  shows "get_run_state (ex_js (register_run iv ex)) r = Some (js_next (ex_js ex))"
    "js_rheap (ex_js (register_run iv ex)) (js_next (ex_js ex)) = run_state_of_invocation r iv"
    "run_at (ex_js (register_run iv ex)) r = Some (run_state_of_invocation r iv)"
    "get_future (ex_js (register_run iv ex)) r' = get_future (ex_js ex) r'"
    "js_ok (ex_js (register_run iv ex))" "ex_loop (register_run iv ex) = ex_loop ex"
proof -
  note q = quiet_frame [OF register_quiet [OF assms(1)], of ex, simplified]
  show "get_run_state (ex_js (register_run iv ex)) r = Some (js_next (ex_js ex))"
    using q(12) by (simp add: get_run_state_create [OF assms(1)])
  show "js_rheap (ex_js (register_run iv ex)) (js_next (ex_js ex)) = run_state_of_invocation r iv"
    using q(5) by (simp add: create_run_rheap [OF assms(1)])
  show "run_at (ex_js (register_run iv ex)) r = Some (run_state_of_invocation r iv)"
    using q(11) by (simp add: run_at_create [OF assms(2,1)])
  show "get_future (ex_js (register_run iv ex)) r' = get_future (ex_js ex) r'"
    using q(14) by (simp add: get_future_def)
  show "js_ok (ex_js (register_run iv ex))"
    using quiet_js_ok [OF register_quiet [OF assms(1)], of ex] assms(2) by simp
  show "ex_loop (register_run iv ex) = ex_loop ex"
    using register_quiet [OF assms(1), of ex] by (simp add: quiet_def)
qed

text \<open>C38: a cancellation can slip between the two halves of \<open>submit_threadsafe\<close>. If the run
  is cancelled after it was registered and before the loop enqueues it, the enqueueing half
  gives the cancelled run a new pending future, every worker that takes the item skips it, and
  a waiter on the run is suspended on a future nobody will resolve.\<close>

theorem cancel_before_enqueue_strands_waiter:
  assumes id: "inv_run_id iv = Some r" and ok: "js_ok (ex_js ex)" and l: "ex_loop ex \<noteq> None"
    and ex2: "ex2 = in_loop (enqueue_run r iv h) (snd (exec_cancel r (register_run iv ex)))"
  shows "fst (exec_cancel r (register_run iv ex)) = ''cancelled'' \<and>
    status_of (ex_js ex2) r = Some CANCELLED \<and>
    wait_poll r (wait_result r ex2) ex2 = None \<and>
    begin_run (get_run_state (ex_js ex2) r) iv ex2 = (None, ex2)"
proof -
  let ?ex1 = "register_run iv ex"
  let ?t = "fst (read_wall ?ex1)" and ?a = "js_next (ex_js ex)"
  note v = register_views [OF id ok]
  have st: "rs_status (js_rheap (ex_js ?ex1) ?a) = PENDING" by (simp add: v)
  note can = js_cancel_pending [OF v(1) st, of ?t]
  note q = quiet_frame [OF exec_cancel_quiet, of r ?ex1, simplified]
  let ?ex3 = "snd (exec_cancel r ?ex1)"
  let ?ex4 = "?ex3\<lparr>w_cur_loop := ex_loop ?ex3\<rparr>"
  have l4: "ex_loop ?ex4 \<noteq> None" using l by (simp add: ex_loop_step_frames v)
  have js: "ex_js ex2 = ex_js (enqueue_run r iv h ?ex4)" by (simp add: ex2 in_loop_def)
  note e = enqueue_run_simps [OF l4, of r iv h]
  have run: "get_run_state (ex_js ex2) r = Some ?a" "rs_status (js_rheap (ex_js ex2) ?a) = CANCELLED"
    using q(5,12) by (simp_all add: js e can v)
  have "get_future (ex_js ex2) r = Some (js_next (ex_js ?ex4))"
    "js_fheap (ex_js ex2) (js_next (ex_js ?ex4)) = FPending" by (simp_all add: js e)
  then have "wait_poll r (wait_result r ex2) ex2 = None"
    by (simp add: wait_result_def result_def wait_poll_def)
  then show ?thesis
    using run by (simp add: exec_cancel_fst can begin_run_skip status_of_def run_at_def)
qed

lemma cancel_before_enqueue_strands_waiter_witness:
  "\<exists>ex2. status_of (ex_js ex2) ''a'' = Some CANCELLED \<and> wait_poll ''a'' (wait_result ''a'' ex2) ex2 = None"
proof -
  have "js_ok (ex_js demo_start)"
    using sys_inv_init [OF demo_init] by (simp add: sys_inv_def runs_ok_def)
  moreover have "ex_loop demo_start \<noteq> None" by code_simp
  moreover have "inv_run_id demo_iv = Some ''a''" by (simp add: demo_iv_def)
  ultimately show ?thesis
    using cancel_before_enqueue_strands_waiter [of demo_iv "''a''" demo_start _ "Handler 0"] by blast
qed

text \<open>Waiting on a run in the same window returns too early. Between registration and
  enqueueing the run is \<open>PENDING\<close> and has no future yet, and \<open>wait_result\<close> then completes at
  once with \<open>None\<close>, as if the handler had returned \<open>None\<close>.\<close>

theorem wait_before_enqueue_returns_none:
  assumes id: "inv_run_id iv = Some r" and ok: "js_ok (ex_js ex)"
    and new: "get_future (ex_js ex) r = None"
  shows "status_of (ex_js (register_run iv ex)) r = Some PENDING \<and>
    wait_result r (register_run iv ex) = Ready (Inr VNone)"
  using register_views [OF id ok] new
  by (simp add: status_of_def wait_result_def result_def run_state_of_invocation_def blank_run_state_def)

lemma wait_before_enqueue_returns_none_witness:
  "status_of (ex_js (register_run demo_iv demo_start)) ''a'' = Some PENDING \<and>
    wait_result ''a'' (register_run demo_iv demo_start) = Ready (Inr VNone)"
proof -
  have "js_ok (ex_js demo_start)"
    using sys_inv_init [OF demo_init] by (simp add: sys_inv_def runs_ok_def)
  moreover have "get_future (ex_js demo_start) ''a'' = None" by code_simp
  ultimately show ?thesis
    by (intro wait_before_enqueue_returns_none) (simp_all add: demo_iv_def)
qed

text \<open>Shutting down loses the runs that wait for a lock. Cancelling the worker tasks ends
  a worker that waits for a lock, and its work item with it: afterwards no worker, queue entry
  or pending submission refers to the run, whose state and future are as before, so a pending
  run stays pending and its waiters are never woken.\<close>

theorem shutdown_loses_lock_waiters:
  assumes "sys_init s0" and "rtranclp exec_step s0 (ex, ps)"
    and w: "w < length (ex_tasks ex)" "w \<in> set (ex_workers ex)"
    and wt: "ex_tasks ex ! w = WaitLock wi ro" and r: "inv_run_id (wi_invocation wi) = Some r"
  shows "owners r (snd (shutdown_begin ex), ps) = 0 \<and> ex_js (snd (shutdown_begin ex)) = ex_js ex"
proof -
  have ok: "runs_ok (ex, ps)"
    using exec_sys.inv_reachable [OF assms(1,2)] by (simp add: sys_inv_def)
  let ?ts = "ex_tasks (snd (shutdown_begin ex))"
  have id: "task_id (ex_tasks ex ! w) = Some r" using wt r by (simp add: task_id_def item_id_def)
  note u = owner_task_unique [OF runs_okD(6) [OF ok] w(1) id]
  have ts: "length ?ts = length (ex_tasks ex)"
    "v < length (ex_tasks ex) \<Longrightarrow>
      ?ts ! v = (if v \<in> set (ex_workers ex) then cancel_task (ex_tasks ex ! v) else ex_tasks ex ! v)" for v
    by (simp_all add: shutdown_begin_def cancel_tasks_def cancel_fold)
  have "task_id (?ts ! v) \<noteq> Some r" if "v < length ?ts" for v
  proof (cases "v = w")
    case True
    then show ?thesis using w wt by (simp add: ts task_id_def)
  next
    case False
    have v: "v < length (ex_tasks ex)" using that ts(1) by simp
    have "task_id (ex_tasks ex ! v) \<noteq> Some r" by (rule u(1) [OF v False])
    then show ?thesis using cancel_task_id [of "ex_tasks ex ! v" r] by (auto simp: ts(2) [OF v])
  qed
  then have "length (filter (\<lambda>t. task_id t = Some r) ?ts) = 0"
    unfolding filter_length_0 by (auto simp: in_set_conv_nth)
  moreover have "queued (snd (shutdown_begin ex)) = queued ex"
    by (simp add: shutdown_begin_def cancel_tasks_def queued_def)
  ultimately have "owners r (snd (shutdown_begin ex), ps) = 0"
    using u(2,3) unfolding owners_def fst_conv snd_conv by (simp add: filter_empty_conv)
  then show ?thesis by (simp add: shutdown_begin_def cancel_tasks_def)
qed

lemma shutdown_loses_lock_waiters_witness:
  "status_of (ex_js demo_waiting) ''b'' = Some PENDING \<and> fut_at (ex_js demo_waiting) ''b'' = Some FPending \<and>
    owners ''b'' (snd (shutdown_begin demo_waiting), []) = 0 \<and>
    ex_js (snd (shutdown_begin demo_waiting)) = ex_js demo_waiting"
proof -
  have "status_of (ex_js demo_waiting) ''b'' = Some PENDING" "fut_at (ex_js demo_waiting) ''b'' = Some FPending"
    "ex_workers demo_waiting = [0, 1]" by code_simp+
  then show ?thesis
    using shutdown_loses_lock_waiters [OF demo_init demo_reaches(3), of 1 demo_item2 "Some 2" "''b''"]
    by (simp add: demo_tasks demo_item2_def demo_iv2_def)
qed

end
