(* ===== verification/Progress.thy ===== *)
theory Progress
  imports ExecSystem
begin

text \<open>
  Progress of the workers: of the steps of the executor, those the worker loop of
  \<open>executor/executor.py\<close> takes on its own, when every handler ends with an outcome the executor
  classifies. They use up a backlog, none of them is missing while there is one and a worker is
  alive, and none of the runs in it is lost.
\<close>

section \<open>The steps of the workers\<close>

inductive work_step :: "sys \<Rightarrow> sys \<Rightarrow> bool" where
  takes:
    "w < length (ex_tasks ex) \<Longrightarrow> ex_tasks ex ! w = Idle \<Longrightarrow> ex_queue ex = Some (wi # q) \<Longrightarrow>
     work_step (ex, ps) (take_item w wi q ex, ps)"
| is_granted:
    "w < length (ex_tasks ex) \<Longrightarrow> ex_tasks ex ! w = WaitLock wi ro \<Longrightarrow>
     lk_holder (lock_at ex (item_key wi)) = None \<Longrightarrow>
     lk_waiters (lock_at ex (item_key wi)) = w # ws \<Longrightarrow>
     work_step (ex, ps) (lock_granted w wi ro ex, ps)"
| finishes:
    "w < length (ex_tasks ex) \<Longrightarrow> ex_tasks ex ! w = Running wi a \<Longrightarrow>
     run_end_of (ex_exempt ex) out = Caught st v e \<Longrightarrow>
     work_step (ex, ps) (finish_turn w wi a out ex, ps)"

inductive_cases work_stepE: "work_step s t"

lemma work_step_exec: "work_step s t \<Longrightarrow> exec_step s t"
  by (induction rule: work_step.induct) (blast intro: exec_step.taken exec_step.granted exec_step.finished)+

lemma work_steps_exec: "rtranclp work_step s t \<Longrightarrow> rtranclp exec_step s t"
  by (rule rtranclp_mono [THEN predicate2D]) (auto intro: work_step_exec)

section \<open>The backlog\<close>

text \<open>What is left to do: three steps for a queued item, two for a worker that waits, one for a handler.\<close>

fun left_to_do :: "worker \<Rightarrow> nat" where
  "left_to_do Idle = 0"
| "left_to_do Stopped = 0"
| "left_to_do (Running wi a) = 1"
| "left_to_do (WaitLock wi ro) = 2"

definition backlog :: "exec \<Rightarrow> nat" where
  "backlog ex = 3 * length (queued ex) + sum_list (map left_to_do (ex_tasks ex))"

definition drained :: "exec \<Rightarrow> bool" where
  "drained ex \<longleftrightarrow> queued ex = [] \<and> (\<forall>t \<in> set (ex_tasks ex). t = Idle \<or> t = Stopped)"

lemma left_to_do_zero: "left_to_do t = 0 \<longleftrightarrow> t = Idle \<or> t = Stopped"
  by (cases t) simp_all

lemma backlog_zero: "backlog ex = 0 \<longleftrightarrow> drained ex"
  by (simp add: backlog_def drained_def left_to_do_zero)

lemma sum_list_turn:
  "w < length ts \<Longrightarrow> sum_list (map f (ts[w := t])) + f (ts ! w) = sum_list (map f ts) + (f t :: nat)"
  by (induction ts arbitrary: w) (auto simp: nth_Cons' list_update_code split: nat.split)

lemma start_turn_queued [simp]: "queued (start_turn w wi ro ex) = queued ex"
  by (rule start_turn_cases [of ro ex w wi]) simp_all

text \<open>A worker's turn: it has at most \<open>n\<close> steps to do afterwards, the others are as before.\<close>

definition turns :: "nat \<Rightarrow> nat \<Rightarrow> exec \<Rightarrow> exec \<Rightarrow> bool" where
  "turns w n ex ex' \<longleftrightarrow> (\<exists>t. ex_tasks ex' = (ex_tasks ex)[w := t] \<and> left_to_do t \<le> n)"

lemma start_turn_turns:
  assumes "ex_tasks exL = ex_tasks ex" and "1 \<le> n"
  shows "turns w n ex (start_turn w wi ro exL)"
proof (rule start_turn_cases [of ro exL w wi])
  assume "start_turn w wi ro exL = set_task w Idle (release_lock (item_key wi) exL)"
  then show ?thesis using assms by (auto simp: turns_def intro: exI [of _ Idle])
next
  fix a ex1 t
  assume "start_turn w wi ro exL = set_task w (Running wi a) ex1" "ex_tasks ex1 = ex_tasks exL"
  then show ?thesis using assms by (auto simp: turns_def intro: exI [of _ "Running wi a"])
qed

lemma take_item_turns: "turns w 2 ex (take_item w wi q ex) \<and> queued (take_item w wi q ex) = q"
proof -
  have "turns w 2 ex (set_task w (WaitLock wi ro) exL)" if "ex_tasks exL = ex_tasks ex" for ro exL
    using that by (auto simp: turns_def intro: exI [of _ "WaitLock wi ro"])
  then show ?thesis
    unfolding take_item_def Let_def by (auto simp: queued_def [of "ex\<lparr>ex_queue := _\<rparr>"] intro: start_turn_turns)
qed

lemma lock_granted_turns: "turns w 1 ex (lock_granted w wi ro ex) \<and> queued (lock_granted w wi ro ex) = queued ex"
  unfolding lock_granted_def Let_def by (auto intro: start_turn_turns)

lemma finish_turn_turns: "turns w 0 ex (finish_turn w wi a out ex)"
  unfolding turns_def finish_turn_simps by (intro exI conjI, rule refl) (simp split: sum.split)

lemma turns_backlog:
  assumes "turns w n ex ex'" and "w < length (ex_tasks ex)"
    and "3 * length (queued ex') + n < 3 * length (queued ex) + left_to_do (ex_tasks ex ! w)"
  shows "backlog ex' < backlog ex"
proof -
  obtain t where t: "ex_tasks ex' = (ex_tasks ex)[w := t]" "left_to_do t \<le> n"
    using assms(1) by (auto simp: turns_def)
  show ?thesis
    using sum_list_turn [OF assms(2), of left_to_do t] t(2) assms(3) unfolding backlog_def t(1) by linarith
qed

lemma work_step_backlog: "work_step s t \<Longrightarrow> backlog (fst t) < backlog (fst s)"
proof (induction rule: work_step.induct)
  case (takes w ex wi q ps)
  then show ?case
    using take_item_turns [of w ex wi q] by (auto intro!: turns_backlog [of w 2] simp: queued_def [of ex])
next
  case (is_granted w ex wi ro ws ps)
  then show ?case
    using lock_granted_turns [of w ex wi ro] by (auto intro!: turns_backlog [of w 1])
next
  case (finishes w ex wi a out st v e ps)
  then show ?case
    by (auto intro!: turns_backlog [OF finish_turn_turns] simp: finish_turn_simps)
qed

lemma work_steps_bounded: "(work_step ^^ n) s t \<Longrightarrow> n + backlog (fst t) \<le> backlog (fst s)"
proof (induction n arbitrary: t)
  case (Suc n)
  then obtain u where "(work_step ^^ n) s u" "work_step u t" by auto
  then show ?case using Suc.IH work_step_backlog by fastforce
qed simp

text \<open>While there is a backlog and a worker is alive, some worker can go on.\<close>

lemma work_goes_on:
  assumes inv: "sys_inv (ex, ps)" and alive: "t \<in> set (ex_tasks ex)" "t \<noteq> Stopped" and busy: "\<not> drained ex"
  shows "\<exists>u. work_step (ex, ps) u"
proof -
  have ok: "locks_ok (ex_tasks ex) (lock_at ex)" using inv by (simp add: sys_inv_def)
  consider (run) w wi a where "w < length (ex_tasks ex)" "ex_tasks ex ! w = Running wi a"
    | (wait) w wi ro where "w < length (ex_tasks ex)" "ex_tasks ex ! w = WaitLock wi ro"
        "\<And>v wi a. v < length (ex_tasks ex) \<Longrightarrow> ex_tasks ex ! v \<noteq> Running wi a"
    | (idle) w wi q where "w < length (ex_tasks ex)" "ex_tasks ex ! w = Idle" "ex_queue ex = Some (wi # q)"
  proof (cases "\<forall>t \<in> set (ex_tasks ex). t = Idle \<or> t = Stopped")
    case True
    then have "queued ex \<noteq> []" using busy by (simp add: drained_def)
    then obtain wi q where "ex_queue ex = Some (wi # q)"
      by (auto simp: queued_def neq_Nil_conv split: option.splits)
    moreover obtain w where "w < length (ex_tasks ex)" "ex_tasks ex ! w = Idle"
      using True alive by (metis in_set_conv_nth)
    ultimately show thesis by (rule idle [rotated 2])
  next
    case False
    then obtain w where w: "w < length (ex_tasks ex)" "ex_tasks ex ! w \<noteq> Idle" "ex_tasks ex ! w \<noteq> Stopped"
      by (metis in_set_conv_nth)
    show thesis
    proof (cases "\<exists>v wi a. v < length (ex_tasks ex) \<and> ex_tasks ex ! v = Running wi a")
      case True
      then show thesis using run by blast
    next
      case no: False
      then obtain wi ro where "ex_tasks ex ! w = WaitLock wi ro" using w by (cases "ex_tasks ex ! w") auto
      then show thesis using wait [OF w(1)] no by blast
    qed
  qed
  then show ?thesis
  proof cases
    case run
    have "run_end_of (ex_exempt ex) (Inr VNone) = Caught SUCCEEDED VNone None" by (simp add: run_end_of_def)
    with run show ?thesis by (blast intro: work_step.finishes)
  next
    case wait
    let ?k = "item_key wi"
    have k: "?k \<noteq> []" by (rule locks_okD(5) [OF ok wait(1,2)])
    have free: "lk_holder (lock_at ex ?k) = None"
    proof (rule ccontr)
      assume "lk_holder (lock_at ex ?k) \<noteq> None"
      then obtain v where "runs_with (ex_tasks ex) ?k v" using locks_okD(1) [OF ok k] by blast
      then show False using wait(3) by (auto simp: runs_with_def)
    qed
    have "w \<in> set (lk_waiters (lock_at ex ?k))"
      using locks_okD(2) [OF ok k, of w] wait(1,2) by (auto simp: waits_for_def)
    then obtain v ws where ws: "lk_waiters (lock_at ex ?k) = v # ws" by (cases "lk_waiters (lock_at ex ?k)") auto
    then have "waits_for (ex_tasks ex) ?k v" using locks_okD(2) [OF ok k, of v] by simp
    then obtain wi2 ro2 where "v < length (ex_tasks ex)" "ex_tasks ex ! v = WaitLock wi2 ro2" "item_key wi2 = ?k"
      by (auto simp: waits_for_def)
    then show ?thesis using work_step.is_granted [of v ex wi2 ro2 ws ps] free ws by auto
  next
    case idle
    then show ?thesis by (blast intro: work_step.takes)
  qed
qed

section \<open>No run of the backlog is lost\<close>

text \<open>The object of a run whose item is queued or with a worker.\<close>

fun task_object :: "worker \<Rightarrow> nat option" where
  "task_object (WaitLock wi ro) = ro"
| "task_object (Running wi a) = Some a"
| "task_object Idle = None"
| "task_object Stopped = None"

definition on_its_way :: "nat \<Rightarrow> exec \<Rightarrow> bool" where
  "on_its_way a ex \<longleftrightarrow>
    (\<exists>wi \<in> set (queued ex). Option.bind (item_id wi) (get_run_state (ex_js ex)) = Some a) \<or>
    (\<exists>t \<in> set (ex_tasks ex). task_object t = Some a)"

definition ended :: "nat \<Rightarrow> exec \<Rightarrow> bool" where
  "ended a ex \<longleftrightarrow> terminal_status (rs_status (js_rheap (ex_js ex) a))"

lemma on_its_way_cases:
  assumes "on_its_way a ex"
  obtains (queue) wi where "wi \<in> set (queued ex)" "Option.bind (item_id wi) (get_run_state (ex_js ex)) = Some a"
  | (task) w where "w < length (ex_tasks ex)" "task_object (ex_tasks ex ! w) = Some a"
  using assms by (auto simp: on_its_way_def in_set_conv_nth)

lemma on_its_way_queue:
  "wi \<in> set (queued ex) \<Longrightarrow> Option.bind (item_id wi) (get_run_state (ex_js ex)) = Some a \<Longrightarrow> on_its_way a ex"
  by (auto simp: on_its_way_def)

lemma on_its_way_task:
  "w < length (ex_tasks ex) \<Longrightarrow> task_object (ex_tasks ex ! w) = Some a \<Longrightarrow> on_its_way a ex"
  by (auto simp: on_its_way_def)

lemma start_turn_runs: "get_run_state (ex_js (start_turn w wi ro ex)) = get_run_state (ex_js ex)"
proof (cases "ro = None \<or> rs_status (js_rheap (ex_js ex) (the ro)) = CANCELLED")
  case True
  then show ?thesis by (simp add: start_turn_def begin_run_skip)
next
  case False
  then obtain a where a: "ro = Some a" "rs_status (js_rheap (ex_js ex) a) \<noteq> CANCELLED" by auto
  then show ?thesis
    by (auto simp: start_turn_def get_run_state_def fun_eq_iff elim: begin_run_starts [of ex a "wi_invocation wi"])
qed

text \<open>Cleanup forgets only runs that have ended.\<close>

lemma cleanup_keeps:
  assumes ok: "js_ok js" and b: "get_run_state js r = Some b"
    and live: "\<not> terminal_status (rs_status (js_rheap js b))"
  shows "get_run_state (snd (cleanup now js)) r = Some b"
proof -
  obtain ids where ids: "snd (cleanup now js) = fold forget_run ids js" "set ids \<subseteq> snd ` set (completed_runs js)"
    using cleanup_forgets by metis
  have "r \<notin> set ids"
  proof
    assume "r \<in> set ids"
    then obtain c where "c \<in> set (completed_runs js)" "snd c = r" using ids(2) by auto
    then show False using completed_mem [OF ok, of c] b live by (auto simp: view_defs get_run_state_def)
  qed
  then have "run_at (snd (cleanup now js)) r = run_at js r" by (simp add: ids(1) fold_forget_views)
  moreover have "run_at js r = Some (js_rheap js b)" using b by (simp add: view_defs)
  ultimately obtain b' where b': "get_run_state (snd (cleanup now js)) r = Some b'"
    by (auto simp: run_at_def)
  then have "b' = b" using b cleanup_sub [of now js r b'] by (simp add: get_run_state_def)
  with b' show ?thesis by simp
qed

lemma conclude_run_keeps:
  assumes "js_ok (ex_js ex)" and "get_run_state (ex_js ex) r = Some b"
    and "\<not> terminal_status (rs_status (js_rheap (ex_js (snd (conclude_run c a iv out ex))) b))"
  shows "get_run_state (ex_js (snd (conclude_run c a iv out ex))) r = Some b"
  using assms
  by (simp add: conclude_run_def Let_def split_beta exec_cleanup_js)
    (rule cleanup_keeps; simp add: get_run_state_def)

lemma start_turn_object:
  assumes "w < length (ex_tasks ex)"
  shows "on_its_way a (start_turn w wi (Some a) ex) \<or> ended a (start_turn w wi (Some a) ex)"
proof (rule start_turn_cases [of "Some a" ex w wi])
  assume "Some a = None \<or> rs_status (js_rheap (ex_js ex) (the (Some a))) = CANCELLED"
    and "start_turn w wi (Some a) ex = set_task w Idle (release_lock (item_key wi) ex)"
  then show ?thesis by (simp add: ended_def)
next
  fix b ex1 t
  assume "Some a = Some b" "start_turn w wi (Some a) ex = set_task w (Running wi b) ex1" "ex_tasks ex1 = ex_tasks ex"
  then show ?thesis using assms on_its_way_task [of w "start_turn w wi (Some a) ex" a] by simp
qed

lemma other_task:
  assumes "turns w n ex ex'" and "v < length (ex_tasks ex)" and "v \<noteq> w" and "task_object (ex_tasks ex ! v) = Some a"
  shows "on_its_way a ex'"
  using assms by (auto simp: turns_def intro: on_its_way_task [of v])

text \<open>A worker that takes an item has the item's object, or the run was cancelled.\<close>

lemma take_item_object:
  assumes w: "w < length (ex_tasks ex)" and a: "Option.bind (item_id wi) (get_run_state (ex_js ex)) = Some a"
  shows "on_its_way a (take_item w wi q ex) \<or> ended a (take_item w wi q ex)"
proof -
  have "on_its_way a (set_task w (WaitLock wi (Some a)) exL)" if "ex_tasks exL = ex_tasks ex" for exL
    using that w by (intro on_its_way_task [of w]) simp_all
  then show ?thesis
    using a w start_turn_object [of w _ a wi] unfolding take_item_def Let_def item_id_def by simp
qed

lemma take_item_runs: "get_run_state (ex_js (take_item w wi q ex)) = get_run_state (ex_js ex)"
  unfolding take_item_def Let_def by (simp add: start_turn_runs)

lemma work_step_keeps:
  assumes "work_step s t" and "sys_inv s" and "on_its_way a (fst s)"
  shows "on_its_way a (fst t) \<or> ended a (fst t)"
  using assms
proof (induction rule: work_step.induct)
  case (takes w ex wi q ps)
  have turn: "turns w 2 ex (take_item w wi q ex)" "queued (take_item w wi q ex) = q"
    using take_item_turns by blast+
  have "on_its_way a ex" using takes(5) by simp
  then have "on_its_way a (take_item w wi q ex) \<or> ended a (take_item w wi q ex)"
  proof (cases rule: on_its_way_cases)
    case (queue wi')
    show ?thesis
    proof (cases "wi' = wi")
      case True
      then show ?thesis using take_item_object [OF takes(1)] queue(2) by simp
    next
      case False
      then have "wi' \<in> set (queued (take_item w wi q ex))" using queue(1) takes(3) by (simp add: turn queued_def [of ex])
      then show ?thesis using queue(2) on_its_way_queue by (simp add: take_item_runs)
    qed
  next
    case (task v)
    then have "v \<noteq> w" using takes(2) by auto
    then show ?thesis using other_task [OF turn(1) task(1)] task(2) by simp
  qed
  then show ?case by simp
next
  case (is_granted w ex wi ro ws ps)
  have turn: "turns w 1 ex (lock_granted w wi ro ex)" "queued (lock_granted w wi ro ex) = queued ex"
    using lock_granted_turns by blast+
  have "on_its_way a ex" using is_granted(6) by simp
  then have "on_its_way a (lock_granted w wi ro ex) \<or> ended a (lock_granted w wi ro ex)"
  proof (cases rule: on_its_way_cases)
    case (queue wi')
    then have "wi' \<in> set (queued (lock_granted w wi ro ex))" by (simp add: turn)
    moreover have "get_run_state (ex_js (lock_granted w wi ro ex)) = get_run_state (ex_js ex)"
      by (simp add: lock_granted_def Let_def start_turn_runs)
    ultimately show ?thesis using queue(2) on_its_way_queue by simp
  next
    case (task v)
    show ?thesis
    proof (cases "v = w")
      case True
      then show ?thesis
        using task(2) is_granted(1,2) start_turn_object [of w _ a wi] by (simp add: lock_granted_def Let_def)
    next
      case False
      then show ?thesis using other_task [OF turn(1) task(1)] task(2) by simp
    qed
  qed
  then show ?case by simp
next
  case (finishes w ex wi b out st v e ps)
  let ?ex = "finish_turn w wi b out ex"
  have "js_ok (ex_js ex)" using finishes(4) by (simp add: sys_inv_def runs_ok_def)
  note keeps = conclude_run_keeps [OF this, of _ a True b "wi_invocation wi" out]
  have "on_its_way a ex" using finishes(5) by simp
  then have "on_its_way a ?ex \<or> ended a ?ex"
  proof (cases rule: on_its_way_cases)
    case (queue wi')
    then obtain r where r: "item_id wi' = Some r" "get_run_state (ex_js ex) r = Some a"
      by (auto simp: bind_eq_Some_conv)
    have "on_its_way a ?ex" if "\<not> ended a ?ex"
      using keeps [OF r(2)] that r(1) queue(1)
      by (intro on_its_way_queue [of wi']) (simp_all add: ended_def finish_turn_simps(2,3))
    then show ?thesis by blast
  next
    case (task u)
    show ?thesis
    proof (cases "u = w")
      case True
      then have "a = b" using task(2) finishes(2) by simp
      obtain t where "js_rheap (ex_js ?ex) b = finished_run t (end_run_state (Caught st v e) (js_rheap (ex_js ex) b))"
        using conclude_run_rheap [of True b "wi_invocation wi" out ex] finishes(3) by (auto simp: finish_turn_simps)
      then have "ended a ?ex"
        using run_end_caught_status [OF finishes(3)] by (simp add: ended_def \<open>a = b\<close> end_run_state_status)
      then show ?thesis ..
    next
      case False
      then show ?thesis using other_task [OF finish_turn_turns task(1)] task(2) by simp
    qed
  qed
  then show ?case by simp
qed

text \<open>What has ended has ended, and at the end of the work nothing is on its way.\<close>

lemma work_step_ended:
  assumes "work_step s t" and "sys_inv s \<and> sys_loop s" and "a < js_next (ex_js (fst s))" and "ended a (fst s)"
  shows "ended a (fst t)"
proof -
  have "life_step (js_rheap (ex_js (fst s)) a) (js_rheap (ex_js (fst t)) a)"
    using lives_step [OF assms(2) work_step_exec [OF assms(1)]] assms(3) by (simp add: lives_def)
  then show ?thesis using assms(4) life_step_terminal by (simp add: ended_def) metis
qed

lemma drained_none_on_its_way: "drained ex \<Longrightarrow> \<not> on_its_way a ex"
  by (fastforce simp: drained_def on_its_way_def)

lemma on_its_way_allocated:
  assumes "sys_inv (ex, ps)" and "on_its_way a ex"
  shows "a < js_next (ex_js ex)"
proof -
  have ok: "runs_ok (ex, ps)" using assms(1) by (simp add: sys_inv_def)
  from assms(2) show ?thesis
  proof (cases rule: on_its_way_cases)
    case (queue wi)
    then show ?thesis using taken_ro [OF ok queue(1), of a] by (simp add: item_id_def obj_ok_def)
  next
    case (task w)
    then show ?thesis
      using runs_okD(2) [OF ok task(1)] by (cases "ex_tasks ex ! w") (auto simp: task_ok_def obj_ok_def)
  qed
qed

lemma work_steps_keep:
  assumes "rtranclp work_step s t" and "sys_inv s \<and> sys_loop s" and "on_its_way a (fst s)"
  shows "sys_inv t \<and> sys_loop t \<and> a < js_next (ex_js (fst t)) \<and> (on_its_way a (fst t) \<or> ended a (fst t))"
  using assms(1)
proof induction
  case base
  then show ?case using assms on_its_way_allocated [of "fst s" "snd s" a] by simp
next
  case (step t u)
  then have inv: "sys_inv t \<and> sys_loop t" and a: "a < js_next (ex_js (fst t))" by simp_all
  have "sys_inv u \<and> sys_loop u" by (rule sys_inv_step [OF inv work_step_exec [OF step(2)]])
  moreover have "js_next (ex_js (fst t)) \<le> js_next (ex_js (fst u))"
    using lives_step [OF inv work_step_exec [OF step(2)]] by (simp add: lives_def)
  ultimately show ?case
    using step(3) a inv work_step_keeps [OF step(2)] work_step_ended [OF step(2) inv a] by auto
qed

text \<open>A run that \<open>submit\<close> accepted is on its way when the call returns.\<close>

lemma submitted_is_on_its_way:
  assumes run: "exec_loop_running ex" and sub: "submit he iv h ex = Some (Inr r, iv1, ex')"
  shows "\<exists>a. get_run_state (ex_js ex') r = Some a \<and> on_its_way a ex'"
proof -
  obtain r' iv' ex1 where a: "assign_run_id iv ex = (r', iv', ex1)" by (cases "assign_run_id iv ex")
  note id = assign_run_id_simps(1) [OF a]
  let ?R = "register_run iv' ex1"
  have r: "r' = r" and ex': "ex' = enqueue_run r iv' (handler_or_missing h) ?R"
    using submit_running [OF run a, of he h] sub by auto
  have l: "ex_loop ?R \<noteq> None"
    using exec_loop_running_loop [OF run] assign_run_id_simps(2) [OF a] register_quiet [OF id, of ex1]
    by (simp add: quiet_def)
  have "get_run_state (ex_js ?R) r = Some (js_next (ex_js ex1))"
    using quiet_frame [OF register_quiet [OF id, of ex1]] get_run_state_create [OF id, of "ex_js ex1"]
    by (simp add: get_run_state_def r)
  then have g: "get_run_state (ex_js ex') r = Some (js_next (ex_js ex1))"
    by (simp add: ex' enqueue_run_simps(6) [OF l])
  moreover have "on_its_way (js_next (ex_js ex1)) ex'"
    using g id r by (intro on_its_way_queue [of "\<lparr>wi_invocation = iv', wi_handler = handler_or_missing h\<rparr>"])
      (simp_all add: ex' enqueue_run_simps(3) [OF l] item_id_def)
  ultimately show ?thesis by blast
qed

text \<open>C5: the workers work off their backlog. From every reachable state of the executor, and as
  long as handlers end with outcomes the executor classifies, the steps of the workers are at most
  the backlog; and wherever they have got to, a worker can go on, or every worker has stopped, or
  nothing is queued, no worker waits or runs, and every run that was queued, waiting for a lock or
  running has ended.\<close>

theorem backlog_is_worked_off:
  assumes "sys_init s0" and "rtranclp exec_step s0 s"
  shows "(\<forall>n t. (work_step ^^ n) s t \<longrightarrow> n \<le> backlog (fst s)) \<and>
    (\<forall>t. rtranclp work_step s t \<longrightarrow>
       (\<exists>u. work_step t u) \<or> (\<forall>w \<in> set (ex_tasks (fst t)). w = Stopped) \<or>
       drained (fst t) \<and> (\<forall>a. on_its_way a (fst s) \<longrightarrow> ended a (fst t)))"
proof (intro conjI allI impI)
  fix n t assume "(work_step ^^ n) s t"
  then show "n \<le> backlog (fst s)" using work_steps_bounded by fastforce
next
  fix t assume t: "rtranclp work_step s t"
  have inv: "sys_inv s \<and> sys_loop s" by (rule exec_sys.inv_reachable [OF assms])
  have "sys_inv t" using exec_sys.inv_reachable [OF assms(1) rtranclp_trans [OF assms(2) work_steps_exec [OF t]]] by simp
  then have "(\<exists>u. work_step t u) \<or> (\<forall>w \<in> set (ex_tasks (fst t)). w = Stopped) \<or> drained (fst t)"
    using work_goes_on [of "fst t" "snd t"] by (metis prod.collapse)
  moreover have "ended a (fst t)" if "drained (fst t)" "on_its_way a (fst s)" for a
    using work_steps_keep [OF t inv that(2)] drained_none_on_its_way [OF that(1)] by blast
  ultimately show "(\<exists>u. work_step t u) \<or> (\<forall>w \<in> set (ex_tasks (fst t)). w = Stopped) \<or>
      drained (fst t) \<and> (\<forall>a. on_its_way a (fst s) \<longrightarrow> ended a (fst t))" by blast
qed

definition demo_free :: exec where
  "demo_free = finish_turn 0 demo_item 0 (Inr VNone) demo_waiting"

definition demo_second :: exec where
  "demo_second = lock_granted 1 demo_item2 (Some 2) demo_free"

definition demo_end :: exec where
  "demo_end = finish_turn 1 demo_item2 2 (Inr VNone) demo_second"

lemma demo_end_work: "rtranclp work_step (demo_waiting, []) (demo_end, []) \<and> drained demo_end"
proof -
  have caught: "run_end_of exempt (Inr VNone) = Caught SUCCEEDED VNone None" for exempt
    by (simp add: run_end_of_def)
  have "work_step (demo_waiting, []) (demo_free, [])"
    unfolding demo_free_def by (rule work_step.finishes [OF _ _ caught]) (simp_all add: demo_tasks)
  moreover have "ex_tasks demo_free = [Idle, WaitLock demo_item2 (Some 2)]"
    "lk_holder (lock_at demo_free (item_key demo_item2)) = None"
    "lk_waiters (lock_at demo_free (item_key demo_item2)) = [1]" by code_simp+
  then have "work_step (demo_free, []) (demo_second, [])"
    unfolding demo_second_def by (intro work_step.is_granted [where ws = "[]"]) simp_all
  moreover have "ex_tasks demo_second = [Idle, Running demo_item2 2]" by code_simp
  then have "work_step (demo_second, []) (demo_end, [])"
    unfolding demo_end_def by (intro work_step.finishes [OF _ _ caught]) simp_all
  moreover have "drained demo_end" by code_simp
  ultimately show ?thesis by (meson rtranclp.rtrancl_into_rtrancl rtranclp.rtrancl_refl)
qed

lemma backlog_is_worked_off_witness:
  "rtranclp work_step (demo_waiting, []) (demo_end, []) \<and> ended 0 demo_end \<and> ended 2 demo_end"
proof -
  have "\<not> work_step (demo_end, []) u" for u
    using demo_end_work work_step_backlog [of "(demo_end, [])" u] backlog_zero [of demo_end] by auto
  moreover have "\<not> (\<forall>w \<in> set (ex_tasks demo_end). w = Stopped)" by code_simp
  moreover have "on_its_way 0 demo_waiting" "on_its_way 2 demo_waiting"
    by (simp_all add: on_its_way_def demo_tasks)
  ultimately show ?thesis
    using backlog_is_worked_off [OF demo_init demo_reaches(3)] demo_end_work by (metis fst_conv)
qed

end
