(* ===== verification/SessionStore.thy ===== *)
theory SessionStore
  imports JobStore
begin

text \<open>
  Sessions: the policy (\<open>session/policy.py\<close>), the state of a session
  (\<open>session/models.py\<close>) and the store (\<open>session/store.py\<close>). Every method of the store takes
  its lock, except that \<open>gc\<close> takes it twice: collecting the expired sessions and marking them
  are two operations here.
\<close>

section \<open>State\<close>

datatype session_status = OPEN | CLOSED | EXPIRED

record session_policy =
  sp_lock_key_mode :: string
  sp_max_concurrent_runs :: "int option"
  sp_default_timeout_ms :: "int option"
  sp_idle_ttl_seconds :: "real option"

definition default_session_policy :: session_policy where
  "default_session_policy = \<lparr>sp_lock_key_mode = ''session'', sp_max_concurrent_runs = Some 8,
    sp_default_timeout_ms = None, sp_idle_ttl_seconds = Some 3600\<rparr>"

record session_state =
  ss_session_id :: string
  ss_principal :: string
  ss_created_at :: real
  ss_last_activity_at :: real
  ss_status :: session_status
  ss_policy :: session_policy
  ss_tags :: "(string, pyval) dict"
  ss_run_ids :: "string list"

record session_store =
  st_retain_last_n :: "int option"
  st_sessions :: "(string, session_state) dict"

definition new_session_store :: "int option \<Rightarrow> session_store" where
  "new_session_store retain = \<lparr>st_retain_last_n = retain, st_sessions = []\<rparr>"

section \<open>Operations\<close>

definition store_get :: "session_store \<Rightarrow> string \<Rightarrow> session_state option" where
  "store_get s sid = map_of (st_sessions s) sid"

definition store_create :: "session_state \<Rightarrow> session_store \<Rightarrow> unit res \<times> session_store" where
  "store_create st s =
    (if store_get s (ss_session_id st) \<noteq> None
     then (Inl (PyExc ValueErrorC (''Session already exists: '' @ ss_session_id st)), s)
     else (Inr (), s\<lparr>st_sessions := dict_set (ss_session_id st) st (st_sessions s)\<rparr>))"

record session_filters =
  sf_status :: "session_status filter_arg"
  sf_principal :: "string filter_arg"

definition store_list :: "session_filters \<Rightarrow> session_store \<Rightarrow> session_state list" where
  "store_list fs s =
    filter (\<lambda>st. passes (normalize_filter (sf_status fs)) (ss_status st) \<and>
                 passes (normalize_filter (sf_principal fs)) (ss_principal st))
      (map snd (st_sessions s))"

text \<open>Writing to the session object of an id, if there is one.\<close>

definition upd_session :: "string \<Rightarrow> (session_state \<Rightarrow> session_state) \<Rightarrow> session_store \<Rightarrow> session_store" where
  "upd_session sid f s =
    (case store_get s sid of None \<Rightarrow> s
     | Some st \<Rightarrow> s\<lparr>st_sessions := dict_set sid (f st) (st_sessions s)\<rparr>)"

definition store_close :: "real \<Rightarrow> string \<Rightarrow> session_status \<Rightarrow> session_store \<Rightarrow> session_store" where
  "store_close now sid status =
    upd_session sid (\<lambda>st. st\<lparr>ss_status := status, ss_last_activity_at := now\<rparr>)"

definition store_touch :: "real \<Rightarrow> string \<Rightarrow> session_store \<Rightarrow> session_store" where
  "store_touch ts sid = upd_session sid (\<lambda>st. st\<lparr>ss_last_activity_at := ts\<rparr>)"

definition store_add_run :: "string \<Rightarrow> string \<Rightarrow> session_store \<Rightarrow> session_store" where
  "store_add_run sid run_id = upd_session sid (\<lambda>st. st\<lparr>ss_run_ids := ss_run_ids st @ [run_id]\<rparr>)"

definition store_remove :: "string \<Rightarrow> session_store \<Rightarrow> session_state option \<times> session_store" where
  "store_remove sid s = (store_get s sid, s\<lparr>st_sessions := dict_pop sid (st_sessions s)\<rparr>)"

subsection \<open>Expiry\<close>

definition session_expired :: "real \<Rightarrow> session_state \<Rightarrow> bool" where
  "session_expired now st \<longleftrightarrow>
    (case sp_idle_ttl_seconds (ss_policy st) of None \<Rightarrow> False
     | Some ttl \<Rightarrow> ss_status st = OPEN \<and> ttl \<le> now - ss_last_activity_at st)"

definition gc_collect :: "real \<Rightarrow> session_store \<Rightarrow> string list" where
  "gc_collect now s = map ss_session_id (filter (session_expired now) (map snd (st_sessions s)))"

definition expire_session :: "string \<Rightarrow> session_store \<Rightarrow> session_store" where
  "expire_session sid = upd_session sid (\<lambda>st. st\<lparr>ss_status := EXPIRED\<rparr>)"

definition gc_mark :: "string list \<Rightarrow> session_store \<Rightarrow> session_store" where
  "gc_mark ids s = fold expire_session ids s"

definition store_gc :: "real \<Rightarrow> session_store \<Rightarrow> string list \<times> session_store" where
  "store_gc now s = (let ids = gc_collect now s in (ids, gc_mark ids s))"

section \<open>The contract of a store of mutable objects\<close>

text \<open>
  A client of the store updates sessions in place and relies on one law: an update reaches the
  object of its key, if there is one, and nothing else.
\<close>

locale object_store =
  fixes get :: "'s \<Rightarrow> 'k \<Rightarrow> 'v option"
    and upd :: "'k \<Rightarrow> ('v \<Rightarrow> 'v) \<Rightarrow> 's \<Rightarrow> 's"
    and ident :: "'v \<Rightarrow> 'k"
    and ok :: "'s \<Rightarrow> bool"
  assumes get_upd: "ok s \<Longrightarrow> get (upd k f s) k' = (if k' = k then map_option f (get s k) else get s k')"
    and ok_upd: "ok s \<Longrightarrow> (\<forall>v. ident (f v) = ident v) \<Longrightarrow> ok (upd k f s)"
    and ident_get: "ok s \<Longrightarrow> get s k = Some v \<Longrightarrow> ident v = k"
begin

lemma ok_upd_all: "ok s \<Longrightarrow> (\<forall>v. ident (f v) = ident v) \<Longrightarrow> ok (fold (\<lambda>k. upd k f) ks s)"
  by (induction ks arbitrary: s) (simp_all add: ok_upd)

text \<open>An idempotent update of many objects, in any order and with repetitions.\<close>

lemma get_upd_all:
  assumes "ok s" and "\<forall>v. ident (f v) = ident v" and "\<forall>v. f (f v) = f v"
  shows "get (fold (\<lambda>k. upd k f) ks s) k' =
    (if k' \<in> set ks then map_option f (get s k') else get s k')"
  using assms
proof (induction ks arbitrary: s)
  case (Cons k ks)
  have "get (fold (\<lambda>k. upd k f) ks (upd k f s)) k' =
      (if k' \<in> set ks then map_option f (get (upd k f s) k') else get (upd k f s) k')"
    using Cons.prems by (intro Cons.IH) (simp_all add: ok_upd)
  then show ?case
    using Cons.prems by (cases "get s k'") (auto simp: get_upd)
qed simp

end

definition store_ok :: "session_store \<Rightarrow> bool" where
  "store_ok s \<longleftrightarrow> dict_ok (st_sessions s) \<and>
    (\<forall>sid st. store_get s sid = Some st \<longrightarrow> ss_session_id st = sid)"

lemma store_get_upd:
  "store_get (upd_session sid f s) sid' =
    (if sid' = sid then map_option f (store_get s sid) else store_get s sid')"
  by (cases "store_get s sid") (auto simp: upd_session_def store_get_def dict_simps)

lemma store_ok_upd:
  assumes ok: "store_ok s" and "\<forall>st. ss_session_id (f st) = ss_session_id st"
  shows "store_ok (upd_session sid f s)"
proof -
  have "dict_ok (st_sessions (upd_session sid f s))"
    using ok by (cases "store_get s sid") (simp_all add: store_ok_def upd_session_def)
  then show ?thesis
    using assms by (auto simp: store_ok_def store_get_upd)
qed

interpretation sessions: object_store store_get upd_session ss_session_id store_ok
proof unfold_locales
  show "store_get (upd_session sid f s) sid' =
      (if sid' = sid then map_option f (store_get s sid) else store_get s sid')" for s sid f sid'
    by (rule store_get_upd)
  show "store_ok s \<Longrightarrow> \<forall>v. ss_session_id (f v) = ss_session_id v \<Longrightarrow> store_ok (upd_session sid f s)" for s sid f
    by (rule store_ok_upd)
qed (simp add: store_ok_def)

lemma upd_session_retain [simp]: "st_retain_last_n (upd_session sid f s) = st_retain_last_n s"
  by (cases "store_get s sid") (simp_all add: upd_session_def)

lemma store_ok_new [simp]: "store_ok (new_session_store n)"
  by (simp add: store_ok_def new_session_store_def store_get_def)

lemma store_ok_create: "store_ok s \<Longrightarrow> store_ok (snd (store_create st s))"
  by (auto simp: store_ok_def store_create_def store_get_def dict_simps)

lemma store_ok_ops [simp]:
  "store_ok s \<Longrightarrow> store_ok (store_touch t sid s)" "store_ok s \<Longrightarrow> store_ok (store_close t sid x s)"
  "store_ok s \<Longrightarrow> store_ok (store_add_run sid r s)" "store_ok s \<Longrightarrow> store_ok (expire_session sid s)"
  "store_ok s \<Longrightarrow> store_ok (snd (store_remove sid s))"
  by (auto simp: store_touch_def store_close_def store_add_run_def expire_session_def store_remove_def
      intro: store_ok_upd) (auto simp: store_ok_def store_get_def dict_simps)

lemma store_mem:
  assumes "store_ok s"
  shows "st \<in> snd ` set (st_sessions s) \<longleftrightarrow> store_get s (ss_session_id st) = Some st"
proof -
  have d: "(sid, st) \<in> set (st_sessions s) \<longleftrightarrow> store_get s sid = Some st" for sid
    using assms by (simp add: store_ok_def store_get_def dict_mem_iff)
  have "st \<in> snd ` set (st_sessions s) \<longleftrightarrow> (\<exists>sid. store_get s sid = Some st)"
    unfolding d [symmetric] by force
  then show ?thesis using assms by (auto simp: store_ok_def)
qed

section \<open>Properties\<close>

text \<open>Garbage collection expires exactly the idle open sessions. \<open>gc\<close> reports the ids of
  the open sessions whose idle time has reached their policy's limit; these become
  \<open>EXPIRED\<close> and nothing else changes; collecting again at the same time reports none.\<close>

theorem gc_expires_idle_sessions:
  assumes ok: "store_ok s"
  shows "(sid \<in> set (fst (store_gc now s)) \<longleftrightarrow>
      (\<exists>st. store_get s sid = Some st \<and> session_expired now st)) \<and>
    store_get (snd (store_gc now s)) sid =
      (case store_get s sid of None \<Rightarrow> None
       | Some st \<Rightarrow> Some (if session_expired now st then st\<lparr>ss_status := EXPIRED\<rparr> else st)) \<and>
    fst (store_gc now (snd (store_gc now s))) = []"
proof -
  have mem: "x \<in> set (gc_collect now t) \<longleftrightarrow> (\<exists>st. store_get t x = Some st \<and> session_expired now st)"
    if "store_ok t" for x t
  proof -
    have "x \<in> set (gc_collect now t) \<longleftrightarrow>
        (\<exists>st \<in> snd ` set (st_sessions t). session_expired now st \<and> ss_session_id st = x)"
      by (auto simp: gc_collect_def)
    also have "\<dots> \<longleftrightarrow> (\<exists>st. store_get t x = Some st \<and> session_expired now st)"
      using store_mem [OF that] that by (metis store_ok_def)
    finally show ?thesis .
  qed
  let ?f = "\<lambda>st. st\<lparr>ss_status := EXPIRED\<rparr>"
  have mark: "gc_mark ids s = fold (\<lambda>k. upd_session k ?f) ids s" for ids
    by (simp add: gc_mark_def expire_session_def [abs_def])
  have ok1: "store_ok (gc_mark ids s)" for ids
    unfolding mark by (intro sessions.ok_upd_all ok) simp
  have get: "store_get (gc_mark (gc_collect now s) s) x =
      (case store_get s x of None \<Rightarrow> None
       | Some st \<Rightarrow> Some (if session_expired now st then ?f st else st))" for x
    unfolding mark using sessions.get_upd_all [OF ok, of ?f "gc_collect now s" x] mem [OF ok, of x]
    by (auto split: option.split)
  have "gc_collect now (gc_mark (gc_collect now s) s) = []"
  proof -
    have "x \<notin> set (gc_collect now (gc_mark (gc_collect now s) s))" for x
      using get [of x] by (auto simp: mem [OF ok1] session_expired_def split: option.splits if_splits)
    then show ?thesis by (metis list.set_intros(1) neq_Nil_conv)
  qed
  then show ?thesis using mem [OF ok] get by (simp add: store_gc_def Let_def)
qed

definition demo_session :: "string \<Rightarrow> session_state" where
  "demo_session sid = \<lparr>ss_session_id = sid, ss_principal = ''p'', ss_created_at = 0,
    ss_last_activity_at = 0, ss_status = OPEN, ss_policy = default_session_policy, ss_tags = [],
    ss_run_ids = []\<rparr>"

definition demo_session_store :: session_store where
  "demo_session_store = snd (store_create (demo_session ''s'') (new_session_store (Some 100)))"

lemma gc_expires_idle_sessions_witness:
  "''s'' \<in> set (fst (store_gc 3600 demo_session_store))"
proof -
  have "store_ok demo_session_store" unfolding demo_session_store_def by (intro store_ok_create) simp
  moreover have "store_get demo_session_store ''s'' = Some (demo_session ''s'')"
    by (simp add: demo_session_store_def store_create_def store_get_def new_session_store_def demo_session_def)
  moreover have "session_expired 3600 (demo_session ''s'')"
    by (simp add: session_expired_def demo_session_def default_session_policy_def)
  ultimately show ?thesis using gc_expires_idle_sessions by blast
qed

end
