(* ===== verification/SessionManager.thy ===== *)
theory SessionManager
  imports ExecSystem Execution SessionStore
begin

text \<open>
  The session manager (\<open>session/manager.py\<close>): sessions on top of an executor. Its methods
  read the context of the calling thread, so a submission takes a run context. Formatted
  exception messages keep their fixed part. Each method is one atomic operation on the manager's
  state; a handler that runs inline inside a submission sees the executor, not the store.
\<close>

section \<open>State and sessions\<close>

record mgr =
  mg_exec :: exec
  mg_store :: session_store
  mg_default :: session_policy
  mg_rpc :: rpc_config

definition new_session_manager ::
  "exec \<Rightarrow> session_store option \<Rightarrow> session_policy option \<Rightarrow> rpc_config option \<Rightarrow> mgr" where
  "new_session_manager ex store policy rpc =
    \<lparr>mg_exec = ex,
     mg_store = (case store of None \<Rightarrow> new_session_store (Some 100) | Some s \<Rightarrow> s),
     mg_default = (case policy of None \<Rightarrow> default_session_policy | Some p \<Rightarrow> p),
     mg_rpc = (case rpc of None \<Rightarrow> default_rpc_config | Some c \<Rightarrow> c)\<rparr>"

definition new_session_state ::
  "string \<Rightarrow> string \<Rightarrow> real \<Rightarrow> session_policy \<Rightarrow> (string, pyval) dict \<Rightarrow> session_state" where
  "new_session_state sid who now policy tags =
    \<lparr>ss_session_id = sid, ss_principal = who, ss_created_at = now,
     ss_last_activity_at = now, ss_status = OPEN, ss_policy = policy, ss_tags = tags,
     ss_run_ids = []\<rparr>"

definition open_session ::
  "string \<Rightarrow> session_policy option \<Rightarrow> (string, pyval) dict \<Rightarrow> mgr \<Rightarrow> string res \<times> mgr" where
  "open_session who policy tags m =
    (let (sid, ex1) = fresh_uuid (mg_exec m);
         (now, ex2) = read_wall ex1;
         st = new_session_state sid who now
                (case policy of None \<Rightarrow> mg_default m | Some p \<Rightarrow> p) tags;
         (r, store) = store_create st (mg_store m)
     in (case r of Inl e \<Rightarrow> Inl e | Inr _ \<Rightarrow> Inr sid, m\<lparr>mg_exec := ex2, mg_store := store\<rparr>))"

definition require_session :: "string \<Rightarrow> mgr \<Rightarrow> session_state res" where
  "require_session sid m =
    (case store_get (mg_store m) sid of
       None \<Rightarrow> Inl (PyExc KeyErrorC (''Session not found: '' @ sid))
     | Some st \<Rightarrow> Inr st)"

definition get_session :: "string \<Rightarrow> mgr \<Rightarrow> session_state res" where
  "get_session sid m = require_session sid m"

definition close_session :: "string \<Rightarrow> mgr \<Rightarrow> unit res \<times> mgr" where
  "close_session sid m =
    (case require_session sid m of
       Inl e \<Rightarrow> (Inl e, m)
     | Inr st \<Rightarrow>
         if ss_status st = CLOSED then (Inr (), m)
         else let (t, ex1) = read_wall (mg_exec m)
              in (Inr (), m\<lparr>mg_exec := ex1, mg_store := store_close t sid CLOSED (mg_store m)\<rparr>))"

definition list_sessions :: "session_filters \<Rightarrow> mgr \<Rightarrow> session_state list" where
  "list_sessions fs m = store_list fs (mg_store m)"

definition gc_sessions :: "mgr \<Rightarrow> string list \<times> mgr" where
  "gc_sessions m =
    (let (t, ex1) = read_wall (mg_exec m); (ids, s) = store_gc t (mg_store m)
     in (ids, m\<lparr>mg_exec := ex1, mg_store := s\<rparr>))"

section \<open>Admission\<close>

definition ensure_session_open :: "session_state \<Rightarrow> unit res" where
  "ensure_session_open st =
    (if ss_status st = OPEN then Inr ()
     else Inl (PyExc RuntimeErrorC (''Session is not open: '' @ ss_session_id st)))"

definition resolve_parent_invocation ::
  "run_context \<Rightarrow> job_store \<Rightarrow> string option \<times> invocation option" where
  "resolve_parent_invocation c js =
    (case rc_run_id c of None \<Rightarrow> (None, None) | Some r \<Rightarrow> (Some r, get_invocation js r))"

definition resolve_origin_source :: "run_context \<Rightarrow> invocation option \<Rightarrow> string" where
  "resolve_origin_source c parent =
    (case parent of
       Some p \<Rightarrow> the (or_str (inv_origin_source p) (Some (inv_source p)))
     | None \<Rightarrow> the (or_str (rc_source c) (Some ''internal'')))"

definition resolve_source :: "run_context \<Rightarrow> string \<Rightarrow> string" where
  "resolve_source c origin = the (or_str (rc_source c) (or_str (Some origin) (Some ''internal'')))"

definition resolve_depth :: "invocation option \<Rightarrow> int" where
  "resolve_depth parent = (case parent of None \<Rightarrow> 0 | Some p \<Rightarrow> inv_depth p + 1)"

definition resolve_timeout :: "int option \<Rightarrow> session_state \<Rightarrow> int option" where
  "resolve_timeout timeout_ms st =
    (case timeout_ms of Some t \<Rightarrow> Some t | None \<Rightarrow> sp_default_timeout_ms (ss_policy st))"

definition resolve_lock_key :: "string option \<Rightarrow> session_state \<Rightarrow> string option \<Rightarrow> string" where
  "resolve_lock_key lock_key st current_run_id =
    (case lock_key of
       Some k \<Rightarrow> k
     | None \<Rightarrow>
         (case current_run_id of
            Some r \<Rightarrow> ''child:'' @ r
          | None \<Rightarrow>
              if sp_lock_key_mode (ss_policy st) = ''session'' then ''session:'' @ ss_session_id st
              else if sp_lock_key_mode (ss_policy st) = ''global'' then ''global''
              else []))"

definition detect_nested_deadlock :: "invocation option \<Rightarrow> string \<Rightarrow> bool \<Rightarrow> unit res" where
  "detect_nested_deadlock parent lock_key await_result =
    (if \<not> await_result then Inr ()
     else case parent of
            None \<Rightarrow> Inr ()
          | Some p \<Rightarrow>
              if inv_lock_key p = [] \<or> lock_key = [] then Inr ()
              else if lock_key \<noteq> inv_lock_key p then Inr ()
              else Inl (PyExc RuntimeErrorC ''Nested submit with same lock_key may deadlock''))"

definition ensure_workers_for_nested_await :: "string option \<Rightarrow> bool \<Rightarrow> exec \<Rightarrow> unit res" where
  "ensure_workers_for_nested_await current_run_id await_result ex =
    (if current_run_id = None \<or> \<not> await_result then Inr ()
     else if ec_workers (ex_config ex) < 2
     then Inl (PyExc RuntimeErrorC ''Nested submit with await_result requires executor workers >= 2'')
     else Inr ())"

text \<open>The loop of \<open>_assert_concurrency_limit\<close> over the session's run ids.\<close>

fun limit_reached :: "job_store \<Rightarrow> int \<Rightarrow> int \<Rightarrow> string list \<Rightarrow> bool" where
  "limit_reached js limit active [] = False"
| "limit_reached js limit active (r # rs) =
    (case status_of js r of
       None \<Rightarrow> limit_reached js limit active rs
     | Some st \<Rightarrow>
         let active' = (if active_status st then active + 1 else active) in
         if limit \<le> active' then True else limit_reached js limit active' rs)"

definition assert_concurrency_limit :: "session_state \<Rightarrow> job_store \<Rightarrow> unit res" where
  "assert_concurrency_limit st js =
    (case sp_max_concurrent_runs (ss_policy st) of
       None \<Rightarrow> Inr ()
     | Some limit \<Rightarrow>
         if limit \<le> 0 then Inr ()
         else if limit_reached js limit 0 (ss_run_ids st)
         then Inl (PyExc RuntimeErrorC ''Session concurrency limit exceeded: '')
         else Inr ())"

definition enforce_rpc_constraints :: "string \<Rightarrow> unit res" where
  "enforce_rpc_constraints origin =
    (if origin \<noteq> ''rpc'' then Inr ()
     else Inl (PyExc PermissionErrorC ''Session submit is not allowed in rpc-origin context''))"

text \<open>
  The checks of \<open>submit_command\<close> and \<open>submit_callable\<close> after the session was touched, in
  their order; the result is the lock key.
\<close>

definition admission ::
  "session_state \<Rightarrow> string option \<Rightarrow> invocation option \<Rightarrow> string \<Rightarrow> string option \<Rightarrow> bool \<Rightarrow> exec
   \<Rightarrow> string res" where
  "admission st current_run_id parent origin lock_key await_result ex =
    (case enforce_rpc_constraints origin of
       Inl e \<Rightarrow> Inl e
     | Inr _ \<Rightarrow>
    (case ensure_workers_for_nested_await current_run_id await_result ex of
       Inl e \<Rightarrow> Inl e
     | Inr _ \<Rightarrow>
    (case assert_concurrency_limit st (ex_js ex) of
       Inl e \<Rightarrow> Inl e
     | Inr _ \<Rightarrow>
         let key = resolve_lock_key lock_key st current_run_id in
    (case detect_nested_deadlock parent key await_result of
       Inl e \<Rightarrow> Inl e
     | Inr _ \<Rightarrow> Inr key))))"

subsection \<open>Trimming the session's runs\<close>

text \<open>
  \<open>_trim_runs\<close>: scanning from the oldest run, the runs that are over are collected until few
  enough remain, and then each is removed.
\<close>

definition run_over :: "job_store \<Rightarrow> string \<Rightarrow> bool" where
  "run_over js r = (case status_of js r of None \<Rightarrow> True | Some st \<Rightarrow> \<not> active_status st)"

fun trim_scan :: "job_store \<Rightarrow> int \<Rightarrow> int \<Rightarrow> string list \<Rightarrow> string list \<Rightarrow> string list" where
  "trim_scan js retain len trimmed [] = trimmed"
| "trim_scan js retain len trimmed (r # rs) =
    (let trimmed' = (if run_over js r then trimmed @ [r] else trimmed) in
     if len - int (length trimmed') \<le> retain then trimmed'
     else trim_scan js retain len trimmed' rs)"

definition trim_run_ids :: "int option \<Rightarrow> job_store \<Rightarrow> string list \<Rightarrow> string list" where
  "trim_run_ids retain js ids =
    (case retain of
       None \<Rightarrow> ids
     | Some k \<Rightarrow>
         if k < 0 then ids
         else if int (length ids) \<le> k then ids
         else fold remove1 (trim_scan js k (int (length ids)) [] ids) ids)"

definition trim_runs :: "string \<Rightarrow> mgr \<Rightarrow> mgr" where
  "trim_runs sid m =
    m\<lparr>mg_store := upd_session sid
       (\<lambda>st. st\<lparr>ss_run_ids := trim_run_ids (st_retain_last_n (mg_store m)) (ex_js (mg_exec m)) (ss_run_ids st)\<rparr>)
       (mg_store m)\<rparr>"

section \<open>Submitting\<close>

text \<open>The invocation goes to the executor; the new run joins the session.\<close>

definition submit_in_session ::
  "handler_env \<Rightarrow> string \<Rightarrow> invocation \<Rightarrow> handler_ref \<Rightarrow> mgr \<Rightarrow> (string res \<times> mgr) option" where
  "submit_in_session he sid iv h m =
    (case submit_threadsafe he iv (Some h) (mg_exec m) of
       None \<Rightarrow> None
     | Some (Inl e, _, ex1) \<Rightarrow> Some (Inl e, m\<lparr>mg_exec := ex1\<rparr>)
     | Some (Inr r, _, ex1) \<Rightarrow>
         Some (Inr r, trim_runs sid
                 (m\<lparr>mg_exec := ex1, mg_store := store_add_run sid r (mg_store m)\<rparr>)))"

text \<open>
  What both submissions share: the guards, the touch, the checks; \<open>build\<close> gives the
  invocation from the session, the current run, its invocation, the origin, the source and the
  lock key.
\<close>

definition submit_with ::
  "handler_env \<Rightarrow> run_context \<Rightarrow> string \<Rightarrow> string option \<Rightarrow> bool \<Rightarrow> handler_ref
   \<Rightarrow> (session_state \<Rightarrow> string option \<Rightarrow> invocation option \<Rightarrow> string \<Rightarrow> string \<Rightarrow> string \<Rightarrow> invocation)
   \<Rightarrow> mgr \<Rightarrow> (string res \<times> mgr) option" where
  "submit_with he c sid lock_key await_result h build m =
    (case require_session sid m of
       Inl e \<Rightarrow> Some (Inl e, m)
     | Inr st \<Rightarrow>
         (case ensure_session_open st of
            Inl e \<Rightarrow> Some (Inl e, m)
          | Inr _ \<Rightarrow>
              let (t, ex1) = read_wall (mg_exec m);
                  m1 = m\<lparr>mg_exec := ex1, mg_store := store_touch t sid (mg_store m)\<rparr>;
                  (current, parent) = resolve_parent_invocation c (ex_js ex1);
                  origin = resolve_origin_source c parent;
                  source = resolve_source c origin
              in case admission st current parent origin lock_key await_result ex1 of
                   Inl e \<Rightarrow> Some (Inl e, m1)
                 | Inr key \<Rightarrow> submit_in_session he sid (build st current parent origin source key) h m1))"

definition command_invocation ::
  "string \<Rightarrow> string option \<Rightarrow> string list \<Rightarrow> (string, pyval) dict \<Rightarrow> int option \<Rightarrow> session_state
   \<Rightarrow> string option \<Rightarrow> invocation option \<Rightarrow> string \<Rightarrow> string \<Rightarrow> string \<Rightarrow> invocation" where
  "command_invocation sid command_id argv kwargs timeout_ms st current parent origin source key =
    (let cc = parse_command_id command_id in
     to_invocation ((new_execution_context source)
       \<lparr>xc_principal := Some (ss_principal st), xc_console_name := cc_console_name cc,
        xc_command_id := command_id, xc_command_name := cc_command_name cc, xc_argv := argv,
        xc_kwargs := kwargs, xc_timeout_ms := resolve_timeout timeout_ms st, xc_lock_key := key,
        xc_session_id := Some sid, xc_parent_run_id := current,
        xc_origin_source := Some origin, xc_depth := resolve_depth parent,
        xc_audit_policy := (if origin = ''rpc'' then Some ''force'' else None)\<rparr>))"

definition submit_command ::
  "handler_env \<Rightarrow> run_context \<Rightarrow> string \<Rightarrow> string option \<Rightarrow> string list \<Rightarrow> (string, pyval) dict
   \<Rightarrow> int option \<Rightarrow> string option \<Rightarrow> bool \<Rightarrow> handler_ref \<Rightarrow> mgr \<Rightarrow> (string res \<times> mgr) option" where
  "submit_command he c sid command_id argv kwargs timeout_ms lock_key await_result h m =
    submit_with he c sid lock_key await_result h
      (command_invocation sid command_id argv kwargs timeout_ms) m"

text \<open>
  What \<open>_build_callable_meta\<close> reads of a function object.
\<close>

record callable_info =
  ci_name :: "string option"
  ci_qualname :: "string option"
  ci_module :: "string option"

definition val_of :: "string option \<Rightarrow> pyval" where
  "val_of s = (case s of None \<Rightarrow> VNone | Some x \<Rightarrow> VStr x)"

definition build_callable_meta ::
  "callable_info \<Rightarrow> string option \<Rightarrow> (string, pyval) dict \<Rightarrow> (string, pyval) dict" where
  "build_callable_meta f name tags =
    [(''name'', val_of (or_str name (Some (case ci_name f of None \<Rightarrow> ''callable'' | Some n \<Rightarrow> n)))),
     (''qualname'', val_of (ci_qualname f)), (''module'', val_of (ci_module f))] @
    (if tags = [] then [] else [(''tags'', VDict tags)])"

text \<open>
  \<open>_wrap_callable\<close>: a callable without parameters is called without the invocation; \<open>None\<close>: its
  signature cannot be read.
\<close>

definition wrap_callable :: "nat option \<Rightarrow> (invocation \<Rightarrow> 'r) \<Rightarrow> 'r \<Rightarrow> invocation \<Rightarrow> 'r" where
  "wrap_callable params with_inv without iv = (if params = Some 0 then without else with_inv iv)"

definition callable_invocation ::
  "string \<Rightarrow> callable_info \<Rightarrow> string option \<Rightarrow> (string, pyval) dict \<Rightarrow> int option \<Rightarrow> session_state
   \<Rightarrow> string option \<Rightarrow> invocation option \<Rightarrow> string \<Rightarrow> string \<Rightarrow> string \<Rightarrow> invocation" where
  "callable_invocation sid f name tags timeout_ms st current parent origin source key =
    default_invocation
      \<lparr>inv_source := source, inv_principal := Some (ss_principal st),
       inv_command_id := Some ''__callable__'', inv_timeout_ms := resolve_timeout timeout_ms st,
       inv_lock_key := key, inv_session_id := Some sid, inv_parent_run_id := current,
       inv_origin_source := Some origin, inv_depth := resolve_depth parent,
       inv_callable_meta := Some (build_callable_meta f name tags)\<rparr>"

definition submit_callable ::
  "handler_env \<Rightarrow> run_context \<Rightarrow> string \<Rightarrow> callable_info \<Rightarrow> string option \<Rightarrow> int option
   \<Rightarrow> string option \<Rightarrow> (string, pyval) dict \<Rightarrow> bool \<Rightarrow> handler_ref \<Rightarrow> mgr
   \<Rightarrow> (string res \<times> mgr) option" where
  "submit_callable he c sid f name timeout_ms lock_key tags await_result h m =
    submit_with he c sid lock_key await_result h (callable_invocation sid f name tags timeout_ms) m"

section \<open>Results and events\<close>

text \<open>
  \<open>result\<close> with a timeout wraps \<open>wait_result\<close> in \<open>asyncio.wait_for\<close>: when the deadline
  passes while the coroutine is suspended on the run's future, cancelling the coroutine cancels
  that future, and the coroutine's \<open>finally\<close> block runs.
\<close>

definition result_ready :: "string \<Rightarrow> awaiting \<Rightarrow> mgr \<Rightarrow> (pyval res \<times> mgr) option" where
  "result_ready run_id aw m =
    map_option (\<lambda>(r, ex). (r, m\<lparr>mg_exec := ex\<rparr>)) (wait_poll run_id aw (mg_exec m))"

definition result_timed_out :: "string \<Rightarrow> nat \<Rightarrow> mgr \<Rightarrow> pyval res \<times> mgr" where
  "result_timed_out run_id f m =
    (Inl timeout_error,
     m\<lparr>mg_exec := pop_on_wait run_id (upd_js (cancel_future (Some f)) (mg_exec m))\<rparr>)"

text \<open>
  The generator \<open>stream_events\<close>: what it yields from the events its queue receives, up to the
  first terminal event when it breaks on one, and whether it has ended.
\<close>

fun stream_yields :: "bool \<Rightarrow> runtime_event list \<Rightarrow> runtime_event list \<times> bool" where
  "stream_yields brk [] = ([], False)"
| "stream_yields brk (e # es) =
    (if brk \<and> is_terminal_event e then ([e], True)
     else let (ys, fin) = stream_yields brk es in (e # ys, fin))"

section \<open>RPC permissions\<close>

definition is_admin :: "string \<Rightarrow> rpc_config \<Rightarrow> bool" where
  "is_admin p cfg =
    (case rp_admin_principals cfg of None \<Rightarrow> False | Some ps \<Rightarrow> p \<in> set ps)"

definition principal_allowed :: "string option \<Rightarrow> rpc_config \<Rightarrow> bool" where
  "principal_allowed p cfg =
    (case rp_allowed_principals cfg of
       None \<Rightarrow> True
     | Some ps \<Rightarrow> if ps = [] then True else (case p of None \<Rightarrow> False | Some x \<Rightarrow> x \<in> set ps))"

definition is_rpc_allowed :: "(string, bool) dict \<Rightarrow> string option \<Rightarrow> rpc_config \<Rightarrow> bool" where
  "is_rpc_allowed exposure p cfg =
    (if \<not> ((case p of None \<Rightarrow> False | Some x \<Rightarrow> is_admin x cfg) \<or> principal_allowed p cfg) then False
     else if rp_require_rpc_exposed cfg \<or> rp_default_deny cfg then dict_get_or exposure ''rpc'' False
     else True)"

end
