(* ===== verification/SessionFacts.thy ===== *)
theory SessionFacts
  imports SessionManager
begin

text \<open>
  What holds of sessions (\<open>session/manager.py\<close>): trimming against a reference definition, the
  concurrency limit, and what a nested submission is allowed to do. A run of a session is
  active while its state exists and is \<open>PENDING\<close> or \<open>RUNNING\<close>.
\<close>

section \<open>Trimming\<close>

definition active_runs :: "job_store \<Rightarrow> string list \<Rightarrow> string list" where
  "active_runs js ids = filter (\<lambda>r. \<not> run_over js r) ids"

text \<open>The reference: drop the first \<open>n\<close> runs that are over, keep the rest in order.\<close>

fun drop_over :: "job_store \<Rightarrow> nat \<Rightarrow> string list \<Rightarrow> string list" where
  "drop_over js n [] = []"
| "drop_over js 0 ids = ids"
| "drop_over js (Suc n) (r # rs) =
    (if run_over js r then drop_over js n rs else r # drop_over js (Suc n) rs)"

lemma drop_over_0 [simp]: "drop_over js 0 ids = ids"
  by (cases ids) simp_all

lemma active_drop_over: "active_runs js (drop_over js n ids) = active_runs js ids"
  by (induction js n ids rule: drop_over.induct) (auto simp: active_runs_def)

lemma length_drop_over:
  "length (drop_over js n ids) = length ids - min n (length (filter (run_over js) ids))"
proof (induction js n ids rule: drop_over.induct)
  case (3 js n r rs)
  then show ?case
    by (cases "run_over js r") (auto simp: Suc_diff_le min_le_iff_disj)
qed simp_all

lemma fold_remove1_notin: "r \<notin> set ts \<Longrightarrow> fold remove1 ts (r # rs) = r # fold remove1 ts rs"
  by (induction ts arbitrary: rs) auto

text \<open>Removing by value the first \<open>n\<close> runs that are over removes just these positions.\<close>

lemma fold_remove1_over:
  "fold remove1 (take n (filter (run_over js) ids)) ids = drop_over js n ids"
proof (induction js n ids rule: drop_over.induct)
  case (3 js n r rs)
  show ?case
  proof (cases "run_over js r")
    case False
    then have "r \<notin> set (take (Suc n) (filter (run_over js) rs))" by (auto dest: in_set_takeD)
    with 3 False show ?thesis by (simp add: fold_remove1_notin)
  qed (use 3 in simp)
qed simp_all

lemma trim_scan_take:
  "retain < len - int (length trimmed) \<Longrightarrow>
   trim_scan js retain len trimmed ids =
     trimmed @ take (nat (len - int (length trimmed) - retain)) (filter (run_over js) ids)"
proof (induction js retain len trimmed ids rule: trim_scan.induct)
  case (2 js retain len trimmed r rs)
  show ?case
  proof (cases "run_over js r")
    case True
    let ?k = "nat (len - int (length trimmed) - retain)"
    have k: "?k = Suc (nat (len - int (length (trimmed @ [r])) - retain))"
      using "2.prems" by simp
    show ?thesis
    proof (cases "len - int (length (trimmed @ [r])) \<le> retain")
      case False
      with 2(1) [of "trimmed @ [r]"] True k show ?thesis by simp
    qed (use True k in simp)
  qed (use 2 in simp)
qed simp

lemma length_over_active: "length (filter (run_over js) ids) + length (active_runs js ids) = length ids"
  unfolding active_runs_def by (metis length_filter_split)

lemma retained_count:
  fixes over act n :: nat and k :: int
  assumes "over + act = n" and "0 \<le> k"
  shows "int (n - min (nat (int n - k)) over) = min (int n) (max k (int act))"
  using assms by linarith

lemma trim_run_ids_eq:
  assumes "0 \<le> k"
  shows "trim_run_ids (Some k) js ids = drop_over js (nat (int (length ids) - k)) ids"
proof (cases "int (length ids) \<le> k")
  case False
  then have "trim_scan js k (int (length ids)) [] ids =
      take (nat (int (length ids) - k)) (filter (run_over js) ids)"
    by (simp add: trim_scan_take)
  with False assms show ?thesis by (simp add: trim_run_ids_def fold_remove1_over)
qed (use assms in \<open>simp add: trim_run_ids_def\<close>)

lemma active_trim: "active_runs js (trim_run_ids retain js ids) = active_runs js ids"
proof (cases retain)
  case (Some k)
  then show ?thesis
    by (cases "0 \<le> k") (simp_all add: trim_run_ids_eq active_drop_over, simp add: trim_run_ids_def)
qed (simp add: trim_run_ids_def)

text \<open>C18: trimming a session equals the reference: \<open>_trim_runs\<close> with retention \<open>k\<close> drops, from the
  oldest on, as many runs that are over as the session has runs above \<open>k\<close>. So it never drops
  an active run, keeps the order, and leaves \<open>k\<close> runs, or the active ones when they are more.\<close>

theorem trim_drops_oldest_over:
  assumes "0 \<le> k"
  shows "trim_run_ids (Some k) js ids = drop_over js (nat (int (length ids) - k)) ids \<and>
    active_runs js (trim_run_ids (Some k) js ids) = active_runs js ids \<and>
    int (length (trim_run_ids (Some k) js ids)) =
      min (int (length ids)) (max k (int (length (active_runs js ids))))"
proof -
  have "int (length (drop_over js (nat (int (length ids) - k)) ids)) =
      min (int (length ids)) (max k (int (length (active_runs js ids))))"
    unfolding length_drop_over by (rule retained_count [OF length_over_active assms])
  with assms show ?thesis by (simp add: active_trim) (simp add: trim_run_ids_eq)
qed

lemma trim_drops_oldest_over_witness:
  "trim_run_ids (Some 2) demo_store [''a'', ''c'', ''b'', ''x''] = [''a'', ''b'']"
proof -
  have "drop_over demo_store 2 [''a'', ''c'', ''b'', ''x''] = [''a'', ''b'']" by code_simp
  then show ?thesis
    using trim_drops_oldest_over [of 2 demo_store "[''a'', ''c'', ''b'', ''x'']"] by simp
qed

section \<open>What a submission to a running executor changes\<close>

lemma enqueue_views:
  assumes "ex_loop ex \<noteq> None"
  shows "run_at (ex_js (enqueue_run r iv h ex)) r' = run_at (ex_js ex) r'"
    "get_invocation (ex_js (enqueue_run r iv h ex)) r' = get_invocation (ex_js ex) r'"
  using enqueue_run_simps [OF assms] start_simps [OF assms]
  by (simp_all add: run_at_def enqueue_run_def Let_def split_beta) (simp add: get_invocation_def set_loop_def)

lemma registration_views:
  assumes "js_ok (ex_js ex)" and "inv_run_id iv = Some r"
  shows "run_at (ex_js (register_run iv ex)) r' =
      (if r' = r then Some (run_state_of_invocation r iv) else run_at (ex_js ex) r')"
    "get_invocation (ex_js (register_run iv ex)) r' =
      (if r' = r then Some iv else get_invocation (ex_js ex) r')"
    "ex_loop (register_run iv ex) = ex_loop ex"
  using quiet_frame [OF register_quiet [OF assms(2), of ex]] run_at_create [OF assms]
    get_invocation_create [OF assms(2)]
  by simp_all

lemma submitted_views:
  assumes run: "exec_loop_running ex" and jok: "js_ok (ex_js ex)"
    and sub: "submit_threadsafe he iv h ex = Some (Inr r, iv1, ex')"
  shows "inv_run_id iv1 = Some r" "iv1 = iv\<lparr>inv_run_id := Some r\<rparr>"
    "run_at (ex_js ex') r' =
      (if r' = r then Some (run_state_of_invocation r iv1) else run_at (ex_js ex) r')"
    "get_invocation (ex_js ex') r' = (if r' = r then Some iv1 else get_invocation (ex_js ex) r')"
proof -
  obtain r1 iv2 ex1 where a: "assign_run_id iv ex = (r1, iv2, ex1)" by (cases "assign_run_id iv ex")
  note as = assign_run_id_simps [OF a] and q = quiet_frame [OF assign_run_id_simps(2) [OF a]]
  let ?ex2 = "register_run iv2 ex1"
  have run1: "exec_loop_running ex1" using run by (simp add: q)
  have "assign_run_id iv2 ex1 = (r1, iv2, ex1)" using as(1) by (simp add: assign_run_id_def)
  then have eq: "r = r1" "iv1 = iv2"
    "ex' = enqueue_run r1 iv2 (handler_or_missing h) ?ex2 \<or>
     ex' = in_loop (enqueue_run r1 iv2 (handler_or_missing h)) ?ex2"
    using sub submit_running [OF run1, of iv2 r1 iv2 ex1 he h] run1
    by (auto simp: submit_threadsafe_def a split: if_splits)
  show "inv_run_id iv1 = Some r" using as(1) eq by simp
  show "iv1 = iv\<lparr>inv_run_id := Some r\<rparr>"
    using a eq by (auto simp: assign_run_id_def fresh_uuid_def split: option.splits)
  have jok1: "js_ok (ex_js ex1)" using quiet_js_ok [OF as(2) jok] .
  note rv = registration_views [OF jok1 as(1)]
  have l: "ex_loop ?ex2 \<noteq> None" using exec_loop_running_loop [OF run1] by (simp add: rv)
  then have l': "ex_loop (?ex2\<lparr>w_cur_loop := ex_loop ?ex2\<rparr>) \<noteq> None" by simp
  show "run_at (ex_js ex') r' =
      (if r' = r then Some (run_state_of_invocation r iv1) else run_at (ex_js ex) r')"
    using eq enqueue_views(1) [OF l] enqueue_views(1) [OF l'] by (auto simp: in_loop_def rv q)
  show "get_invocation (ex_js ex') r' = (if r' = r then Some iv1 else get_invocation (ex_js ex) r')"
    using eq enqueue_views(2) [OF l] enqueue_views(2) [OF l'] by (auto simp: in_loop_def rv q)
qed

section \<open>Admission\<close>

text \<open>The scan of \<open>_assert_concurrency_limit\<close> stops early; it decides what counting would.\<close>

lemma active_runs_simps [simp]:
  "active_runs js [] = []"
  "active_runs js (r # rs) = (if run_over js r then active_runs js rs else r # active_runs js rs)"
  by (simp_all add: active_runs_def)

lemma limit_reached_count:
  "active < limit \<Longrightarrow>
   limit_reached js limit active ids \<longleftrightarrow> limit \<le> active + int (length (active_runs js ids))"
proof (induction js limit active ids rule: limit_reached.induct)
  case (2 js limit active r rs)
  show ?case
  proof (cases "status_of js r")
    case None
    then have "run_over js r" by (simp add: run_over_def)
    with None 2 show ?thesis by simp
  next
    case (Some st)
    then have "run_over js r \<longleftrightarrow> \<not> active_status st" by (simp add: run_over_def)
    with Some "2.IH"(2) [OF Some refl] "2.prems" show ?thesis by (auto simp: Let_def)
  qed
qed simp

definition within_limit :: "session_state \<Rightarrow> job_store \<Rightarrow> bool" where
  "within_limit st js \<longleftrightarrow>
    (case sp_max_concurrent_runs (ss_policy st) of None \<Rightarrow> True
     | Some limit \<Rightarrow> 0 < limit \<longrightarrow> int (length (active_runs js (ss_run_ids st))) < limit)"

lemma assert_concurrency_limit_iff: "assert_concurrency_limit st js = Inr () \<longleftrightarrow> within_limit st js"
  by (auto simp: assert_concurrency_limit_def within_limit_def limit_reached_count split: option.split)

definition may_deadlock :: "invocation option \<Rightarrow> string \<Rightarrow> bool \<Rightarrow> bool" where
  "may_deadlock parent key aw \<longleftrightarrow>
    aw \<and> key \<noteq> [] \<and> (case parent of None \<Rightarrow> False | Some p \<Rightarrow> inv_lock_key p = key)"

lemma detect_nested_deadlock_iff: "detect_nested_deadlock parent key aw = Inr () \<longleftrightarrow> \<not> may_deadlock parent key aw"
  by (auto simp: detect_nested_deadlock_def may_deadlock_def split: option.split)

lemma admission_iff:
  "admission st current parent origin lk aw ex = Inr key \<longleftrightarrow>
    origin \<noteq> ''rpc'' \<and> (current \<noteq> None \<and> aw \<longrightarrow> 2 \<le> ec_workers (ex_config ex)) \<and>
    within_limit st (ex_js ex) \<and> key = resolve_lock_key lk st current \<and>
    \<not> may_deadlock parent key aw"
proof -
  let ?key = "resolve_lock_key lk st current"
  have "enforce_rpc_constraints origin = Inr () \<longleftrightarrow> origin \<noteq> ''rpc''"
    "ensure_workers_for_nested_await current aw ex = Inr () \<longleftrightarrow>
      (current \<noteq> None \<and> aw \<longrightarrow> 2 \<le> ec_workers (ex_config ex))"
    by (auto simp: enforce_rpc_constraints_def ensure_workers_for_nested_await_def)
  then show ?thesis
    using assert_concurrency_limit_iff [of st "ex_js ex"] detect_nested_deadlock_iff [of parent ?key aw]
    by (auto simp: admission_def Let_def split: sum.split)
qed

lemma read_wall_views [simp]:
  "ex_js (snd (read_wall ex)) = ex_js ex" "ex_queue (snd (read_wall ex)) = ex_queue ex"
  for ex :: exec
  by (simp_all add: read_wall_def)

text \<open>What the run context and the job store give a submission.\<close>

definition ctx_parent :: "run_context \<Rightarrow> mgr \<Rightarrow> invocation option" where
  "ctx_parent c m = snd (resolve_parent_invocation c (ex_js (mg_exec m)))"

definition ctx_origin :: "run_context \<Rightarrow> mgr \<Rightarrow> string" where
  "ctx_origin c m = resolve_origin_source c (ctx_parent c m)"

lemma resolve_parent_fst [simp]: "fst (resolve_parent_invocation c js) = rc_run_id c"
  by (simp add: resolve_parent_invocation_def split: option.split)

lemma submit_with_eq:
  assumes "store_get (mg_store m) sid = Some st" and "ss_status st = OPEN"
  shows "submit_with he c sid lk aw h build m =
    (let (t, ex1) = read_wall (mg_exec m);
         m1 = m\<lparr>mg_exec := ex1, mg_store := store_touch t sid (mg_store m)\<rparr>
     in case admission st (rc_run_id c) (ctx_parent c m) (ctx_origin c m) lk aw ex1 of
          Inl e \<Rightarrow> Some (Inl e, m1)
        | Inr key \<Rightarrow>
            submit_in_session he sid (build st (rc_run_id c) (ctx_parent c m) (ctx_origin c m)
              (resolve_source c (ctx_origin c m)) key) h m1)"
  using assms
  by (simp add: submit_with_def require_session_def ensure_session_open_def ctx_parent_def ctx_origin_def
      Let_def split_beta split: sum.split)

lemma submit_with_accepted:
  assumes "submit_with he c sid lk aw h build m = Some (Inr r, m')"
  obtains st t ex1 key iv ex' where
    "store_get (mg_store m) sid = Some st" "ss_status st = OPEN" "read_wall (mg_exec m) = (t, ex1)"
    "admission st (rc_run_id c) (ctx_parent c m) (ctx_origin c m) lk aw ex1 = Inr key"
    "submit_threadsafe he (build st (rc_run_id c) (ctx_parent c m) (ctx_origin c m)
       (resolve_source c (ctx_origin c m)) key) (Some h) ex1 = Some (Inr r, iv, ex')"
    "m' = trim_runs sid (m\<lparr>mg_exec := ex',
       mg_store := store_add_run sid r (store_touch t sid (mg_store m))\<rparr>)"
proof -
  obtain st where st: "store_get (mg_store m) sid = Some st" "ss_status st = OPEN"
    using assms
    by (auto simp: submit_with_def require_session_def ensure_session_open_def split: option.splits if_splits)
  obtain t ex1 where t: "read_wall (mg_exec m) = (t, ex1)" by (cases "read_wall (mg_exec m)")
  show thesis
    using assms st t that [OF st t]
    by (auto simp: submit_with_eq [OF st] submit_in_session_def Let_def split: sum.splits option.splits)
qed

section \<open>Properties of submissions\<close>

lemma status_of_active: "\<not> run_over js r \<longleftrightarrow> (\<exists>st. status_of js r = Some st \<and> active_status st)"
  by (auto simp: run_over_def split: option.split)

lemma active_runs_other:
  assumes "\<And>r'. r' \<noteq> r \<Longrightarrow> run_at js' r' = run_at js r'" and "r \<notin> set ids"
  shows "active_runs js' ids = active_runs js ids"
proof -
  have "run_over js' r' = run_over js r'" if "r' \<in> set ids" for r'
    using assms(1) [of r'] assms(2) that by (cases "r' = r") (simp_all add: run_over_def status_of_def)
  then show ?thesis unfolding active_runs_def by (intro filter_cong) simp_all
qed

lemma session_after_submit:
  assumes "store_get (mg_store m) sid = Some st"
    and "m' = trim_runs sid (m\<lparr>mg_exec := ex',
       mg_store := store_add_run sid r (store_touch t sid (mg_store m))\<rparr>)"
  shows "store_get (mg_store m') sid = Some (st\<lparr>ss_last_activity_at := t,
      ss_run_ids := trim_run_ids (st_retain_last_n (mg_store m)) (ex_js ex') (ss_run_ids st @ [r])\<rparr>)"
  using assms by (simp add: trim_runs_def store_get_upd store_add_run_def store_touch_def)

text \<open>C8: a session never has more active runs than its policy allows. After an accepted
  submission to a running executor the session's active runs, the new one included, are at most
  the limit: the scan that stops early decides what counting would, and trimming does not
  forget an active run; the new run joins as the last of them.\<close>

theorem concurrency_limit_respected:
  assumes acc: "submit_with he c sid lk aw h build m = Some (Inr r, m')"
    and st: "store_get (mg_store m) sid = Some st"
    and lim: "sp_max_concurrent_runs (ss_policy st) = Some limit" "0 < limit"
    and run: "exec_loop_running (mg_exec m)" and jok: "js_ok (ex_js (mg_exec m))"
    and new: "r \<notin> set (ss_run_ids st)"
  shows "\<exists>st'. store_get (mg_store m') sid = Some st' \<and>
    active_runs (ex_js (mg_exec m')) (ss_run_ids st') =
      active_runs (ex_js (mg_exec m)) (ss_run_ids st) @ [r] \<and>
    int (length (active_runs (ex_js (mg_exec m')) (ss_run_ids st'))) \<le> limit"
proof -
  obtain st1 t ex1 key iv ex' where s: "store_get (mg_store m) sid = Some st1"
    "read_wall (mg_exec m) = (t, ex1)"
    "admission st1 (rc_run_id c) (ctx_parent c m) (ctx_origin c m) lk aw ex1 = Inr key"
    "submit_threadsafe he (build st1 (rc_run_id c) (ctx_parent c m) (ctx_origin c m)
       (resolve_source c (ctx_origin c m)) key) (Some h) ex1 = Some (Inr r, iv, ex')"
    and m': "m' = trim_runs sid (m\<lparr>mg_exec := ex',
       mg_store := store_add_run sid r (store_touch t sid (mg_store m))\<rparr>)"
    using acc by (rule submit_with_accepted)
  have ex1: "ex_js ex1 = ex_js (mg_exec m)" "exec_loop_running ex1"
    using s(2) run quiet_frames(28) [of "mg_exec m"] read_wall_views(1) [of "mg_exec m"] by simp_all
  have jok1: "js_ok (ex_js ex1)" using jok ex1 by simp
  note v = submitted_views [OF ex1(2) jok1 s(4)]
  have pend: "\<not> run_over (ex_js ex') r" by (simp add: run_over_def status_of_def v(3))
  have "active_runs (ex_js ex') (ss_run_ids st) = active_runs (ex_js (mg_exec m)) (ss_run_ids st)"
    using new by (intro active_runs_other [of r]) (simp_all add: v(3) ex1)
  then have act: "active_runs (ex_js ex') (ss_run_ids st @ [r]) =
      active_runs (ex_js (mg_exec m)) (ss_run_ids st) @ [r]"
    using pend by (simp add: active_runs_def)
  have "within_limit st (ex_js (mg_exec m))"
    using s(1,3) st ex1 by (simp add: admission_iff)
  then have "int (length (active_runs (ex_js (mg_exec m)) (ss_run_ids st))) < limit"
    using lim by (simp add: within_limit_def)
  moreover have "mg_exec m' = ex'" by (simp add: m' trim_runs_def)
  ultimately show ?thesis
    using session_after_submit [OF st m'] act by (simp add: active_trim)
qed

text \<open>Nothing is submitted from an RPC-origin context. When the run that submits, or its
  context when there is no run, originates from RPC, a submission raises - a
  \<open>PermissionError\<close> if the session is open - and the executor's runs and queue and the
  session's runs are left as they were; only the session's activity time may move.\<close>

theorem rpc_origin_submits_nothing:
  assumes "ctx_origin c m = ''rpc''"
  shows "\<exists>e m'. submit_with he c sid lk aw h build m = Some (Inl e, m') \<and>
    ((\<exists>st. store_get (mg_store m) sid = Some st \<and> ss_status st = OPEN) \<longrightarrow> exc_cls e = PermissionErrorC) \<and>
    ex_js (mg_exec m') = ex_js (mg_exec m) \<and> ex_queue (mg_exec m') = ex_queue (mg_exec m) \<and>
    map_option ss_run_ids (store_get (mg_store m') sid') = map_option ss_run_ids (store_get (mg_store m) sid')"
proof (cases "\<exists>st. store_get (mg_store m) sid = Some st \<and> ss_status st = OPEN")
  case True
  then obtain st where st: "store_get (mg_store m) sid = Some st" "ss_status st = OPEN" by blast
  obtain t ex1 where t: "read_wall (mg_exec m) = (t, ex1)" by (cases "read_wall (mg_exec m)")
  have ex1: "ex_js ex1 = ex_js (mg_exec m)" "ex_queue ex1 = ex_queue (mg_exec m)"
    using t read_wall_views [of "mg_exec m"] by simp_all
  have "admission st (rc_run_id c) (ctx_parent c m) (ctx_origin c m) lk aw ex1 =
      Inl (PyExc PermissionErrorC ''Session submit is not allowed in rpc-origin context'')"
    by (simp add: admission_def enforce_rpc_constraints_def assms)
  then show ?thesis
    by (simp add: submit_with_eq [OF st] t ex1 store_touch_def store_get_upd option.map_comp comp_def)
qed (auto simp: submit_with_def require_session_def ensure_session_open_def split: option.split)

text \<open>C17: what a nested command submission becomes. A command a run submits and waits for, when it
  is accepted, runs on an executor with at least two workers, under a lock key that is empty or
  differs from its parent's - by default \<open>child:<parent run id>\<close> - and its stored invocation names
  the session's principal, the session, the parent run and its origin, one level deeper.\<close>

theorem nested_submission_accepted:
  assumes acc: "submit_command he c sid cid argv kw tmo lk True h m = Some (Inr r, m')"
    and st: "store_get (mg_store m) sid = Some st"
    and cur: "rc_run_id c = Some p" "get_invocation (ex_js (mg_exec m)) p = Some par"
    and src: "inv_source par \<noteq> []"
    and run: "exec_loop_running (mg_exec m)" and jok: "js_ok (ex_js (mg_exec m))"
  shows "2 \<le> ec_workers (ex_config (mg_exec m)) \<and>
    (\<exists>iv. get_invocation (ex_js (mg_exec m')) r = Some iv \<and>
      (inv_lock_key iv = [] \<or> inv_lock_key iv \<noteq> inv_lock_key par) \<and>
      inv_lock_key iv = (case lk of Some k \<Rightarrow> k | None \<Rightarrow> ''child:'' @ p) \<and>
      inv_principal iv = Some (ss_principal st) \<and> inv_session_id iv = Some sid \<and>
      inv_parent_run_id iv = Some p \<and> inv_depth iv = inv_depth par + 1 \<and>
      inv_origin_source iv = or_str (inv_origin_source par) (Some (inv_source par)) \<and>
      inv_origin_source iv \<noteq> Some ''rpc'' \<and>
      inv_timeout_ms iv = (case tmo of Some t \<Rightarrow> Some t | None \<Rightarrow> sp_default_timeout_ms (ss_policy st)))"
proof -
  obtain st1 t ex1 key iv ex' where s: "store_get (mg_store m) sid = Some st1"
    "read_wall (mg_exec m) = (t, ex1)"
    "admission st1 (rc_run_id c) (ctx_parent c m) (ctx_origin c m) lk True ex1 = Inr key"
    "submit_threadsafe he (command_invocation sid cid argv kw tmo st1 (rc_run_id c) (ctx_parent c m)
       (ctx_origin c m) (resolve_source c (ctx_origin c m)) key) (Some h) ex1 = Some (Inr r, iv, ex')"
    and m': "m' = trim_runs sid (m\<lparr>mg_exec := ex',
       mg_store := store_add_run sid r (store_touch t sid (mg_store m))\<rparr>)"
    using acc unfolding submit_command_def by (rule submit_with_accepted)
  have ex1: "ex_js ex1 = ex_js (mg_exec m)" "exec_loop_running ex1" "ex_config ex1 = ex_config (mg_exec m)"
    using s(2) run quiet_frames(28,18) [of "mg_exec m"] read_wall_views(1) [of "mg_exec m"] by simp_all
  have jok1: "js_ok (ex_js ex1)" using jok ex1 by simp
  note v = submitted_views [OF ex1(2) jok1 s(4)]
  have par: "ctx_parent c m = Some par" by (simp add: ctx_parent_def resolve_parent_invocation_def cur)
  have org: "or_str (inv_origin_source par) (Some (inv_source par)) = Some (ctx_origin c m)"
    using src by (auto simp: ctx_origin_def par resolve_origin_source_def or_str_def truthy_str_def)
  have ne: "ctx_origin c m \<noteq> []"
    using src by (auto simp: ctx_origin_def par resolve_origin_source_def or_str_def truthy_str_def)
  have adm: "ctx_origin c m \<noteq> ''rpc''" "2 \<le> ec_workers (ex_config (mg_exec m))"
    "key = (case lk of Some k \<Rightarrow> k | None \<Rightarrow> ''child:'' @ p)" "key = [] \<or> key \<noteq> inv_lock_key par"
    using s(3) by (auto simp: admission_iff cur(1) par may_deadlock_def resolve_lock_key_def ex1 split: option.splits)
  have "get_invocation (ex_js (mg_exec m')) r = Some iv" by (simp add: m' trim_runs_def v(4))
  moreover have "inv_lock_key iv = key" "inv_principal iv = Some (ss_principal st)"
    "inv_session_id iv = Some sid" "inv_parent_run_id iv = Some p" "inv_depth iv = inv_depth par + 1"
    "inv_origin_source iv = Some (ctx_origin c m)"
    "inv_timeout_ms iv = (case tmo of Some t \<Rightarrow> Some t | None \<Rightarrow> sp_default_timeout_ms (ss_policy st))"
    using st s(1) ne unfolding v(2)
    by (simp_all add: command_invocation_def to_invocation_def new_execution_context_def Let_def par
        cur(1) resolve_depth_def resolve_timeout_def or_str_def truthy_str_def)
  ultimately show ?thesis using adm org by auto
qed

section \<open>Witnesses\<close>

text \<open>Run \<open>a\<close> runs, in a manager with one open session; it submits a command and waits.\<close>

definition demo_mgr :: mgr where
  "demo_mgr = new_session_manager demo_running (Some demo_session_store) None None"

definition demo_ctx :: run_context where
  "demo_ctx = run_ctx ''a'' demo_iv (Some 0)"

definition demo_accepted :: "string res \<times> mgr" where
  "demo_accepted = the (submit_command sample_env demo_ctx ''s'' (Some ''cmd:root:use'') [''x''] []
     None None True (Handler 1) demo_mgr)"

lemma demo_mgr_views:
  "store_get (mg_store demo_mgr) ''s'' = Some (demo_session ''s'')"
  "exec_loop_running (mg_exec demo_mgr)" "rc_run_id demo_ctx = Some ''a''"
  "get_invocation (ex_js (mg_exec demo_mgr)) ''a'' = Some demo_iv" "inv_source demo_iv \<noteq> []"
  "sp_max_concurrent_runs (ss_policy (demo_session ''s'')) = Some 8"
  "ss_run_ids (demo_session ''s'') = []"
  by code_simp+

lemma demo_mgr_ok: "js_ok (ex_js (mg_exec demo_mgr))"
proof -
  have "sys_inv (demo_running, [])"
    using exec_sys.inv_reachable [OF demo_init demo_reaches(2)] by simp
  then show ?thesis
    by (auto simp: demo_mgr_def new_session_manager_def sys_inv_def dest: runs_okD(1))
qed

lemma demo_submission:
  "submit_command sample_env demo_ctx ''s'' (Some ''cmd:root:use'') [''x''] [] None None True
     (Handler 1) demo_mgr = Some (Inr ''u'', snd demo_accepted)"
proof -
  have "submit_command sample_env demo_ctx ''s'' (Some ''cmd:root:use'') [''x''] [] None None True
      (Handler 1) demo_mgr \<noteq> None" by code_simp
  moreover have "fst demo_accepted = Inr ''u''" by code_simp
  ultimately show ?thesis by (auto simp: demo_accepted_def prod_eq_iff)
qed

lemma concurrency_limit_respected_witness:
  "\<exists>st'. store_get (mg_store (snd demo_accepted)) ''s'' = Some st' \<and>
    active_runs (ex_js (mg_exec (snd demo_accepted))) (ss_run_ids st') = [''u'']"
  using concurrency_limit_respected [OF demo_submission [unfolded submit_command_def]
      demo_mgr_views(1) demo_mgr_views(6) _ demo_mgr_views(2) demo_mgr_ok] demo_mgr_views(7)
  by auto

lemma rpc_origin_submits_nothing_witness:
  "\<exists>m'. submit_command sample_env (no_context\<lparr>rc_source := Some ''rpc''\<rparr>) ''s'' None [] [] None None
      False (Handler 1) demo_mgr =
      Some (Inl (PyExc PermissionErrorC ''Session submit is not allowed in rpc-origin context''), m') \<and>
    ex_queue (mg_exec m') = ex_queue (mg_exec demo_mgr)"
proof -
  let ?c = "no_context\<lparr>rc_source := Some ''rpc''\<rparr>"
  have "ctx_origin ?c demo_mgr = ''rpc''" by code_simp
  from rpc_origin_submits_nothing [OF this, of sample_env "''s''" None False "Handler 1"
      "command_invocation ''s'' None [] [] None"]
  obtain e m' where "submit_command sample_env ?c ''s'' None [] [] None None False (Handler 1) demo_mgr =
      Some (Inl e, m')" "ex_queue (mg_exec m') = ex_queue (mg_exec demo_mgr)"
    unfolding submit_command_def by blast
  moreover have "map_option fst (submit_command sample_env ?c ''s'' None [] [] None None False (Handler 1)
      demo_mgr) = Some (Inl (PyExc PermissionErrorC ''Session submit is not allowed in rpc-origin context''))"
    by code_simp
  ultimately show ?thesis by auto
qed

lemma nested_submission_accepted_witness:
  "\<exists>iv. get_invocation (ex_js (mg_exec (snd demo_accepted))) ''u'' = Some iv \<and>
    inv_lock_key iv = ''child:a'' \<and> inv_depth iv = 1 \<and> inv_parent_run_id iv = Some ''a''"
  using nested_submission_accepted [OF demo_submission demo_mgr_views(1,3,4,5,2) demo_mgr_ok]
  by (auto simp: demo_iv_def default_invocation_def)

end
