(* ===== verification/Callbacks.thy ===== *)
theory Callbacks
  imports SessionFacts
begin

text \<open>
  Callbacks on a run's events (\<open>session/callbacks.py\<close>) and what remains of the session
  manager (\<open>session/manager.py\<close>): waiting submissions, unsubscribing, reading and cancelling
  runs. A subscription has a task that watches its queue; work for the executor's loop from
  another thread is scheduled.
\<close>

section \<open>State\<close>

record callback_sub =
  cs_run_id :: string
  cs_queue :: nat
  cs_on_event :: "handler_ref option"
  cs_on_done :: "handler_ref option"

text \<open>
  \<open>cb_watching\<close> holds the watching tasks that have not ended, by their subscription ids: a task
  outlives its entry in \<open>cb_subs\<close> when it is only cancelled. \<open>cb_scheduled\<close> holds the
  subscriptions whose cancellation waits for the loop; \<open>cb_cancelled\<close> the queues whose watching
  task was cancelled. \<open>cb_shares_pool\<close>: plain callbacks run in the executor's thread pool.
\<close>

record callback_registry =
  cb_exec :: exec
  cb_subs :: "(string, callback_sub) dict"
  cb_watching :: "(string, callback_sub) dict"
  cb_scheduled :: "callback_sub list"
  cb_cancelled :: "nat list"
  cb_owns_pool :: bool
  cb_shares_pool :: bool
  cb_pool_open :: bool

definition new_callback_registry :: "exec \<Rightarrow> bool \<Rightarrow> callback_registry" where
  "new_callback_registry ex given =
    \<lparr>cb_exec = ex, cb_subs = [], cb_watching = [], cb_scheduled = [], cb_cancelled = [],
     cb_owns_pool = (\<not> given \<and> ex_pool ex = None),
     cb_shares_pool = (\<not> given \<and> ex_pool ex \<noteq> None), cb_pool_open = True\<rparr>"

section \<open>Subscribing\<close>

text \<open>\<open>_create_subscription\<close>, in the loop.\<close>

definition create_subscription ::
  "string \<Rightarrow> string \<Rightarrow> handler_ref option \<Rightarrow> handler_ref option \<Rightarrow> callback_registry
   \<Rightarrow> string res \<times> callback_registry" where
  "create_subscription sub_id run_id on_event on_done cb =
    (case stream_events run_id (Some 0) 0 (cb_exec cb) of
       (Inl e, ex) \<Rightarrow> (Inl e, cb\<lparr>cb_exec := ex\<rparr>)
     | (Inr q, ex) \<Rightarrow>
         let sub = \<lparr>cs_run_id = run_id, cs_queue = q, cs_on_event = on_event, cs_on_done = on_done\<rparr>
         in (Inr sub_id,
             cb\<lparr>cb_exec := ex, cb_watching := dict_set sub_id sub (cb_watching cb),
                cb_subs := dict_set sub_id sub (cb_subs cb)\<rparr>))"

text \<open>From another thread the loop runs it, and the caller waits.\<close>

definition in_loop_cb ::
  "(callback_registry \<Rightarrow> 'a \<times> callback_registry) \<Rightarrow> callback_registry \<Rightarrow> 'a \<times> callback_registry" where
  "in_loop_cb f cb =
    (let cur = w_cur_loop (cb_exec cb);
         (r, cb1) = f (cb\<lparr>cb_exec := (cb_exec cb)\<lparr>w_cur_loop := ex_loop (cb_exec cb)\<rparr>\<rparr>)
     in (r, cb1\<lparr>cb_exec := (cb_exec cb1)\<lparr>w_cur_loop := cur\<rparr>\<rparr>))"

definition register_callback ::
  "string \<Rightarrow> handler_ref option \<Rightarrow> handler_ref option \<Rightarrow> callback_registry \<Rightarrow> string res \<times> callback_registry" where
  "register_callback run_id on_event on_done cb =
    (if \<not> exec_loop_running (cb_exec cb)
     then (Inl (PyExc RuntimeErrorC ''Executor loop is not running''), cb)
     else
       let (sub_id, ex1) = fresh_uuid (cb_exec cb); cb1 = cb\<lparr>cb_exec := ex1\<rparr>
       in if w_cur_loop ex1 = ex_loop ex1 then create_subscription sub_id run_id on_event on_done cb1
          else in_loop_cb (create_subscription sub_id run_id on_event on_done) cb1)"

section \<open>Unsubscribing\<close>

definition cancel_watch :: "callback_sub \<Rightarrow> callback_registry \<Rightarrow> callback_registry" where
  "cancel_watch s cb =
    cb\<lparr>cb_cancelled := cb_cancelled cb @ [cs_queue s],
       cb_exec := upd_js (unsubscribe_events (cs_run_id s) (cs_queue s)) (cb_exec cb)\<rparr>"

definition run_on_executor_loop :: "callback_sub \<Rightarrow> callback_registry \<Rightarrow> callback_registry" where
  "run_on_executor_loop s cb =
    (if \<not> exec_loop_running (cb_exec cb) \<or> w_cur_loop (cb_exec cb) = ex_loop (cb_exec cb)
     then cancel_watch s cb
     else cb\<lparr>cb_scheduled := cb_scheduled cb @ [s]\<rparr>)"

text \<open>The loop runs what was scheduled first.\<close>

definition run_scheduled :: "callback_registry \<Rightarrow> callback_registry" where
  "run_scheduled cb =
    (case cb_scheduled cb of [] \<Rightarrow> cb | s # rest \<Rightarrow> cancel_watch s (cb\<lparr>cb_scheduled := rest\<rparr>))"

definition run_all_scheduled :: "callback_registry \<Rightarrow> callback_registry" where
  "run_all_scheduled cb = (run_scheduled ^^ length (cb_scheduled cb)) cb"

definition unregister_callback :: "string \<Rightarrow> callback_registry \<Rightarrow> callback_registry" where
  "unregister_callback sub_id cb =
    (case map_of (cb_subs cb) sub_id of
       None \<Rightarrow> cb
     | Some s \<Rightarrow> run_on_executor_loop s (cb\<lparr>cb_subs := dict_pop sub_id (cb_subs cb)\<rparr>))"

definition close_callbacks :: "callback_registry \<Rightarrow> callback_registry" where
  "close_callbacks cb =
    (let cb1 = fold run_on_executor_loop (map snd (cb_subs cb)) (cb\<lparr>cb_subs := []\<rparr>)
     in if cb_owns_pool cb1 then cb1\<lparr>cb_pool_open := False\<rparr> else cb1)"

section \<open>Watching\<close>

text \<open>
  What \<open>_watch\<close> dispatches for the events its queue receives: each to \<open>on_event\<close>, the first
  terminal one to \<open>on_done\<close> too, after which it ends. A callback that raises an
  \<open>Exception\<close> is passed over.
\<close>

datatype dispatch = OnEvent handler_ref runtime_event | OnDone handler_ref runtime_event

definition dispatch_to :: "(handler_ref \<Rightarrow> runtime_event \<Rightarrow> dispatch) \<Rightarrow> handler_ref option \<Rightarrow> runtime_event \<Rightarrow> dispatch list" where
  "dispatch_to c h e = (case h of None \<Rightarrow> [] | Some f \<Rightarrow> [c f e])"

fun watch :: "callback_sub \<Rightarrow> runtime_event list \<Rightarrow> dispatch list \<times> bool" where
  "watch s [] = ([], False)"
| "watch s (e # es) =
    (if is_terminal_event e
     then (dispatch_to OnEvent (cs_on_event s) e @ dispatch_to OnDone (cs_on_done s) e, True)
     else let (ds, fin) = watch s es in (dispatch_to OnEvent (cs_on_event s) e @ ds, fin))"

text \<open>The \<open>finally\<close> of \<open>_watch\<close>, in the loop.\<close>

definition watch_end :: "string \<Rightarrow> callback_sub \<Rightarrow> callback_registry \<Rightarrow> callback_registry" where
  "watch_end sub_id s cb =
    cb\<lparr>cb_exec := upd_js (unsubscribe_events (cs_run_id s) (cs_queue s)) (cb_exec cb),
       cb_watching := dict_pop sub_id (cb_watching cb), cb_subs := dict_pop sub_id (cb_subs cb)\<rparr>"

text \<open>The loop resumes the watching tasks that were cancelled, which end there.\<close>

definition cancelled_watchers :: "callback_registry \<Rightarrow> (string \<times> callback_sub) list" where
  "cancelled_watchers cb = filter (\<lambda>(i, s). cs_queue s \<in> set (cb_cancelled cb)) (cb_watching cb)"

definition end_cancelled :: "callback_registry \<Rightarrow> callback_registry" where
  "end_cancelled cb = fold (\<lambda>(i, s). watch_end i s) (cancelled_watchers cb) cb"

text \<open>
  A plain callback is a call in the registry's thread pool. In the executor's pool it is one of the
  calls its threads have not finished, also after the watching task that dispatched it was
  cancelled. A pool that was shut down refuses it, which \<open>_dispatch_callback\<close> passes over.
\<close>

definition dispatch_begin :: "handler_env \<Rightarrow> handler_ref \<Rightarrow> callback_registry \<Rightarrow> callback_registry" where
  "dispatch_begin he h cb =
    (if is_coro he h \<or> \<not> cb_shares_pool cb \<or> ex_pool (cb_exec cb) \<noteq> Some True then cb
     else cb\<lparr>cb_exec := (cb_exec cb)\<lparr>ex_pool_calls := Suc (ex_pool_calls (cb_exec cb))\<rparr>\<rparr>)"

definition pool_call_ends :: "callback_registry \<Rightarrow> callback_registry" where
  "pool_call_ends cb = cb\<lparr>cb_exec := (cb_exec cb)\<lparr>ex_pool_calls := ex_pool_calls (cb_exec cb) - 1\<rparr>\<rparr>"

section \<open>The rest of the session manager\<close>

definition get_run :: "string \<Rightarrow> mgr \<Rightarrow> run_state option" where
  "get_run run_id m = run_at (ex_js (mg_exec m)) run_id"

definition cancel_run :: "string \<Rightarrow> mgr \<Rightarrow> string \<times> mgr" where
  "cancel_run run_id m = (let (s, ex) = exec_cancel run_id (mg_exec m) in (s, m\<lparr>mg_exec := ex\<rparr>))"

text \<open>\<open>submit_command_and_wait\<close> up to where it waits: what \<open>result\<close> then awaits.\<close>

definition submit_command_and_wait ::
  "handler_env \<Rightarrow> run_context \<Rightarrow> string \<Rightarrow> string option \<Rightarrow> string list \<Rightarrow> (string, pyval) dict
   \<Rightarrow> int option \<Rightarrow> string option \<Rightarrow> handler_ref \<Rightarrow> mgr \<Rightarrow> ((string \<times> awaiting) res \<times> mgr) option" where
  "submit_command_and_wait he c sid command_id argv kwargs timeout_ms lock_key h m =
    (case submit_command he c sid command_id argv kwargs timeout_ms lock_key True h m of
       None \<Rightarrow> None
     | Some (Inl e, m1) \<Rightarrow> Some (Inl e, m1)
     | Some (Inr r, m1) \<Rightarrow> Some (Inr (r, wait_result r (mg_exec m1)), m1))"

definition submit_callable_and_wait ::
  "handler_env \<Rightarrow> run_context \<Rightarrow> string \<Rightarrow> callable_info \<Rightarrow> string option \<Rightarrow> int option
   \<Rightarrow> string option \<Rightarrow> (string, pyval) dict \<Rightarrow> handler_ref \<Rightarrow> mgr
   \<Rightarrow> ((string \<times> awaiting) res \<times> mgr) option" where
  "submit_callable_and_wait he c sid f name timeout_ms lock_key tags h m =
    (case submit_callable he c sid f name timeout_ms lock_key tags True h m of
       None \<Rightarrow> None
     | Some (Inl e, m1) \<Rightarrow> Some (Inl e, m1)
     | Some (Inr r, m1) \<Rightarrow> Some (Inr (r, wait_result r (mg_exec m1)), m1))"

text \<open>
  \<open>_unsubscribe_events_threadsafe\<close>: at once, or left to the executor's loop.
\<close>

definition unsubscribe_threadsafe :: "string \<Rightarrow> nat \<Rightarrow> mgr \<Rightarrow> (string \<times> nat) option \<times> mgr" where
  "unsubscribe_threadsafe run_id q m =
    (if \<not> exec_loop_running (mg_exec m) \<or> w_cur_loop (mg_exec m) = ex_loop (mg_exec m)
     then (None, m\<lparr>mg_exec := upd_js (unsubscribe_events run_id q) (mg_exec m)\<rparr>)
     else (Some (run_id, q), m))"

section \<open>Cancelled watchers\<close>

lemma run_all_scheduled_fold:
  "run_all_scheduled cb = fold cancel_watch (cb_scheduled cb) (cb\<lparr>cb_scheduled := []\<rparr>)"
proof -
  have c: "cancel_watch s (cb\<lparr>cb_scheduled := ss\<rparr>) = (cancel_watch s cb)\<lparr>cb_scheduled := ss\<rparr>" for s ss cb
    by (simp add: cancel_watch_def)
  have "(run_scheduled ^^ length ss) (cb\<lparr>cb_scheduled := ss\<rparr>) = fold cancel_watch ss (cb\<lparr>cb_scheduled := []\<rparr>)" for ss cb
    by (induction ss arbitrary: cb) (simp_all add: funpow_Suc_right run_scheduled_def c del: funpow.simps)
  from this [of "cb_scheduled cb" cb] show ?thesis by (simp add: run_all_scheduled_def)
qed

text \<open>
  What cancelling and ending watchers leaves alone, and that a queue, once it is not subscribed,
  stays so.
\<close>

definition watchers_frame :: "callback_registry \<Rightarrow> callback_registry \<Rightarrow> bool" where
  "watchers_frame cb cb' \<longleftrightarrow>
    ex_tasks (cb_exec cb') = ex_tasks (cb_exec cb) \<and> ex_workers (cb_exec cb') = ex_workers (cb_exec cb) \<and>
    ex_loop (cb_exec cb') = ex_loop (cb_exec cb) \<and> ex_audit (cb_exec cb') = ex_audit (cb_exec cb) \<and>
    ex_pool (cb_exec cb') = ex_pool (cb_exec cb) \<and> ex_pool_calls (cb_exec cb') = ex_pool_calls (cb_exec cb) \<and>
    w_loop_running (cb_exec cb') = w_loop_running (cb_exec cb) \<and> w_cur_loop (cb_exec cb') = w_cur_loop (cb_exec cb) \<and>
    js_gsubs (ex_js (cb_exec cb')) = js_gsubs (ex_js (cb_exec cb)) \<and>
    (\<forall>r. set (subscribers (js_bus (ex_js (cb_exec cb'))) r) \<subseteq> set (subscribers (js_bus (ex_js (cb_exec cb))) r))"

lemma watchers_frame_refl [simp]: "watchers_frame cb cb"
  by (simp add: watchers_frame_def)

lemma watchers_frame_trans: "watchers_frame a b \<Longrightarrow> watchers_frame b c \<Longrightarrow> watchers_frame a c"
  unfolding watchers_frame_def by (intro conjI) (simp_all, blast)

lemma subscribers_unsubscribe_sub: "set (subscribers (unsubscribe r q b) r') \<subseteq> set (subscribers b r')"
  by (auto simp: unsubscribe_def subscribers_def dict_get_or_def dict_simps split: option.splits
      dest: set_remove1_subset [THEN subsetD])

lemma watchers_frame_cancel: "watchers_frame cb (cancel_watch s cb)"
  using subscribers_unsubscribe_sub
  by (fastforce simp: watchers_frame_def cancel_watch_def upd_js_def unsubscribe_events_def)

lemma watchers_frame_end: "watchers_frame cb (watch_end i s cb)"
  using subscribers_unsubscribe_sub
  by (fastforce simp: watchers_frame_def watch_end_def upd_js_def unsubscribe_events_def)

lemma watchers_frame_fold:
  assumes "\<And>x cb. watchers_frame cb (f x cb)"
  shows "watchers_frame cb (fold f xs cb)"
  using assms by (induction xs arbitrary: cb) (auto intro: watchers_frame_trans)

lemma watchers_frame_scheduled: "watchers_frame cb (run_all_scheduled cb)"
proof -
  have "watchers_frame cb (cb\<lparr>cb_scheduled := []\<rparr>)" by (simp add: watchers_frame_def)
  then show ?thesis
    unfolding run_all_scheduled_fold
    by (rule watchers_frame_trans) (rule watchers_frame_fold [OF watchers_frame_cancel])
qed

lemma watchers_frame_end_all: "watchers_frame cb (fold (\<lambda>(i, s). watch_end i s) ws cb)"
  by (rule watchers_frame_fold) (simp add: split_beta watchers_frame_end)

lemma watch_end_unsubscribed:
  assumes "bus_ok (js_bus (ex_js (cb_exec cb)))"
  shows "cs_queue s \<notin> set (subscribers (js_bus (ex_js (cb_exec (watch_end i s cb)))) (cs_run_id s))"
  using assms
  by (simp add: watch_end_def upd_js_def unsubscribe_events_def bus_ok_def subscribers_unsubscribe)

lemma fold_watch_end:
  assumes "dict_ok (cb_watching cb)" and "distinct (map fst ws)" and "set ws \<subseteq> set (cb_watching cb)"
    and "bus_ok (js_bus (ex_js (cb_exec cb)))"
  shows "set (cb_watching (fold (\<lambda>(i, s). watch_end i s) ws cb)) = set (cb_watching cb) - set ws \<and>
    dict_ok (cb_watching (fold (\<lambda>(i, s). watch_end i s) ws cb)) \<and>
    bus_ok (js_bus (ex_js (cb_exec (fold (\<lambda>(i, s). watch_end i s) ws cb)))) \<and>
    (\<forall>(i, s) \<in> set ws. cs_queue s \<notin>
      set (subscribers (js_bus (ex_js (cb_exec (fold (\<lambda>(i, s). watch_end i s) ws cb)))) (cs_run_id s)))"
  using assms
proof (induction ws arbitrary: cb)
  case (Cons w ws)
  obtain i s where w: "w = (i, s)" by (cases w)
  let ?cb = "watch_end i s cb"
  have one: "set (cb_watching ?cb) = set (cb_watching cb) - {w}"
  proof -
    have "p = w" if "p \<in> set (cb_watching cb)" "fst p = i" for p
    proof -
      have "(i, s) \<in> set (cb_watching cb)" "(i, snd p) \<in> set (cb_watching cb)"
        using that Cons.prems(3) w by (simp, metis prod.collapse)
      moreover have "distinct (map fst (cb_watching cb))" using Cons.prems(1) by (simp add: dict_ok_def)
      ultimately have "snd p = s" by (metis eq_key_imp_eq_value)
      then show ?thesis using that(2) w by (cases p) simp
    qed
    moreover have "fst w = i" using w by simp
    ultimately show ?thesis unfolding watch_end_def by (auto simp: dict_pop_filter)
  qed
  have "dict_ok (cb_watching ?cb)" "bus_ok (js_bus (ex_js (cb_exec ?cb)))"
    using Cons.prems(1,4) by (simp_all add: watch_end_def upd_js_def unsubscribe_events_def)
  moreover have "set ws \<subseteq> set (cb_watching ?cb)" "distinct (map fst ws)"
    using Cons.prems(2,3) w unfolding one by force+
  ultimately have ih: "set (cb_watching (fold (\<lambda>(i, s). watch_end i s) ws ?cb)) = set (cb_watching ?cb) - set ws"
    "dict_ok (cb_watching (fold (\<lambda>(i, s). watch_end i s) ws ?cb))"
    "bus_ok (js_bus (ex_js (cb_exec (fold (\<lambda>(i, s). watch_end i s) ws ?cb))))"
    "\<forall>(i, s) \<in> set ws. cs_queue s \<notin>
      set (subscribers (js_bus (ex_js (cb_exec (fold (\<lambda>(i, s). watch_end i s) ws ?cb)))) (cs_run_id s))"
    using Cons.IH [of ?cb] by blast+
  have "cs_queue s \<notin> set (subscribers (js_bus (ex_js (cb_exec (fold (\<lambda>(i, s). watch_end i s) ws ?cb)))) (cs_run_id s))"
    using watch_end_unsubscribed [OF Cons.prems(4), of s i] watchers_frame_end_all [of ?cb ws]
    by (auto simp: watchers_frame_def)
  then show ?case using ih one by (auto simp: w)
qed simp

lemma fold_watch_end_subs:
  "cb_subs cb = [] \<Longrightarrow> cb_subs (fold (\<lambda>(i, s). watch_end i s) ws cb) = []"
  "cb_scheduled (fold (\<lambda>(i, s). watch_end i s) ws cb) = cb_scheduled cb"
  by (induction ws arbitrary: cb) (auto simp: watch_end_def)

lemma fold_cancel_watch:
  "cb_subs (fold cancel_watch ss cb) = cb_subs cb \<and> cb_watching (fold cancel_watch ss cb) = cb_watching cb \<and>
   cb_scheduled (fold cancel_watch ss cb) = cb_scheduled cb \<and>
   (bus_ok (js_bus (ex_js (cb_exec cb))) \<longrightarrow> bus_ok (js_bus (ex_js (cb_exec (fold cancel_watch ss cb)))))"
  by (induction ss arbitrary: cb) (simp_all add: cancel_watch_def upd_js_def unsubscribe_events_def)

lemma run_all_scheduled_views:
  "cb_subs (run_all_scheduled cb) = cb_subs cb" "cb_watching (run_all_scheduled cb) = cb_watching cb"
  "cb_scheduled (run_all_scheduled cb) = []"
  "bus_ok (js_bus (ex_js (cb_exec cb))) \<Longrightarrow> bus_ok (js_bus (ex_js (cb_exec (run_all_scheduled cb))))"
  using fold_cancel_watch [of "cb_scheduled cb" "cb\<lparr>cb_scheduled := []\<rparr>"]
  by (simp_all add: run_all_scheduled_fold)

lemma run_on_executor_loop_views [simp]:
  "cb_subs (run_on_executor_loop s cb) = cb_subs cb" "cb_watching (run_on_executor_loop s cb) = cb_watching cb"
  "bus_ok (js_bus (ex_js (cb_exec cb))) \<Longrightarrow> bus_ok (js_bus (ex_js (cb_exec (run_on_executor_loop s cb))))"
  "watchers_frame cb (run_on_executor_loop s cb)"
  using watchers_frame_cancel [of cb s]
  by (simp_all add: run_on_executor_loop_def cancel_watch_def upd_js_def unsubscribe_events_def)
    (simp add: watchers_frame_def)

lemma close_callbacks_views:
  "cb_subs (close_callbacks cb) = []" "cb_watching (close_callbacks cb) = cb_watching cb"
  "bus_ok (js_bus (ex_js (cb_exec cb))) \<Longrightarrow> bus_ok (js_bus (ex_js (cb_exec (close_callbacks cb))))"
  "watchers_frame cb (close_callbacks cb)"
proof -
  let ?cb = "fold run_on_executor_loop (map snd (cb_subs cb)) (cb\<lparr>cb_subs := []\<rparr>)"
  have f: "cb_subs (fold run_on_executor_loop ss x) = cb_subs x \<and>
      cb_watching (fold run_on_executor_loop ss x) = cb_watching x \<and>
      (bus_ok (js_bus (ex_js (cb_exec x))) \<longrightarrow> bus_ok (js_bus (ex_js (cb_exec (fold run_on_executor_loop ss x)))))"
    for ss x by (induction ss arbitrary: x) simp_all
  have "watchers_frame (cb\<lparr>cb_subs := []\<rparr>) ?cb" by (rule watchers_frame_fold) simp
  then have "watchers_frame cb ?cb" by (simp add: watchers_frame_def)
  then show "watchers_frame cb (close_callbacks cb)"
    by (simp add: close_callbacks_def Let_def watchers_frame_def)
  show "cb_subs (close_callbacks cb) = []" "cb_watching (close_callbacks cb) = cb_watching cb"
    "bus_ok (js_bus (ex_js (cb_exec cb))) \<Longrightarrow> bus_ok (js_bus (ex_js (cb_exec (close_callbacks cb))))"
    using f [of "map snd (cb_subs cb)" "cb\<lparr>cb_subs := []\<rparr>"] by (simp_all add: close_callbacks_def Let_def)
qed

text \<open>
  Closing the registry and letting the loop catch up: no subscription is left, no cancellation
  waits, and every watcher has ended with its queue unsubscribed or is one nobody had cancelled.
\<close>

lemma callbacks_catch_up:
  assumes "dict_ok (cb_watching cb)" and "bus_ok (js_bus (ex_js (cb_exec cb)))"
  defines "cb' \<equiv> end_cancelled (run_all_scheduled (close_callbacks cb))"
  shows "cb_subs cb' = []" "cb_scheduled cb' = []" "dict_ok (cb_watching cb')"
    "bus_ok (js_bus (ex_js (cb_exec cb')))" "watchers_frame cb cb'"
    "\<forall>(i, s) \<in> set (cb_watching cb). (i, s) \<in> set (cb_watching cb') \<or>
      cs_queue s \<notin> set (subscribers (js_bus (ex_js (cb_exec cb'))) (cs_run_id s))"
proof -
  let ?c1 = "run_all_scheduled (close_callbacks cb)"
  let ?ws = "cancelled_watchers ?c1"
  have c1: "cb_subs ?c1 = []" "cb_watching ?c1 = cb_watching cb" "cb_scheduled ?c1 = []"
    "bus_ok (js_bus (ex_js (cb_exec ?c1)))"
    using assms(2) by (simp_all add: run_all_scheduled_views close_callbacks_views)
  have ws: "distinct (map fst ?ws)" "set ?ws \<subseteq> set (cb_watching ?c1)" "dict_ok (cb_watching ?c1)"
    using assms(1) by (auto simp: cancelled_watchers_def c1(2) dict_ok_def distinct_map_filter)
  note e = fold_watch_end [OF ws(3,1,2) c1(4)]
  have cb': "cb' = fold (\<lambda>(i, s). watch_end i s) ?ws ?c1" by (simp add: cb'_def end_cancelled_def)
  show "cb_subs cb' = []" "cb_scheduled cb' = []"
    unfolding cb' using fold_watch_end_subs(1) [OF c1(1)] fold_watch_end_subs(2) c1(3) by metis+
  show "dict_ok (cb_watching cb')" "bus_ok (js_bus (ex_js (cb_exec cb')))" unfolding cb' using e by blast+
  show "watchers_frame cb cb'"
    unfolding cb' by (meson watchers_frame_trans close_callbacks_views(4) watchers_frame_scheduled watchers_frame_end_all)
  show "\<forall>(i, s) \<in> set (cb_watching cb). (i, s) \<in> set (cb_watching cb') \<or>
      cs_queue s \<notin> set (subscribers (js_bus (ex_js (cb_exec cb'))) (cs_run_id s))"
    unfolding cb' using e c1(2) by auto
qed

text \<open>Registering from another thread, on a loop that runs, subscribes a new queue and watches it.\<close>

lemma register_watches:
  assumes loop: "exec_loop_running (cb_exec cb)" "ex_loop (cb_exec cb) = Some l" "w_cur_loop (cb_exec cb) \<noteq> Some l"
    "js_loop (ex_js (cb_exec cb)) = Some l"
  shows "register_callback r on_event on_done cb =
    (let i = fst (fresh_uuid (cb_exec cb)); b = js_bus (ex_js (cb_exec cb));
         s = \<lparr>cs_run_id = r, cs_queue = b_next b, cs_on_event = on_event, cs_on_done = on_done\<rparr>
     in (Inr i, cb\<lparr>cb_exec := (cb_exec cb)\<lparr>w_uuids := Suc (w_uuids (cb_exec cb)),
                      ex_js := (ex_js (cb_exec cb))\<lparr>js_bus := snd (subscribe r (Some 0) 0 b)\<rparr>\<rparr>,
                   cb_watching := dict_set i s (cb_watching cb), cb_subs := dict_set i s (cb_subs cb)\<rparr>))"
proof -
  let ?b = "js_bus (ex_js (cb_exec cb))"
  obtain b' where q: "subscribe r (Some 0) 0 ?b = (Inr (b_next ?b), b')"
    using subscribe_result [of r "Some 0" 0 ?b]
    by (cases "subscribe r (Some 0) 0 ?b") (simp add: replay_ok new_queue_def)
  show ?thesis
    using loop
    by (simp add: register_callback_def fresh_uuid_def in_loop_cb_def create_subscription_def stream_events_def
        ensure_event_subscription_def js_events_def loop_check_def exec_loop_running_def loop_is_running_def Let_def q)
qed

section \<open>Properties\<close>

lemma watch_takes:
  "watch s es =
    (concat (map (\<lambda>e. dispatch_to OnEvent (cs_on_event s) e)
       (takeWhile (\<lambda>e. \<not> is_terminal_event e) es @ take 1 (dropWhile (\<lambda>e. \<not> is_terminal_event e) es))) @
     concat (map (dispatch_to OnDone (cs_on_done s)) (take 1 (dropWhile (\<lambda>e. \<not> is_terminal_event e) es))),
     list_ex is_terminal_event es)"
  by (induction es) auto

lemma stream_yields_takes:
  "stream_yields True es =
    (takeWhile (\<lambda>e. \<not> is_terminal_event e) es @ take 1 (dropWhile (\<lambda>e. \<not> is_terminal_event e) es),
     list_ex is_terminal_event es)"
  by (induction es) auto

text \<open>C37: callbacks see the run's events as a stream does. A watching task hands \<open>on_event\<close> exactly
  the events \<open>stream_events\<close> would yield, in order - those up to and including the first
  terminal one - and then, if there is a terminal event, that one to \<open>on_done\<close>, once and last;
  it ends when the stream ends.\<close>

theorem callbacks_follow_stream:
  "watch s es =
    (case stream_yields True es of (ys, fin) \<Rightarrow>
      (concat (map (dispatch_to OnEvent (cs_on_event s)) ys) @
       (if fin then dispatch_to OnDone (cs_on_done s) (last ys) else []), fin))"
proof (cases "list_ex is_terminal_event es")
  case True
  then obtain e rest where d: "dropWhile (\<lambda>e. \<not> is_terminal_event e) es = e # rest"
    by (cases "dropWhile (\<lambda>e. \<not> is_terminal_event e) es") (auto simp: list_ex_iff)
  show ?thesis using True by (simp add: watch_takes stream_yields_takes d)
next
  case False
  then have "dropWhile (\<lambda>e. \<not> is_terminal_event e) es = []" by (auto simp: list_ex_iff)
  then show ?thesis using False by (simp only: watch_takes stream_yields_takes) simp
qed

end
