(* ===== verification/CommandFacts.thy ===== *)
theory CommandFacts
  imports Commands
begin

text \<open>
  What holds of commands: the argument count that validators check against how Python binds
  arguments, and what the tables of a command object answer.
\<close>

section \<open>Argument counts and calls\<close>

text \<open>
  The reference: whether Python binds \<open>n\<close> positional arguments to parameters, filling them
  from the left; what is left unfilled needs a default.
\<close>

fun binds :: "param list \<Rightarrow> nat \<Rightarrow> bool" where
  "binds [] n \<longleftrightarrow> n = 0"
| "binds (p # ps) n \<longleftrightarrow>
    (case pa_kind p of
       POSITIONAL \<Rightarrow> if n = 0 then pa_default p \<and> binds ps 0 else binds ps (n - 1)
     | VAR_POSITIONAL \<Rightarrow> binds ps 0
     | KEYWORD_ONLY \<Rightarrow> pa_default p \<and> binds ps n
     | VAR_KEYWORD \<Rightarrow> binds ps n)"

text \<open>
  Signatures of positional parameters, those with defaults last as Python's syntax demands,
  and perhaps a variadic one at the end.
\<close>

fun positional_sig :: "bool \<Rightarrow> param list \<Rightarrow> bool" where
  "positional_sig d [] = True"
| "positional_sig d (p # ps) =
    (if pa_kind p = POSITIONAL then (d \<longrightarrow> pa_default p) \<and> positional_sig (pa_default p) ps
     else pa_kind p = VAR_POSITIONAL \<and> ps = [])"

definition required :: "param list \<Rightarrow> nat" where
  "required ps = length (filter (\<lambda>p. pa_kind p \<noteq> VAR_POSITIONAL \<and> \<not> pa_default p) ps)"

definition nameable :: "param list \<Rightarrow> nat" where
  "nameable ps = length (filter (\<lambda>p. pa_kind p \<noteq> VAR_POSITIONAL) ps)"

definition is_variadic :: "param list \<Rightarrow> bool" where
  "is_variadic ps \<longleftrightarrow> list_ex (\<lambda>p. pa_kind p = VAR_POSITIONAL) ps"

lemma count_params_eq:
  "count_params ps mn mx v = (mn + int (required ps), mx + int (nameable ps), v \<or> is_variadic ps)"
  by (induction ps mn mx v rule: count_params.induct) (auto simp: required_def nameable_def is_variadic_def)

lemma required_default: "positional_sig True ps \<Longrightarrow> required ps = 0"
  by (induction ps) (auto simp: required_def split: if_splits)

lemma binds_count:
  "positional_sig d ps \<Longrightarrow> binds ps n \<longleftrightarrow> required ps \<le> n \<and> (is_variadic ps \<or> n \<le> nameable ps)"
proof (induction ps arbitrary: d n)
  case (Cons p ps)
  show ?case
  proof (cases "pa_kind p = POSITIONAL")
    case True
    then have sig: "positional_sig (pa_default p) ps" using Cons.prems by simp
    have "pa_default p \<Longrightarrow> required ps = 0" using sig required_default by simp
    then show ?thesis
      using True Cons.IH [OF sig, of "n - 1"] Cons.IH [OF sig, of 0]
      by (cases n) (auto simp: required_def nameable_def is_variadic_def)
  next
    case False
    then show ?thesis using Cons.prems by (simp add: required_def nameable_def is_variadic_def)
  qed
qed (simp add: required_def nameable_def is_variadic_def)

text \<open>C34: for methods without keyword parameters the argument check is exactly Python's calling rule.
  For a command method with positional parameters, the defaults last, and perhaps a variadic one, but
  no keyword-only parameter and no \<open>**kwargs\<close>, the specification that \<open>ArgSpec.from_signature\<close>
  derives accepts a number of arguments if and only if calling the method with that many arguments
  binds.\<close>

theorem arg_spec_matches_call:
  assumes "positional_sig False ps"
  shows "validate_count (from_signature (self # ps) True) (int n) = Inr () \<longleftrightarrow> binds ps n"
  using binds_count [OF assms, of n]
  by (auto simp: from_signature_def validate_count_def count_params_eq)

lemma arg_spec_matches_call_witness:
  "validate_count (from_signature
     [\<lparr>pa_kind = POSITIONAL, pa_default = False\<rparr>, \<lparr>pa_kind = POSITIONAL, pa_default = False\<rparr>,
      \<lparr>pa_kind = POSITIONAL, pa_default = True\<rparr>] True) 2 = Inr ()"
  using arg_spec_matches_call [of "[\<lparr>pa_kind = POSITIONAL, pa_default = False\<rparr>,
      \<lparr>pa_kind = POSITIONAL, pa_default = True\<rparr>]" "\<lparr>pa_kind = POSITIONAL, pa_default = False\<rparr>" 2]
  by simp

text \<open>
  Keyword parameters are counted as if they were positional: a command with \<open>**kw\<close> is told
  it lacks an argument, and one with a keyword-only option accepts one it cannot be called with.
\<close>

lemma keyword_parameters_miscounted:
  "validate_count (from_signature [self, \<lparr>pa_kind = VAR_KEYWORD, pa_default = False\<rparr>] True) 0 \<noteq> Inr () \<and>
   binds [\<lparr>pa_kind = VAR_KEYWORD, pa_default = False\<rparr>] 0 \<and>
   validate_count (from_signature [self, \<lparr>pa_kind = KEYWORD_ONLY, pa_default = True\<rparr>] True) 1 = Inr () \<and>
   \<not> binds [\<lparr>pa_kind = KEYWORD_ONLY, pa_default = True\<rparr>] 1"
  by (simp add: from_signature_def validate_count_def)

section \<open>The tables\<close>

text \<open>The last definition of a list that satisfies a predicate.\<close>

definition find_last :: "('a \<Rightarrow> bool) \<Rightarrow> 'a list \<Rightarrow> 'a option" where
  "find_last P xs = find P (rev xs)"

lemma find_append: "find P (xs @ ys) = (case find P xs of Some x \<Rightarrow> Some x | None \<Rightarrow> find P ys)"
  by (induction xs) simp_all

lemma find_last_simps [simp]:
  "find_last P [] = None"
  "find_last P (x # xs) =
    (case find_last P xs of Some y \<Rightarrow> Some y | None \<Rightarrow> if P x then Some x else None)"
  by (simp_all add: find_last_def find_append split: option.split)

lemma map_name_simps:
  assumes "map_name mk d nm b = Inr b'"
  shows "bc_by_name b' = dict_set nm d (bc_by_name b)" "bc_by_id b' = bc_by_id b"
    "bc_console_name b' = bc_console_name b" "bc_defs b' = bc_defs b"
  using assms by (auto simp: map_name_def dict_simps split: sum.splits option.splits)

lemma map_names_simps:
  assumes "fold_res (map_name mk d) nms b = Inr b'"
  shows "map_of (bc_by_name b') x = (if x \<in> set nms then Some d else map_of (bc_by_name b) x) \<and>
    bc_by_id b' = bc_by_id b \<and> bc_console_name b' = bc_console_name b \<and> bc_defs b' = bc_defs b"
  using assms
proof (induction nms arbitrary: b)
  case (Cons nm nms)
  then obtain b1 where b1: "map_name mk d nm b = Inr b1" "fold_res (map_name mk d) nms b1 = Inr b'"
    by (auto split: sum.splits)
  show ?case using Cons.IH [OF b1(2)] map_name_simps [OF b1(1)] by (simp add: dict_simps)
qed simp

lemma tables_from:
  assumes "fold_res (map_components mk) defs b = Inr b'"
  shows "map_of (bc_by_name b') x =
      (case find_last (\<lambda>d. x \<in> set (all_names d)) defs of Some d \<Rightarrow> Some d | None \<Rightarrow> map_of (bc_by_name b) x) \<and>
    map_of (bc_by_id b') i =
      (case find_last (\<lambda>d. def_command_id (bc_console_name b) d = i) defs of
         Some d \<Rightarrow> Some d | None \<Rightarrow> map_of (bc_by_id b) i) \<and>
    bc_console_name b' = bc_console_name b \<and> bc_defs b' = bc_defs b"
  using assms
proof (induction defs arbitrary: b)
  case (Cons d defs)
  then obtain b1 where b1: "map_components mk d b = Inr b1" "fold_res (map_components mk) defs b1 = Inr b'"
    by (auto split: sum.splits)
  have "map_of (bc_by_name b1) x = (if x \<in> set (all_names d) then Some d else map_of (bc_by_name b) x)"
    "map_of (bc_by_id b1) i = (if def_command_id (bc_console_name b) d = i then Some d else map_of (bc_by_id b) i)"
    "bc_console_name b1 = bc_console_name b" "bc_defs b1 = bc_defs b"
    using map_names_simps [OF b1(1) [unfolded map_components_def], of x] by (auto simp: dict_simps)
  with Cons.IH [OF b1(2)] show ?case by (simp split: option.split)
qed simp

definition console_defs ::
  "members \<Rightarrow> nat \<Rightarrow> nat \<Rightarrow> command_registry \<Rightarrow> command_def list \<times> command_registry" where
  "console_defs mems console_cls commands_cls r =
    (let (defs, r1) = get_command_defs_for_console mems console_cls r
     in if defs = [] then collect_from_commands_cls mems commands_cls r1 else (defs, r1))"

lemma base_commands_tables:
  assumes "new_base_commands mk mems cn console_cls commands_cls r = (Inr b, r')"
  shows "get_command_def_by_id b x = find_last (\<lambda>d. def_command_id cn d = x) (bc_defs b)"
    "get_command_def b x =
      (case find_last (\<lambda>d. def_command_id cn d = x) (bc_defs b) of
         Some d \<Rightarrow> Some d
       | None \<Rightarrow> find_last (\<lambda>d. x \<in> set (all_names d)) (bc_defs b))"
    "console_defs mems console_cls commands_cls r = (bc_defs b, r')" "bc_console_name b = cn"
proof -
  obtain defs where defs: "console_defs mems console_cls commands_cls r = (defs, r')"
    "fold_res (map_components mk) defs
      \<lparr>bc_console_name = cn, bc_defs = defs, bc_by_name = [], bc_by_id = [], bc_funcs = [],
       bc_completers = [], bc_validators = []\<rparr> = Inr b"
    using assms by (auto simp: new_base_commands_def console_defs_def Let_def split: prod.splits)
  note t = tables_from [OF defs(2), of x x]
  show "get_command_def_by_id b x = find_last (\<lambda>d. def_command_id cn d = x) (bc_defs b)"
    "get_command_def b x =
      (case find_last (\<lambda>d. def_command_id cn d = x) (bc_defs b) of
         Some d \<Rightarrow> Some d
       | None \<Rightarrow> find_last (\<lambda>d. x \<in> set (all_names d)) (bc_defs b))"
    "console_defs mems console_cls commands_cls r = (bc_defs b, r')" "bc_console_name b = cn"
    using t defs(1) by (auto simp: get_command_def_by_id_def get_command_def_def split: option.split)
qed

text \<open>The last definition wins. In the tables of a command object an id finds the last
  definition of the console that has this id, and a name or alias - when it is no id - the last
  definition that has this name; what no definition has is not found.\<close>

theorem last_definition_wins:
  assumes "new_base_commands mk mems cn console_cls commands_cls r = (Inr b, r')"
  shows "get_command_def_by_id b x = find_last (\<lambda>d. def_command_id cn d = x) (bc_defs b) \<and>
    get_command_def b x =
      (case find_last (\<lambda>d. def_command_id cn d = x) (bc_defs b) of
         Some d \<Rightarrow> Some d
       | None \<Rightarrow> find_last (\<lambda>d. x \<in> set (all_names d)) (bc_defs b))"
using base_commands_tables [OF assms] by blast

text \<open>A console class with two commands that share an alias.\<close>

definition demo_def :: "nat \<Rightarrow> string \<Rightarrow> string list \<Rightarrow> bool \<Rightarrow> command_def" where
  "demo_def k name alias rpc =
    \<lparr>cd_func_name = name, cd_func = \<lparr>fn_id = k, fn_name = name, fn_params = [], fn_info = None\<rparr>,
     cd_description = [], cd_completer = None, cd_validator = None, cd_arg_spec = Some default_arg_spec,
     cd_exposure = [(''rpc'', rpc)], cd_alias = alias\<rparr>"

definition demo_defs2 :: "command_def list" where
  "demo_defs2 = [demo_def 1 ''show'' [''s''] True, demo_def 2 ''stop'' [''s''] False]"

definition demo_registry :: command_registry where
  "demo_registry = \<lparr>cr_console_classes = [(1, 2)], cr_commands_defs = [(2, demo_defs2)], cr_console_defs = []\<rparr>"

definition demo_commands :: base_commands where
  "demo_commands = (case fst (new_base_commands (\<lambda>_ _. Inr 0) (\<lambda>_. []) ''root'' 1 2 demo_registry) of Inr b \<Rightarrow> b)"

lemma demo_commands_made:
  "new_base_commands (\<lambda>_ _. Inr 0) (\<lambda>_. []) ''root'' 1 2 demo_registry = (Inr demo_commands, demo_registry)"
  "bc_defs demo_commands = demo_defs2"
  by code_simp+

lemma last_definition_wins_witness:
  "get_command_def demo_commands ''s'' = Some (demo_def 2 ''stop'' [''s''] False)"
  using last_definition_wins [OF demo_commands_made(1), of "''s''"]
  unfolding demo_commands_made(2) by (simp add: demo_defs2_def) code_simp

section \<open>Completion\<close>

text \<open>
  Completion and validation count alike, except before the first word: at the start of the
  arguments of a command that takes none, completions are offered, and whatever is accepted is
  one argument too many.
\<close>

lemma completes_for_no_arguments:
  "completion_args \<lparr>as_min = 0, as_max = Some 0, as_variadic = False\<rparr> [] = Some [] \<and>
   validate_count \<lparr>as_min = 0, as_max = Some 0, as_variadic = False\<rparr> 1 \<noteq> Inr () \<and>
   completion_args \<lparr>as_min = 0, as_max = Some 0, as_variadic = False\<rparr> '' '' = None"
  by code_simp

lemma allowed_count_validates:
  assumes "allow_complete_for_spec spec txt args" and "txt \<noteq> []" and "as_min spec \<le> int n"
    and "n = (if py_space (last txt) then Suc (length args) else length args)"
  shows "validate_count spec (int n) = Inr ()"
  using assms by (auto simp: allow_complete_for_spec_def validate_count_def split: option.splits if_splits)

end
