(* ===== verification/Binding.thy ===== *)
theory Binding
  imports ConsoleRegistryFacts CommandFacts
begin

text \<open>
  From a command of an invocation to a call: \<open>ExecutionBinding\<close> (\<open>executor/execution.py\<close>,
  and the same steps in \<open>BaseConsole.run\<close>), and \<open>_resolve_command_def\<close>, by which the RPC
  frontend and the session manager look up the definition whose exposure they check
  (\<open>frontends/rpc/core.py\<close>, \<open>session/manager.py\<close>).
\<close>

section \<open>Calling a command\<close>

text \<open>The function that runs and the arguments it gets.\<close>

definition command_call :: "base_commands \<Rightarrow> invocation \<Rightarrow> (func_obj \<times> string list) res" where
  "command_call b iv =
    (case (case Option.bind (inv_command_id iv) (get_command_def_by_id b) of
             Some d \<Rightarrow> Some d
           | None \<Rightarrow> Option.bind (inv_command_name iv) (get_command_def b)) of
       None \<Rightarrow> Inl (PyExc ValueErrorC ''Command not found'')
     | Some d \<Rightarrow> Inr (cd_func d, inv_argv iv))"

definition binding_console_name :: "execution_context option \<Rightarrow> invocation \<Rightarrow> string option" where
  "binding_console_name ctx iv =
    (case ctx of
       Some x \<Rightarrow> if truthy_str (xc_console_name x) then xc_console_name x else inv_console_id iv
     | None \<Rightarrow> inv_console_id iv)"

definition resolve_console_cls :: "console_registry \<Rightarrow> string option \<Rightarrow> console_class option" where
  "resolve_console_cls g console_name =
    (case console_name of
       None \<Rightarrow> None
     | Some n \<Rightarrow> map_option (\<lambda>(_, k, _). k) (find (\<lambda>(m, _, _). m = n) (iter_consoles g)))"

text \<open>
  The commands of a binding without a console: built on a stub of the console's class that
  carries the console's name.
\<close>

definition binding_commands ::
  "constructor \<Rightarrow> members \<Rightarrow> nat \<Rightarrow> console_registry \<Rightarrow> execution_context option \<Rightarrow> invocation
   \<Rightarrow> command_registry \<Rightarrow> base_commands res \<times> command_registry" where
  "binding_commands mk mems default_cls g ctx iv r =
    (let name = binding_console_name ctx iv in
     case resolve_console_cls g name of
       None \<Rightarrow> (Inl (PyExc ValueErrorC ''Console not found''), r)
     | Some k \<Rightarrow>
         let stub_name = (if truthy_str name then the name else map lower_char (kc_name k));
             cls = (case get_commands_cls r (kc_id k) of None \<Rightarrow> default_cls | Some c \<Rightarrow> c)
         in new_base_commands mk mems stub_name (kc_id k) cls r)"

definition binding_execute ::
  "constructor \<Rightarrow> members \<Rightarrow> nat \<Rightarrow> console_registry \<Rightarrow> execution_context option \<Rightarrow> base_commands option
   \<Rightarrow> invocation \<Rightarrow> command_registry \<Rightarrow> (func_obj \<times> string list) res \<times> command_registry" where
  "binding_execute mk mems default_cls g ctx console_commands iv r =
    (case console_commands of
       Some b \<Rightarrow> (command_call b iv, r)
     | None \<Rightarrow>
         (case binding_commands mk mems default_cls g ctx iv r of
            (Inl e, r1) \<Rightarrow> (Inl e, r1)
          | (Inr b, r1) \<Rightarrow> (command_call b iv, r1)))"

section \<open>Resolving a command's definition\<close>

definition resolve_defs ::
  "members \<Rightarrow> nat \<Rightarrow> console_class \<Rightarrow> command_registry \<Rightarrow> command_def list \<times> command_registry" where
  "resolve_defs mems default_cls k r =
    (let (defs, r1) = get_command_defs_for_console mems (kc_id k) r
     in if defs = [] then collect_from_commands_cls mems default_cls r1 else (defs, r1))"

definition pick_def :: "string \<Rightarrow> string option \<Rightarrow> string option \<Rightarrow> command_def list \<Rightarrow> command_def option" where
  "pick_def console_name command_id command_name defs =
    (case (if truthy_str command_id
           then find (\<lambda>d. Some (def_command_id console_name d) = command_id) defs else None) of
       Some d \<Rightarrow> Some d
     | None \<Rightarrow>
         if truthy_str command_name then find (\<lambda>d. the command_name \<in> set (all_names d)) defs else None)"

definition resolve_command_def ::
  "members \<Rightarrow> nat \<Rightarrow> console_registry \<Rightarrow> string option \<Rightarrow> string option \<Rightarrow> string option
   \<Rightarrow> command_registry \<Rightarrow> command_def option \<times> command_registry" where
  "resolve_command_def mems default_cls g console_name command_id command_name r =
    (case resolve_console_cls g console_name of
       None \<Rightarrow> (None, r)
     | Some k \<Rightarrow>
         let (defs, r1) = resolve_defs mems default_cls k r
         in (pick_def (the console_name) command_id command_name defs, r1))"

section \<open>The definition that is checked is the one that runs\<close>

lemma collect_again:
  assumes "collect_from_commands_cls mems c r = (defs, r1)"
  shows "collect_from_commands_cls mems c r1 = (defs, r1)"
    "cr_console_classes r1 = cr_console_classes r" "cr_console_defs r1 = cr_console_defs r"
    "map_of (cr_commands_defs r) c' = Some x \<Longrightarrow> map_of (cr_commands_defs r1) c' = Some x"
    "map_of (cr_commands_defs r1) c = Some defs"
  using assms
  by (auto simp: collect_from_commands_cls_def Let_def dict_simps split: option.splits)

lemma defs_again:
  assumes "get_command_defs_for_console mems k r = (defs, r1)"
  shows "get_command_defs_for_console mems k r1 = (defs, r1)" "get_commands_cls r1 = get_commands_cls r"
proof -
  have "get_commands_cls r1 = get_commands_cls r" and "cr_console_defs r1 = cr_console_defs r"
    using assms collect_again(2,3)
    by (fastforce simp: get_command_defs_for_console_def get_commands_cls_def fun_eq_iff split: option.splits prod.splits)+
  then show "get_command_defs_for_console mems k r1 = (defs, r1)" "get_commands_cls r1 = get_commands_cls r"
    using assms
    by (auto simp: get_command_defs_for_console_def split: option.splits prod.splits dest: collect_again(1))
qed

lemma console_defs_again:
  assumes res: "resolve_defs mems dc k r = (defs, r1)"
    and own: "fst (get_command_defs_for_console mems (kc_id k) r) \<noteq> [] \<or> get_commands_cls r (kc_id k) = None"
  shows "console_defs mems (kc_id k)
    (case get_commands_cls r1 (kc_id k) of None \<Rightarrow> dc | Some c \<Rightarrow> c) r1 = (defs, r1)"
proof -
  obtain defs0 r0 where g: "get_command_defs_for_console mems (kc_id k) r = (defs0, r0)"
    by (cases "get_command_defs_for_console mems (kc_id k) r")
  show ?thesis
  proof (cases "defs0 = []")
    case False
    then have "defs = defs0" "r1 = r0" using res g by (simp_all add: resolve_defs_def)
    then show ?thesis using defs_again(1) [OF g] False by (simp add: console_defs_def)
  next
    case True
    then have none: "get_commands_cls r (kc_id k) = None" using own g by simp
    then have r0: "r0 = r" and cd: "dict_get_or (cr_console_defs r) (kc_id k) [] = []"
      using g True by (auto simp: get_command_defs_for_console_def)
    have c: "collect_from_commands_cls mems dc r = (defs, r1)"
      using res g True r0 by (simp add: resolve_defs_def)
    have none1: "get_commands_cls r1 (kc_id k) = None"
      using none collect_again(2) [OF c] by (simp add: get_commands_cls_def)
    have "get_command_defs_for_console mems (kc_id k) r1 = ([], r1)"
      using none1 cd collect_again(3) [OF c] by (simp add: get_command_defs_for_console_def)
    then show ?thesis using none1 collect_again(1) [OF c] by (simp add: console_defs_def)
  qed
qed

lemma unique_find:
  assumes "d \<in> set defs" and "P d" and "\<And>d'. d' \<in> set defs \<Longrightarrow> P d' \<Longrightarrow> d' = d"
  shows "find_last P defs = Some d"
proof -
  have "\<exists>d'. find P (rev defs) = Some d' \<and> d' \<in> set defs \<and> P d'"
    using assms(1,2) find_None_iff [of P "rev defs"] find_Some_iff [of P "rev defs"]
    by (cases "find P (rev defs)") (auto, metis nth_mem set_rev length_rev)
  then show ?thesis using assms(3) by (auto simp: find_last_def)
qed

lemma find_None_last: "\<forall>d \<in> set defs. \<not> P d \<Longrightarrow> find_last P defs = None"
  by (auto simp: find_last_def find_None_iff)

lemma find_mem: "find P xs = Some x \<Longrightarrow> x \<in> set xs \<and> P x"
  by (auto simp: find_Some_iff)

text \<open>No two definitions of a list share a name, and no name looks like an id.\<close>

definition names_unique :: "command_def list \<Rightarrow> bool" where
  "names_unique defs \<longleftrightarrow> distinct defs \<and>
    (\<forall>d \<in> set defs. \<forall>d' \<in> set defs. set (all_names d) \<inter> set (all_names d') \<noteq> {} \<longrightarrow> d = d') \<and>
    (\<forall>d \<in> set defs. \<forall>n \<in> set (all_names d). \<not> startswith n ''cmd:'')"

lemma same_id: "def_command_id n d = def_command_id n d' \<longleftrightarrow> cd_func_name d = cd_func_name d'"
  by (simp add: def_command_id_def build_command_id_def)

text \<open>A command object over unique names, with the tables its construction gives it.\<close>

definition tables_ok :: "string \<Rightarrow> base_commands \<Rightarrow> bool" where
  "tables_ok n b \<longleftrightarrow> names_unique (bc_defs b) \<and>
    (\<forall>x. get_command_def_by_id b x = find_last (\<lambda>d. def_command_id n d = x) (bc_defs b)) \<and>
    (\<forall>x. get_command_def b x =
      (case find_last (\<lambda>d. def_command_id n d = x) (bc_defs b) of
         Some d \<Rightarrow> Some d | None \<Rightarrow> find_last (\<lambda>d. x \<in> set (all_names d)) (bc_defs b)))"

lemma names_uniqueD:
  assumes "names_unique defs" and "d1 \<in> set defs" and "x \<in> set (all_names d1)"
  shows "d2 \<in> set defs \<Longrightarrow> x \<in> set (all_names d2) \<Longrightarrow> d2 = d1" "\<not> startswith x ''cmd:''"
  using assms unfolding names_unique_def by blast+

lemma func_name_in [simp]: "cd_func_name d \<in> set (all_names d)"
  by (simp add: all_names_def)

lemma tables_by_id:
  assumes "tables_ok n b" and "d \<in> set (bc_defs b)"
  shows "get_command_def_by_id b (def_command_id n d) = Some d"
proof -
  have u: "names_unique (bc_defs b)" using assms(1) by (simp add: tables_ok_def)
  have "d' = d" if "d' \<in> set (bc_defs b)" "def_command_id n d' = def_command_id n d" for d'
  proof (rule names_uniqueD(1) [OF u assms(2) func_name_in that(1)])
    have "cd_func_name d' = cd_func_name d" using that(2) by (simp only: same_id)
    then show "cd_func_name d \<in> set (all_names d')" using func_name_in [of d'] by simp
  qed
  then have "find_last (\<lambda>d'. def_command_id n d' = def_command_id n d) (bc_defs b) = Some d"
    using assms(2) by (intro unique_find) auto
  then show ?thesis using assms(1) by (simp add: tables_ok_def)
qed

lemma tables_not_id:
  assumes "tables_ok n b" and "\<forall>d \<in> set (bc_defs b). def_command_id n d \<noteq> x"
  shows "get_command_def_by_id b x = None"
  using assms find_None_last [of "bc_defs b" "\<lambda>d. def_command_id n d = x"] by (simp add: tables_ok_def)

lemma tables_by_name:
  assumes "tables_ok n b" and "d \<in> set (bc_defs b)" and "x \<in> set (all_names d)"
  shows "get_command_def b x = Some d"
proof -
  have u: "names_unique (bc_defs b)" using assms(1) by (simp add: tables_ok_def)
  have "\<forall>d' \<in> set (bc_defs b). def_command_id n d' \<noteq> x"
    using names_uniqueD(2) [OF u assms(2,3)] build_command_id_simps(1) by (metis def_command_id_def)
  then have "find_last (\<lambda>d. def_command_id n d = x) (bc_defs b) = None" by (rule find_None_last)
  moreover have "find_last (\<lambda>d. x \<in> set (all_names d)) (bc_defs b) = Some d"
    by (rule unique_find [OF assms(2)]) (rule assms(3), rule names_uniqueD(1) [OF u assms(2,3)])
  ultimately show ?thesis using assms(1) by (simp add: tables_ok_def)
qed

text \<open>Looked up by id and then by name, a definition that the lookup picks is found.\<close>

lemma call_by_name:
  assumes ok: "tables_ok n b" and d: "d \<in> set (bc_defs b)" "nm \<in> set (all_names d)"
    and iv: "inv_command_name iv = Some nm"
    and i: "inv_command_id iv = Some (build_command_id n nm) \<or>
      (\<exists>c. inv_command_id iv = Some c \<and> (\<forall>d' \<in> set (bc_defs b). def_command_id n d' \<noteq> c))"
  shows "command_call b iv = Inr (cd_func d, inv_argv iv)"
  using i
proof
  assume i: "inv_command_id iv = Some (build_command_id n nm)"
  show ?thesis
  proof (cases "\<exists>d' \<in> set (bc_defs b). cd_func_name d' = nm")
    case True
    then obtain d' where d': "d' \<in> set (bc_defs b)" "cd_func_name d' = nm" by blast
    have u: "names_unique (bc_defs b)" using ok by (simp add: tables_ok_def)
    have "nm \<in> set (all_names d')" using func_name_in [of d'] by (simp only: d'(2))
    then have "d' = d" by (rule names_uniqueD(1) [OF u d d'(1)])
    then have "inv_command_id iv = Some (def_command_id n d)" using i d'(2) by (simp add: def_command_id_def)
    then show ?thesis by (simp add: command_call_def tables_by_id [OF ok d(1)])
  next
    case False
    then have "get_command_def_by_id b (build_command_id n nm) = None"
      by (intro tables_not_id [OF ok]) (auto simp: def_command_id_def build_command_id_def)
    then show ?thesis by (simp add: command_call_def i iv tables_by_name [OF ok d])
  qed
next
  assume "\<exists>c. inv_command_id iv = Some c \<and> (\<forall>d' \<in> set (bc_defs b). def_command_id n d' \<noteq> c)"
  then obtain c where "inv_command_id iv = Some c" "get_command_def_by_id b c = None"
    using tables_not_id [OF ok] by blast
  then show ?thesis by (simp add: command_call_def iv tables_by_name [OF ok d])
qed

lemma call_of_picked:
  assumes ok: "tables_ok n b" and pick: "pick_def n cid cname (bc_defs b) = Some d"
    and iv: "inv_command_name iv = cname"
      "inv_command_id iv = (if cid = None \<and> truthy_str cname then Some (build_command_id n (the cname)) else cid)"
  shows "command_call b iv = Inr (cd_func d, inv_argv iv)"
proof (cases "truthy_str cid \<and> (\<exists>d'. find (\<lambda>d. Some (def_command_id n d) = cid) (bc_defs b) = Some d')")
  case True
  then have d: "find (\<lambda>d. Some (def_command_id n d) = cid) (bc_defs b) = Some d"
    using pick by (auto simp: pick_def_def)
  then have "inv_command_id iv = Some (def_command_id n d)" "d \<in> set (bc_defs b)"
    using find_mem [OF d] iv(2) by auto
  then show ?thesis by (simp add: command_call_def tables_by_id [OF ok])
next
  case False
  then have none: "truthy_str cid \<Longrightarrow> find (\<lambda>d. Some (def_command_id n d) = cid) (bc_defs b) = None" by auto
  then obtain nm where nm: "cname = Some nm" "truthy_str cname"
    "find (\<lambda>d. nm \<in> set (all_names d)) (bc_defs b) = Some d"
    using pick by (auto simp: pick_def_def truthy_str_def split: if_splits)
  have d: "d \<in> set (bc_defs b)" "nm \<in> set (all_names d)" using find_mem [OF nm(3)] by auto
  have "\<forall>d' \<in> set (bc_defs b). def_command_id n d' \<noteq> c" if "cid = Some c" for c
    using none that by (cases "c = []")
      (auto simp: def_command_id_def build_command_id_simps find_None_iff truthy_str_def)
  then show ?thesis
    using iv nm by (intro call_by_name [OF ok d]) auto
qed

text \<open>C16: the definition whose exposure is checked is the definition that runs. When the names of a
  console's commands are unique (and none looks like an id), and the console has commands of its
  own or none bound, then the definition \<open>_resolve_command_def\<close> finds for a request is the one
  whose function an execution binding of the same request calls, with the request's arguments.\<close>

theorem checked_definition_runs:
  assumes res: "resolve_command_def mems dc g (xc_console_name ctx) (xc_command_id ctx) (xc_command_name ctx) r =
      (Some d, r1)"
    and con: "xc_console_name ctx = Some n" "n \<noteq> []" "resolve_console_cls g (Some n) = Some k"
    and own: "fst (get_command_defs_for_console mems (kc_id k) r) \<noteq> [] \<or> get_commands_cls r (kc_id k) = None"
    and uniq: "names_unique (fst (resolve_defs mems dc k r))"
    and exec: "binding_execute mk mems dc g (Some ctx) None (to_invocation ctx) r1 = (Inr call, r2)"
  shows "call = (cd_func d, xc_argv ctx)"
proof -
  let ?iv = "to_invocation ctx"
  obtain defs where defs: "resolve_defs mems dc k r = (defs, r1)"
    "pick_def n (xc_command_id ctx) (xc_command_name ctx) defs = Some d"
    using res con by (auto simp: resolve_command_def_def split: prod.splits)
  define cls where "cls = (case get_commands_cls r1 (kc_id k) of None \<Rightarrow> dc | Some c \<Rightarrow> c)"
  obtain b where b: "new_base_commands mk mems n (kc_id k) cls r1 = (Inr b, r2)" "command_call b ?iv = Inr call"
    using exec con
    by (auto simp: binding_execute_def binding_commands_def binding_console_name_def truthy_str_def
        cls_def Let_def split: prod.splits sum.splits)
  note t = base_commands_tables [OF b(1)]
  have "console_defs mems (kc_id k) cls r1 = (defs, r1)"
    using console_defs_again [OF defs(1) own] by (simp add: cls_def)
  then have bd: "bc_defs b = defs" using t(3) by simp
  have ok: "tables_ok n b" using t(1,2) uniq by (simp add: tables_ok_def bd defs(1))
  have "command_call b ?iv = Inr (cd_func d, inv_argv ?iv)"
    using con(1) by (intro call_of_picked [OF ok defs(2) [folded bd]])
      (simp_all add: to_invocation_def context_command_id_def truthy_str_def con(2))
  then show ?thesis using b(2) by (simp add: to_invocation_def)
qed

text \<open>A registry with one console, whose two commands have unique names; and the shared alias.\<close>

definition demo_binding_registry :: "bool \<Rightarrow> command_registry" where
  "demo_binding_registry clash = \<lparr>cr_console_classes = [(1, 2)],
     cr_commands_defs = [(2, [demo_def 1 ''show'' [''s''] True, demo_def 2 ''stop'' [if clash then ''s'' else ''x''] False])],
     cr_console_defs = []\<rparr>"

definition demo_request :: execution_context where
  "demo_request = (new_execution_context ''rpc'')
     \<lparr>xc_console_name := Some ''root'', xc_command_name := Some ''s'', xc_argv := [''now'']\<rparr>"

definition demo_root_only :: console_registry where
  "demo_root_only = snd (set_root (demo_console 1 ''Root'' True) new_console_registry)"

lemma checked_definition_runs_witness:
  "fst (binding_execute (\<lambda>_ _. Inr 0) (\<lambda>_. []) 0 demo_root_only (Some demo_request) None
     (to_invocation demo_request) (demo_binding_registry False)) =
   Inr (cd_func (demo_def 1 ''show'' [''s''] True), [''now''])"
proof -
  let ?r = "demo_binding_registry False" and ?k = "demo_console 1 ''Root'' True"
  obtain call r2 where call: "binding_execute (\<lambda>_ _. Inr 0) (\<lambda>_. []) 0 demo_root_only (Some demo_request) None
      (to_invocation demo_request) ?r = (Inr call, r2)"
  proof -
    have "\<not> isl (fst (binding_execute (\<lambda>_ _. Inr 0) (\<lambda>_. []) 0 demo_root_only (Some demo_request) None
      (to_invocation demo_request) ?r))" by code_simp
    then show ?thesis using that by (metis isl_def prod.collapse sum.exhaust_sel)
  qed
  have "resolve_command_def (\<lambda>_. []) 0 demo_root_only (xc_console_name demo_request)
      (xc_command_id demo_request) (xc_command_name demo_request) ?r =
      (Some (demo_def 1 ''show'' [''s''] True), ?r)"
    "xc_console_name demo_request = Some ''root''" "''root'' \<noteq> []"
    "resolve_console_cls demo_root_only (Some ''root'') = Some ?k"
    "fst (get_command_defs_for_console (\<lambda>_. []) (kc_id ?k) ?r) \<noteq> [] \<or> get_commands_cls ?r (kc_id ?k) = None"
    "names_unique (fst (resolve_defs (\<lambda>_. []) 0 ?k ?r))" by code_simp+
  from checked_definition_runs [OF this call] show ?thesis
    using call by (simp add: demo_request_def)
qed

text \<open>
  With a name that two definitions share, the check takes the first and the call the last: the
  exposure of \<open>show\<close> is checked and \<open>stop\<close>, which is not exposed, runs.
\<close>

lemma shared_alias_bypasses_exposure:
  "fst (resolve_command_def (\<lambda>_. []) 0 demo_root_only (xc_console_name demo_request)
     (xc_command_id demo_request) (xc_command_name demo_request) (demo_binding_registry True)) =
     Some (demo_def 1 ''show'' [''s''] True) \<and>
   fst (binding_execute (\<lambda>_ _. Inr 0) (\<lambda>_. []) 0 demo_root_only (Some demo_request) None
     (to_invocation demo_request) (demo_binding_registry True)) =
     Inr (cd_func (demo_def 2 ''stop'' [''s''] False), [''now'']) \<and>
   dict_get_or (cd_exposure (demo_def 1 ''show'' [''s''] True)) ''rpc'' False \<and>
   \<not> dict_get_or (cd_exposure (demo_def 2 ''stop'' [''s''] False)) ''rpc'' False"
  by code_simp

end
