(* ===== verification/Rpc.thy ===== *)
theory Rpc
  imports SessionFacts Binding
begin

text \<open>
  The RPC frontend (\<open>frontends/rpc/core.py\<close>, \<open>frontends/rpc/server.py\<close>): who the caller is,
  which commands it may run, and the two methods of the service. Requests and replies are
  records of their protobuf fields; transport and encoding are grpc's. The commands check of
  the session manager (\<open>session/manager.py\<close>) is the same function.
\<close>

section \<open>Who is calling\<close>

text \<open>
  A value of grpc's authentication context: a list of byte strings, each given by the text it
  decodes to, or something else by its text.
\<close>

datatype auth_value = AuthList "string list" | AuthText string

definition auth_text :: "auth_value \<Rightarrow> string option" where
  "auth_text v =
    (case v of
       AuthList [] \<Rightarrow> None
     | AuthList (x # _) \<Rightarrow> Some x
     | AuthText [] \<Rightarrow> None
     | AuthText s \<Rightarrow> Some s)"

text \<open>\<open>None\<close>: the context has no \<open>auth_context\<close>, or it raised.\<close>

definition principal_from_auth_context :: "(string, auth_value) dict option \<Rightarrow> rpc_config \<Rightarrow> string option" where
  "principal_from_auth_context auth cfg =
    (case auth of
       None \<Rightarrow> None
     | Some d \<Rightarrow>
         (case List.map_filter (\<lambda>k. Option.bind (map_of d k) auth_text) (mt_principal_keys (rp_mtls cfg)) of
            [] \<Rightarrow> None
          | p # _ \<Rightarrow> Some p))"

record rpc_request =
  rq_console_name :: string
  rq_command_id :: string
  rq_command_name :: string
  rq_argv :: "string list"
  rq_kwargs :: "(string, pyval) dict"
  rq_raw_cmd :: string
  rq_timeout_ms :: int
  rq_lock_key :: string
  rq_session_id :: string
  rq_meta_revision :: string
  rq_principal :: string

definition resolve_principal ::
  "rpc_request \<Rightarrow> (string, auth_value) dict option \<Rightarrow> rpc_config \<Rightarrow> string option" where
  "resolve_principal rq auth cfg =
    (if mt_enabled (rp_mtls cfg) then principal_from_auth_context auth cfg
     else if rp_trust_client_principal cfg \<and> rq_principal rq \<noteq> [] then Some (rq_principal rq)
     else principal_from_auth_context auth cfg)"

section \<open>The checks, as this module writes them\<close>

text \<open>
  \<open>_is_rpc_allowed\<close>, \<open>_principal_allowed\<close> and \<open>_is_admin\<close> stand in this module a second time; both
  copies decide alike.
\<close>

definition rpc_is_admin :: "string \<Rightarrow> rpc_config \<Rightarrow> bool" where
  "rpc_is_admin p cfg =
    (case rp_admin_principals cfg of None \<Rightarrow> False | Some ps \<Rightarrow> if ps = [] then False else p \<in> set ps)"

definition rpc_principal_allowed :: "string option \<Rightarrow> rpc_config \<Rightarrow> bool" where
  "rpc_principal_allowed p cfg =
    (case rp_allowed_principals cfg of
       None \<Rightarrow> True
     | Some [] \<Rightarrow> True
     | Some ps \<Rightarrow> (case p of None \<Rightarrow> False | Some x \<Rightarrow> x \<in> set ps))"

definition rpc_command_allowed :: "(string, bool) dict \<Rightarrow> string option \<Rightarrow> rpc_config \<Rightarrow> bool" where
  "rpc_command_allowed exposure p cfg =
    (let admin = (case p of None \<Rightarrow> False | Some x \<Rightarrow> rpc_is_admin x cfg) in
     if \<not> (admin \<or> rpc_principal_allowed p cfg) then False
     else if rp_require_rpc_exposed cfg \<or> rp_default_deny cfg then dict_get_or exposure ''rpc'' False
     else True)"

lemma rpc_command_allowed_same: "rpc_command_allowed = is_rpc_allowed"
  by (auto simp: fun_eq_iff rpc_command_allowed_def is_rpc_allowed_def rpc_is_admin_def is_admin_def
      rpc_principal_allowed_def principal_allowed_def split: option.split list.split)

section \<open>Invoke\<close>

definition normalize_console_command :: "execution_context \<Rightarrow> execution_context" where
  "normalize_console_command x =
    (case xc_command_id x of
       None \<Rightarrow> x
     | Some i \<Rightarrow>
         if i \<noteq> [] \<and> (xc_console_name x = None \<or> xc_command_name x = None) \<and> startswith i ''cmd:'' then
           (case split_max 2 CHR '':'' i of
              [_, console, command] \<Rightarrow>
                x\<lparr>xc_console_name := (case xc_console_name x of None \<Rightarrow> none_if_empty console | y \<Rightarrow> y),
                  xc_command_name := (case xc_command_name x of None \<Rightarrow> none_if_empty command | y \<Rightarrow> y)\<rparr>
            | _ \<Rightarrow> x)
         else x)"

definition struct_to_dict :: "(string, pyval) dict option \<Rightarrow> (string, pyval) dict" where
  "struct_to_dict value = (case value of None \<Rightarrow> [] | Some d \<Rightarrow> d)"

definition request_context :: "string option \<Rightarrow> rpc_request \<Rightarrow> execution_context" where
  "request_context p rq =
    normalize_console_command ((new_execution_context ''rpc'')
      \<lparr>xc_principal := p, xc_console_name := none_if_empty (rq_console_name rq),
       xc_command_id := none_if_empty (rq_command_id rq),
       xc_command_name := none_if_empty (rq_command_name rq), xc_argv := rq_argv rq,
       xc_kwargs := struct_to_dict (Some (rq_kwargs rq)), xc_raw_cmd := none_if_empty (rq_raw_cmd rq),
       xc_timeout_ms := (if rq_timeout_ms rq = 0 then None else Some (rq_timeout_ms rq)),
       xc_lock_key := (if rq_lock_key rq = [] then ''global'' else rq_lock_key rq),
       xc_session_id := none_if_empty (rq_session_id rq),
       xc_meta_revision := none_if_empty (rq_meta_revision rq), xc_audit_policy := Some ''force''\<rparr>)"

datatype rpc_status = NotFound | PermissionDenied | FailedPrecondition

datatype rpc_reply = Reply string | Abort rpc_status string | RpcRaises pyexc

definition rpc_invoke ::
  "handler_env \<Rightarrow> members \<Rightarrow> nat \<Rightarrow> console_registry \<Rightarrow> rpc_config \<Rightarrow> rpc_request
   \<Rightarrow> (string, auth_value) dict option \<Rightarrow> handler_ref \<Rightarrow> command_registry \<times> exec
   \<Rightarrow> (rpc_reply \<times> command_registry \<times> exec) option" where
  "rpc_invoke he mems dc g cfg rq auth h s =
    (case s of (r, ex) \<Rightarrow>
       let p = resolve_principal rq auth cfg; x = request_context p rq in
       if rp_require_audit cfg \<and> ex_audit ex = None
       then Some (Abort FailedPrecondition ''audit sink is required for rpc'', s)
       else case resolve_command_def mems dc g (xc_console_name x) (xc_command_id x) (xc_command_name x) r of
              (None, r1) \<Rightarrow> Some (Abort NotFound ''command not found'', r1, ex)
            | (Some d, r1) \<Rightarrow>
                if \<not> rpc_command_allowed (cd_exposure d) p cfg
                then Some (Abort PermissionDenied ''command not allowed for rpc'', r1, ex)
                else (case submit_threadsafe he (to_invocation x) (Some h) ex of
                        None \<Rightarrow> None
                      | Some (Inl e, _, ex1) \<Rightarrow> Some (RpcRaises e, r1, ex1)
                      | Some (Inr i, _, ex1) \<Rightarrow> Some (Reply i, r1, ex1)))"

text \<open>The session manager resolves and checks a command with its own copies.\<close>

definition session_resolve_command_def ::
  "members \<Rightarrow> nat \<Rightarrow> console_registry \<Rightarrow> command_ctx \<Rightarrow> command_registry
   \<Rightarrow> command_def option \<times> command_registry" where
  "session_resolve_command_def mems dc g cc r =
    (case resolve_console_cls g (cc_console_name cc) of
       None \<Rightarrow> (None, r)
     | Some k \<Rightarrow>
         let (defs, r1) = resolve_defs mems dc k r
         in (pick_def (the (cc_console_name cc)) (cc_command_id cc) (cc_command_name cc) defs, r1))"

lemma session_resolve_command_def_same:
  "session_resolve_command_def mems dc g cc =
    resolve_command_def mems dc g (cc_console_name cc) (cc_command_id cc) (cc_command_name cc)"
  by (simp add: fun_eq_iff session_resolve_command_def_def resolve_command_def_def)

definition assert_rpc_command_allowed ::
  "members \<Rightarrow> nat \<Rightarrow> console_registry \<Rightarrow> rpc_config \<Rightarrow> command_ctx \<Rightarrow> string option \<Rightarrow> command_registry
   \<Rightarrow> unit res \<times> command_registry" where
  "assert_rpc_command_allowed mems dc g cfg cc p r =
    (case session_resolve_command_def mems dc g cc r of
       (None, r1) \<Rightarrow> (Inl (PyExc ValueErrorC ''Command not found''), r1)
     | (Some d, r1) \<Rightarrow>
         (if is_rpc_allowed (cd_exposure d) p cfg then Inr ()
          else Inl (PyExc PermissionErrorC ''Command not allowed for rpc-origin submit''), r1))"

section \<open>StreamEvents\<close>

text \<open>The proto enumeration of kinds; an object without a kind, or with another, is unspecified.\<close>

datatype proto_kind = KIND_UNSPECIFIED | KIND_STATE | KIND_STDOUT | KIND_LOG

definition runtime_kind_to_proto :: "pyval \<Rightarrow> event_kind option" where
  "runtime_kind_to_proto kind = (if kind = VNone then None else kind_of_value kind)"

definition kind_to_proto_enum :: "event_kind option \<Rightarrow> proto_kind" where
  "kind_to_proto_enum kind =
    (let k = runtime_kind_to_proto (case kind of None \<Rightarrow> VNone | Some k \<Rightarrow> VStr (kind_value k)) in
     if k = Some STATE then KIND_STATE
     else if k = Some STDOUT then KIND_STDOUT
     else if k = Some LOG then KIND_LOG
     else KIND_UNSPECIFIED)"

definition rpc_is_terminal_event :: "runtime_event \<Rightarrow> bool" where
  "rpc_is_terminal_event e =
    (if ev_kind e \<noteq> Some STATE then False
     else ev_event_type e \<in> {Some ''success'', Some ''failure'', Some ''cancelled'', Some ''timeout''})"

record proto_event =
  pe_kind :: proto_kind
  pe_msg :: string
  pe_level :: int
  pe_run_id :: string
  pe_event_type :: string
  pe_payload :: "(string, pyval) dict"
  pe_source :: string
  pe_ts :: real
  pe_seq :: int

definition level_to_int :: "level_arg \<Rightarrow> int" where
  "level_to_int l = (case l of NoLevel \<Rightarrow> 0 | Level u \<Rightarrow> level_value u | LevelInt i \<Rightarrow> i)"

definition payload_to_struct :: "pyval \<Rightarrow> (string, pyval) dict" where
  "payload_to_struct v = (case v of VNone \<Rightarrow> [] | VDict d \<Rightarrow> d | x \<Rightarrow> [(''value'', x)])"

definition str_or_empty :: "string option \<Rightarrow> string" where
  "str_or_empty s = (case s of None \<Rightarrow> [] | Some x \<Rightarrow> x)"

text \<open>\<open>py_str\<close> is Python's \<open>str\<close>.\<close>

definition proto_event_of :: "(pyval \<Rightarrow> string) \<Rightarrow> runtime_event \<Rightarrow> proto_event" where
  "proto_event_of py_str e =
    \<lparr>pe_kind = kind_to_proto_enum (ev_kind e), pe_msg = (if ev_msg e = VNone then [] else py_str (ev_msg e)),
     pe_level = level_to_int (ev_level e), pe_run_id = str_or_empty (ev_run_id e),
     pe_event_type = str_or_empty (ev_event_type e), pe_payload = payload_to_struct (ev_payload e),
     pe_source = str_or_empty (ev_source e), pe_ts = (case ev_ts e of None \<Rightarrow> 0 | Some t \<Rightarrow> t),
     pe_seq = (case ev_seq e of None \<Rightarrow> 0 | Some n \<Rightarrow> n)\<rparr>"

definition rpc_stream_open ::
  "rpc_config \<Rightarrow> string \<Rightarrow> int \<Rightarrow> exec \<Rightarrow> (rpc_status \<times> string + nat res) \<times> exec" where
  "rpc_stream_open cfg run_id since_seq ex =
    (if run_at (ex_js ex) run_id = None
     then (Inl (NotFound, ''run_id not found: '' @ run_id), ex)
     else let (q, ex1) = stream_events run_id (Some since_seq) (rp_stream_backpressure_queue_size cfg) ex
          in (Inr q, ex1))"

text \<open>
  One turn of the loop: the caller's call is cancelled before the wait, is done when the wait
  ends (which wins over an event that is there), or an event arrives. The second needs the
  done event, which \<open>_build_done_event\<close> makes when the call takes callbacks.
\<close>

definition build_done_event :: "bool \<Rightarrow> nat option \<Rightarrow> bool" where
  "build_done_event has_add_callback cur_loop = (has_add_callback \<and> cur_loop \<noteq> None)"

datatype stream_turn = CallCancelled | CallDone "runtime_event option" | Arrives runtime_event

fun rpc_stream :: "(pyval \<Rightarrow> string) \<Rightarrow> stream_turn list \<Rightarrow> proto_event list \<times> bool" where
  "rpc_stream py_str [] = ([], False)"
| "rpc_stream py_str (CallCancelled # ts) = ([], True)"
| "rpc_stream py_str (CallDone e # ts) = ([], True)"
| "rpc_stream py_str (Arrives e # ts) =
    (if rpc_is_terminal_event e then ([proto_event_of py_str e], True)
     else let (ys, fin) = rpc_stream py_str ts in (proto_event_of py_str e # ys, fin))"

definition rpc_stream_close :: "string \<Rightarrow> nat \<Rightarrow> exec \<Rightarrow> exec" where
  "rpc_stream_close run_id q ex = upd_js (unsubscribe_events run_id q) ex"

section \<open>The server\<close>

text \<open>Options by name, integers but for nothing; credentials by the file names they come from.\<close>

definition server_options :: "rpc_config \<Rightarrow> (string \<times> int) list" where
  "server_options cfg =
    [(''grpc.keepalive_time_ms'', rp_keepalive_time_ms cfg),
     (''grpc.keepalive_timeout_ms'', rp_keepalive_timeout_ms cfg),
     (''grpc.keepalive_permit_without_calls'', if rp_keepalive_permit_without_calls cfg then 1 else 0),
     (''grpc.max_receive_message_length'', rp_max_message_bytes cfg),
     (''grpc.max_send_message_length'', rp_max_message_bytes cfg)] @
    (case rp_max_streams_per_client cfg of None \<Rightarrow> [] | Some n \<Rightarrow> [(''grpc.max_concurrent_streams'', n)])"

record credentials =
  cr_key :: string
  cr_cert :: string
  cr_roots :: "string option"
  cr_require_client :: bool

definition mtls_credentials :: "(string \<Rightarrow> string res) \<Rightarrow> rpc_config \<Rightarrow> credentials option res" where
  "mtls_credentials read_file cfg =
    (let t = rp_mtls cfg in
     if \<not> mt_enabled t then Inr None
     else if \<not> (truthy_str (mt_server_cert_file t) \<and> truthy_str (mt_server_key_file t))
     then Inl (PyExc RuntimeErrorC ''mTLS enabled but server cert/key not configured'')
     else case read_file (the (mt_server_cert_file t)) of
            Inl e \<Rightarrow> Inl e
          | Inr cert \<Rightarrow>
              (case read_file (the (mt_server_key_file t)) of
                 Inl e \<Rightarrow> Inl e
               | Inr key \<Rightarrow>
                   (case (if truthy_str (mt_client_ca_file t)
                          then map_sum id Some (read_file (the (mt_client_ca_file t))) else Inr None) of
                      Inl e \<Rightarrow> Inl e
                    | Inr ca \<Rightarrow>
                        Inr (Some \<lparr>cr_key = key, cr_cert = cert, cr_roots = ca,
                                   cr_require_client = mt_require_client_cert t\<rparr>))))"

text \<open>
  The servicer. The executor, the service and the manager it keeps are arguments of \<open>rpc_invoke\<close>,
  the handler standing for the last two.
\<close>

record runtime_service =
  sv_config :: rpc_config

definition new_runtime_service :: "rpc_config option \<Rightarrow> runtime_service" where
  "new_runtime_service cfg = \<lparr>sv_config = (case cfg of None \<Rightarrow> default_rpc_config | Some c \<Rightarrow> c)\<rparr>"

definition service_invoke ::
  "handler_env \<Rightarrow> members \<Rightarrow> nat \<Rightarrow> console_registry \<Rightarrow> runtime_service \<Rightarrow> rpc_request
   \<Rightarrow> (string, auth_value) dict option \<Rightarrow> handler_ref \<Rightarrow> command_registry \<times> exec
   \<Rightarrow> (rpc_reply \<times> command_registry \<times> exec) option" where
  "service_invoke he mems dc g sv = rpc_invoke he mems dc g (sv_config sv)"

datatype rpc_port = InsecurePort string | SecurePort string credentials

text \<open>grpc's server: what it was given, whether it runs, and the grace it was stopped with.\<close>

record rpc_server =
  rv_options :: "(string \<times> int) list"
  rv_max_concurrent :: "int option"
  rv_servicers :: "runtime_service list"
  rv_port :: "rpc_port option"
  rv_started :: bool
  rv_stopped :: "real option"

definition aio_server :: "(string \<times> int) list \<Rightarrow> int option \<Rightarrow> rpc_server" where
  "aio_server options mx =
    \<lparr>rv_options = options, rv_max_concurrent = mx, rv_servicers = [], rv_port = None,
     rv_started = False, rv_stopped = None\<rparr>"

definition add_runtime_service :: "rpc_server \<Rightarrow> runtime_service \<times> rpc_server" where
  "add_runtime_service server =
    (let sv = new_runtime_service None in (sv, server\<lparr>rv_servicers := rv_servicers server @ [sv]\<rparr>))"

definition add_runtime_service_with_config :: "rpc_config \<Rightarrow> rpc_server \<Rightarrow> runtime_service \<times> rpc_server" where
  "add_runtime_service_with_config cfg server =
    (let sv = new_runtime_service (Some cfg) in (sv, server\<lparr>rv_servicers := rv_servicers server @ [sv]\<rparr>))"

definition start_rpc_server ::
  "(int \<Rightarrow> string) \<Rightarrow> (string \<Rightarrow> string res) \<Rightarrow> rpc_config \<Rightarrow> exec \<Rightarrow> rpc_server res" where
  "start_rpc_server show_int read_file cfg ex =
    (if rp_require_audit cfg \<and> ex_audit ex = None
     then Inl (PyExc RuntimeErrorC ''RPC requires audit_sink; executor.audit_sink is None'')
     else
       let server = aio_server (server_options cfg) (rp_max_concurrent_rpcs cfg);
           server = snd (add_runtime_service_with_config cfg server)
       in case mtls_credentials read_file cfg of
            Inl e \<Rightarrow> Inl e
          | Inr c \<Rightarrow>
              let target = rp_bind_host cfg @ '':'' @ show_int (rp_port cfg)
              in Inr (server\<lparr>rv_port := Some (case c of None \<Rightarrow> InsecurePort target | Some c \<Rightarrow> SecurePort target c),
                             rv_started := True\<rparr>))"

definition stop_rpc_server :: "rpc_server option \<Rightarrow> real \<Rightarrow> rpc_server option" where
  "stop_rpc_server server grace = map_option (\<lambda>s. s\<lparr>rv_started := False, rv_stopped := Some grace\<rparr>) server"

lemma rpc_is_terminal_event_same: "rpc_is_terminal_event = is_terminal_event"
  by (auto simp: fun_eq_iff rpc_is_terminal_event_def is_terminal_event_def terminal_types_def split: option.split)

lemma rpc_stream_arrivals:
  "rpc_stream py_str (map Arrives es) =
    (map (proto_event_of py_str) (fst (stream_yields True es)), snd (stream_yields True es))"
  by (induction es) (simp_all add: rpc_is_terminal_event_same split_beta)

text \<open>A call that ends lets through what arrived before, up to the first terminal event.\<close>

lemma rpc_stream_call_ends:
  "t = CallCancelled \<or> (\<exists>e. t = CallDone e) \<Longrightarrow>
    rpc_stream py_str (map Arrives es @ t # ts) = (map (proto_event_of py_str) (fst (stream_yields True es)), True)"
  by (induction es) (auto simp: rpc_is_terminal_event_same split_beta)

section \<open>Properties\<close>

lemma normalize_frame [simp]:
  "xc_source (normalize_console_command x) = xc_source x"
  "xc_origin_source (normalize_console_command x) = xc_origin_source x"
  "xc_principal (normalize_console_command x) = xc_principal x"
  "xc_audit_policy (normalize_console_command x) = xc_audit_policy x"
  "xc_argv (normalize_console_command x) = xc_argv x"
  "xc_lock_key (normalize_console_command x) = xc_lock_key x"
  by (auto simp: normalize_console_command_def split: option.split list.split)

lemma request_invocation:
  "inv_source (to_invocation (request_context p rq)) = ''rpc''"
  "inv_origin_source (to_invocation (request_context p rq)) = Some ''rpc''"
  "inv_principal (to_invocation (request_context p rq)) = p"
  "inv_audit_policy (to_invocation (request_context p rq)) = Some ''force''"
  "inv_argv (to_invocation (request_context p rq)) = rq_argv rq"
  unfolding to_invocation_def request_context_def
  by (simp_all add: new_execution_context_def or_str_def)

text \<open>C9: RPC runs only what it may. When \<open>Invoke\<close> replies with a run, the request named a
  command of a console, the caller is an administrator or allowed, the command is exposed to RPC
  unless the configuration asks for neither exposure nor denial, an audit sink is there if one is
  required, and the run's stored invocation carries the source \<open>rpc\<close>, forced auditing, the
  request's arguments and the caller's principal - which under mTLS is never what the client
  claims. When it aborts, the executor is as it was.\<close>

theorem rpc_runs_only_authorised:
  fixes rq auth cfg
  defines "p \<equiv> resolve_principal rq auth cfg"
  assumes run: "exec_loop_running ex" and jok: "js_ok (ex_js ex)"
    and inv: "rpc_invoke he mems dc g cfg rq auth h (r, ex) = Some (reply, r1, ex1)"
  shows "(\<forall>st msg. reply = Abort st msg \<longrightarrow> ex1 = ex) \<and>
    (\<forall>i. reply = Reply i \<longrightarrow>
      (\<exists>d iv. fst (resolve_command_def mems dc g (xc_console_name (request_context p rq))
          (xc_command_id (request_context p rq)) (xc_command_name (request_context p rq)) r) = Some d \<and>
        ((\<exists>q. p = Some q \<and> is_admin q cfg) \<or> principal_allowed p cfg) \<and>
        (rp_require_rpc_exposed cfg \<or> rp_default_deny cfg \<longrightarrow> dict_get_or (cd_exposure d) ''rpc'' False) \<and>
        (rp_require_audit cfg \<longrightarrow> ex_audit ex \<noteq> None) \<and>
        (mt_enabled (rp_mtls cfg) \<longrightarrow> p = principal_from_auth_context auth cfg) \<and>
        get_invocation (ex_js ex1) i = Some iv \<and> inv_source iv = ''rpc'' \<and>
        inv_origin_source iv = Some ''rpc'' \<and> inv_audit_policy iv = Some ''force'' \<and>
        inv_principal iv = p \<and> inv_argv iv = rq_argv rq))"
proof (intro conjI allI impI)
  show "ex1 = ex" if "reply = Abort st msg" for st msg
    using inv that by (auto simp: rpc_invoke_def Let_def split: if_splits prod.splits option.splits sum.splits)
next
  fix i
  assume reply: "reply = Reply i"
  let ?x = "request_context p rq"
  obtain d r2 iv where d: "resolve_command_def mems dc g (xc_console_name ?x) (xc_command_id ?x)
      (xc_command_name ?x) r = (Some d, r2)" "is_rpc_allowed (cd_exposure d) p cfg"
    "\<not> (rp_require_audit cfg \<and> ex_audit ex = None)"
    "submit_threadsafe he (to_invocation ?x) (Some h) ex = Some (Inr i, iv, ex1)"
    using inv reply unfolding p_def
    by (auto simp: rpc_invoke_def rpc_command_allowed_same Let_def split: if_splits prod.splits option.splits sum.splits)
  note v = submitted_views [OF run jok d(4)]
  have allowed: "(\<exists>q. p = Some q \<and> is_admin q cfg) \<or> principal_allowed p cfg"
    "rp_require_rpc_exposed cfg \<or> rp_default_deny cfg \<longrightarrow> dict_get_or (cd_exposure d) ''rpc'' False"
    using d(2) by (auto simp: is_rpc_allowed_def split: if_splits option.splits)
  have "mt_enabled (rp_mtls cfg) \<longrightarrow> p = principal_from_auth_context auth cfg"
    by (simp add: p_def resolve_principal_def)
  moreover have "get_invocation (ex_js ex1) i = Some iv" by (simp add: v(4))
  moreover have "inv_source iv = ''rpc''" "inv_origin_source iv = Some ''rpc''"
    "inv_audit_policy iv = Some ''force''" "inv_principal iv = p" "inv_argv iv = rq_argv rq"
    unfolding v(2) by (simp_all add: request_invocation del: to_invocation_simps)
  ultimately show "\<exists>d iv. fst (resolve_command_def mems dc g (xc_console_name ?x)
          (xc_command_id ?x) (xc_command_name ?x) r) = Some d \<and>
        ((\<exists>q. p = Some q \<and> is_admin q cfg) \<or> principal_allowed p cfg) \<and>
        (rp_require_rpc_exposed cfg \<or> rp_default_deny cfg \<longrightarrow> dict_get_or (cd_exposure d) ''rpc'' False) \<and>
        (rp_require_audit cfg \<longrightarrow> ex_audit ex \<noteq> None) \<and>
        (mt_enabled (rp_mtls cfg) \<longrightarrow> p = principal_from_auth_context auth cfg) \<and>
        get_invocation (ex_js ex1) i = Some iv \<and> inv_source iv = ''rpc'' \<and>
        inv_origin_source iv = Some ''rpc'' \<and> inv_audit_policy iv = Some ''force'' \<and>
        inv_principal iv = p \<and> inv_argv iv = rq_argv rq"
    using d(1,3) allowed by auto
qed

text \<open>A caller known by its certificate asks for \<open>show\<close>, claiming to be someone else.\<close>

definition demo_rpc_config :: rpc_config where
  "demo_rpc_config = default_rpc_config\<lparr>rp_require_audit := False, rp_allowed_principals := Some [''ann''],
    rp_trust_client_principal := True, rp_mtls := default_mtls_config\<lparr>mt_enabled := True\<rparr>\<rparr>"

definition demo_rpc_request :: rpc_request where
  "demo_rpc_request = \<lparr>rq_console_name = [], rq_command_id = ''cmd:root:show'', rq_command_name = [],
    rq_argv = [''now''], rq_kwargs = [], rq_raw_cmd = [], rq_timeout_ms = 0, rq_lock_key = [],
    rq_session_id = [], rq_meta_revision = [], rq_principal = ''root''\<rparr>"

definition demo_rpc_reply :: "(rpc_reply \<times> command_registry \<times> exec) option" where
  "demo_rpc_reply = rpc_invoke sample_env (\<lambda>_. []) 0 demo_root_only demo_rpc_config demo_rpc_request
     (Some [(''x509_common_name'', AuthList [''ann''])]) (Handler 1) (demo_binding_registry False, demo_running)"

lemma rpc_runs_only_authorised_witness:
  "\<exists>r1 ex1 iv. demo_rpc_reply = Some (Reply ''u'', r1, ex1) \<and>
     get_invocation (ex_js ex1) ''u'' = Some iv \<and> inv_principal iv = Some ''ann'' \<and> inv_argv iv = [''now'']"
proof -
  have "map_option fst demo_rpc_reply = Some (Reply ''u'')" by code_simp
  then obtain r1 ex1 where r: "demo_rpc_reply = Some (Reply ''u'', r1, ex1)" by auto
  have ok: "exec_loop_running demo_running" "js_ok (ex_js demo_running)"
    using demo_mgr_views(2) demo_mgr_ok by (simp_all add: demo_mgr_def new_session_manager_def)
  have p: "resolve_principal demo_rpc_request (Some [(''x509_common_name'', AuthList [''ann''])]) demo_rpc_config =
      Some ''ann''" by code_simp
  from rpc_runs_only_authorised [OF ok r [unfolded demo_rpc_reply_def]]
  show ?thesis using r unfolding p by (auto simp: demo_rpc_request_def)
qed

end
