(* ===== verification/Meta.thy ===== *)
theory Meta
  imports Rpc
begin

text \<open>
  The meta descriptor (\<open>meta/__init__.py\<close>): what the program tells its clients about its
  consoles and commands, and that the ids it lists are the ids the RPC frontend resolves. The
  hash of the descriptor's canonical JSON is the parameter \<open>digest\<close>.
\<close>

section \<open>The descriptor\<close>

record meta_command =
  mk_id :: string
  mk_name :: string
  mk_aliases :: "string list"
  mk_description :: string
  mk_exposure :: "(string, bool) dict"
  mk_argspec :: arg_spec

record meta_console =
  mo_name :: string
  mo_parent :: "string option"
  mo_type :: string
  mo_module :: string
  mo_commands :: "meta_command list"

record meta_body =
  me_version :: int
  me_consoles :: "meta_console list"
  me_tree :: "console_tree option"
  me_console_map :: "(string, console_row) dict"

record meta = meta_body +
  me_revision :: string

definition export_command :: "string \<Rightarrow> command_def \<Rightarrow> meta_command" where
  "export_command console_name d =
    \<lparr>mk_id = build_command_id console_name (cd_func_name d), mk_name = cd_func_name d,
     mk_aliases = cd_alias d, mk_description = cd_description d, mk_exposure = cd_exposure d,
     mk_argspec = (case cd_arg_spec d of Some a \<Rightarrow> a | None \<Rightarrow> from_signature (fn_params (cd_func d)) True)\<rparr>"

definition export_commands :: "string \<Rightarrow> command_def list \<Rightarrow> meta_command list" where
  "export_commands console_name defs = sort_key mk_id (map (export_command console_name) defs)"

definition exported_defs ::
  "members \<Rightarrow> nat \<Rightarrow> bool \<Rightarrow> console_class \<Rightarrow> command_registry \<Rightarrow> command_def list \<times> command_registry" where
  "exported_defs mems default_cls include_default k r =
    (let (defs, r1) = get_command_defs_for_console mems (kc_id k) r
     in if defs = [] \<and> include_default then collect_from_commands_cls mems default_cls r1 else (defs, r1))"

fun export_consoles ::
  "members \<Rightarrow> nat \<Rightarrow> bool \<Rightarrow> (string \<times> console_class \<times> string option) list \<Rightarrow> command_registry
   \<Rightarrow> meta_console list \<times> command_registry" where
  "export_consoles mems dc incl [] r = ([], r)"
| "export_consoles mems dc incl ((name, k, parent) # es) r =
    (let (defs, r1) = exported_defs mems dc incl k r;
         (cs, r2) = export_consoles mems dc incl es r1
     in (\<lparr>mo_name = name, mo_parent = parent, mo_type = kc_name k, mo_module = kc_module k,
          mo_commands = export_commands name defs\<rparr> # cs, r2))"

definition export_meta ::
  "(meta_body \<Rightarrow> string) \<Rightarrow> members \<Rightarrow> nat \<Rightarrow> bool \<Rightarrow> console_registry \<Rightarrow> command_registry
   \<Rightarrow> meta \<times> command_registry" where
  "export_meta digest mems dc incl g r =
    (let (cs, r1) = export_consoles mems dc incl (iter_consoles g) r;
         body = \<lparr>me_version = 1, me_consoles = sort_key mo_name cs, me_tree = get_console_tree g,
                 me_console_map = get_console_map g\<rparr>
     in (meta_body.extend body \<lparr>me_revision = digest body\<rparr>, r1))"

section \<open>Definitions do not depend on what was collected before\<close>

definition cls_defs :: "members \<Rightarrow> command_registry \<Rightarrow> nat \<Rightarrow> command_def list" where
  "cls_defs mems r c =
    (case map_of (cr_commands_defs r) c of Some ds \<Rightarrow> ds | None \<Rightarrow> List.map_filter member_def (mems c))"

definition same_defs :: "members \<Rightarrow> command_registry \<Rightarrow> command_registry \<Rightarrow> bool" where
  "same_defs mems r r' \<longleftrightarrow> cls_defs mems r' = cls_defs mems r \<and>
    cr_console_classes r' = cr_console_classes r \<and> cr_console_defs r' = cr_console_defs r"

lemma same_defs_refl [simp]: "same_defs mems r r"
  by (simp add: same_defs_def)

lemma same_defs_trans: "same_defs mems r r1 \<Longrightarrow> same_defs mems r1 r2 \<Longrightarrow> same_defs mems r r2"
  by (simp add: same_defs_def)

lemma collect_view: "fst (collect_from_commands_cls mems c r) = cls_defs mems r c"
  by (simp add: collect_from_commands_cls_def cls_defs_def Let_def split: option.split)

lemma collect_same: "same_defs mems r (snd (collect_from_commands_cls mems c r))"
  by (auto simp: collect_from_commands_cls_def cls_defs_def same_defs_def Let_def fun_eq_iff dict_simps
      split: option.split)

definition console_view :: "members \<Rightarrow> command_registry \<Rightarrow> nat \<Rightarrow> command_def list" where
  "console_view mems r k =
    (case get_commands_cls r k of None \<Rightarrow> [] | Some c \<Rightarrow> cls_defs mems r c) @
    dict_get_or (cr_console_defs r) k []"

lemma console_defs_same: "same_defs mems r (snd (get_command_defs_for_console mems k r))"
  using collect_same [of mems r] by (simp add: get_command_defs_for_console_def split_beta split: option.split)

lemma console_defs_view: "fst (get_command_defs_for_console mems k r) = console_view mems r k"
  using collect_same [of mems r]
  by (simp add: get_command_defs_for_console_def console_view_def collect_view same_defs_def split_beta
      split: option.split)

definition defs_view :: "members \<Rightarrow> nat \<Rightarrow> command_registry \<Rightarrow> console_class \<Rightarrow> command_def list" where
  "defs_view mems dc r k =
    (if console_view mems r (kc_id k) = [] then cls_defs mems r dc else console_view mems r (kc_id k))"

lemma defs_view_same: "same_defs mems r r' \<Longrightarrow> defs_view mems dc r' k = defs_view mems dc r k"
  by (simp add: defs_view_def console_view_def same_defs_def get_commands_cls_def split: option.split)

lemma resolve_defs_same: "same_defs mems r (snd (resolve_defs mems dc k r))"
proof -
  obtain defs r0 where g: "get_command_defs_for_console mems (kc_id k) r = (defs, r0)"
    by (cases "get_command_defs_for_console mems (kc_id k) r")
  then show ?thesis
    using console_defs_same [of mems r "kc_id k"] same_defs_trans [OF _ collect_same]
    by (auto simp: resolve_defs_def)
qed

lemma resolve_defs_view: "fst (resolve_defs mems dc k r) = defs_view mems dc r k"
proof -
  obtain defs r0 where g: "get_command_defs_for_console mems (kc_id k) r = (defs, r0)"
    by (cases "get_command_defs_for_console mems (kc_id k) r")
  then have "defs = console_view mems r (kc_id k)" "cls_defs mems r0 dc = cls_defs mems r dc"
    using console_defs_view [of mems "kc_id k" r] console_defs_same [of mems r "kc_id k"]
    by (simp_all add: same_defs_def)
  then show ?thesis by (simp add: resolve_defs_def g defs_view_def collect_view)
qed

lemma exported_resolve: "exported_defs mems dc True k r = resolve_defs mems dc k r"
  by (simp add: exported_defs_def resolve_defs_def split_beta)

lemma export_consoles_view:
  "export_consoles mems dc True es r = (cs, r1) \<Longrightarrow>
    same_defs mems r r1 \<and>
    cs = map (\<lambda>(name, k, parent).
      \<lparr>mo_name = name, mo_parent = parent, mo_type = kc_name k, mo_module = kc_module k,
       mo_commands = export_commands name (defs_view mems dc r k)\<rparr>) es"
proof (induction es arbitrary: r cs r1)
  case (Cons e es)
  obtain name k parent where e: "e = (name, k, parent)" by (cases e)
  obtain defs r0 where d: "resolve_defs mems dc k r = (defs, r0)" by (cases "resolve_defs mems dc k r")
  obtain cs' r2 where c: "export_consoles mems dc True es r0 = (cs', r2)"
    by (cases "export_consoles mems dc True es r0")
  have v: "defs = defs_view mems dc r k" "same_defs mems r r0"
    using resolve_defs_view [of mems dc k r] resolve_defs_same [of mems r dc k] d by simp_all
  have "r1 = r2" using Cons.prems by (simp add: e exported_resolve d c)
  then show ?case
    using Cons.IH [OF c] Cons.prems same_defs_trans [OF v(2), of r2] v(1) defs_view_same [OF v(2), of dc]
    by (simp add: e exported_resolve d c)
qed simp

section \<open>Properties\<close>

lemma resolve_console_of:
  assumes "distinct (console_names g)" and "(n, k, p) \<in> set (iter_consoles g)"
  shows "resolve_console_cls g (Some n) = Some k"
proof -
  have "distinct (map fst (iter_consoles g))" using assms(1) by (simp add: console_names_def)
  then have u: "x = (n, k, p)" if "x \<in> set (iter_consoles g)" "fst x = n" for x
    using that assms(2) by (metis eq_key_imp_eq_value prod.collapse fst_conv)
  obtain x where x: "find (\<lambda>(m, _, _). m = n) (iter_consoles g) = Some x"
    using assms(2) by (cases "find (\<lambda>(m, _, _). m = n) (iter_consoles g)") (auto simp: find_None_iff)
  then have "x \<in> set (iter_consoles g)" "fst x = n"
    using find_mem [OF x] by auto
  then have "x = (n, k, p)" by (rule u)
  with x show ?thesis by (simp add: resolve_console_cls_def)
qed

lemma picked_by_id:
  assumes "d \<in> set defs" and "build_command_id n (cd_func_name d) = i"
  obtains d' where "pick_def n (Some i) nm defs = Some d'" "d' \<in> set defs"
    "build_command_id n (cd_func_name d') = i"
proof -
  have i: "truthy_str (Some i)" using assms(2) by (auto simp: truthy_str_def build_command_id_def)
  obtain d' where "find (\<lambda>d. Some (def_command_id n d) = Some i) defs = Some d'"
    using assms by (cases "find (\<lambda>d. Some (def_command_id n d) = Some i) defs")
      (auto simp: find_None_iff def_command_id_def)
  then show ?thesis
    using that [of d'] i find_mem [of "\<lambda>d. Some (def_command_id n d) = Some i" defs d']
    by (simp add: pick_def_def def_command_id_def)
qed

text \<open>C22: what the descriptor lists can be called. A client that sends the id of a listed command and
  nothing else resolves, in the registries as they are after the export, to a definition whose
  exported entry is the listed one: same name, exposure, aliases and argument counts. The
  console's name holds no colon, console names and the ids listed for the console are unique.\<close>

theorem listed_commands_resolve:
  assumes exp: "export_meta digest mems dc True g r = (m, r1)"
    and names: "distinct (console_names g)"
    and c: "c \<in> set (me_consoles m)" "mo_name c \<noteq> []" "CHR '':'' \<notin> set (mo_name c)"
    and e: "e \<in> set (mo_commands c)" "distinct (map mk_id (mo_commands c))"
  defines "x \<equiv> normalize_console_command ((new_execution_context ''rpc'')\<lparr>xc_command_id := Some (mk_id e)\<rparr>)"
  shows "\<exists>d r2. resolve_command_def mems dc g (xc_console_name x) (xc_command_id x) (xc_command_name x) r1 =
      (Some d, r2) \<and> export_command (mo_name c) d = e"
proof -
  obtain cs where cs: "export_consoles mems dc True (iter_consoles g) r = (cs, r1)" "set (me_consoles m) = set cs"
    using exp by (auto simp: export_meta_def Let_def meta_body.defs split: prod.splits)
  note v = export_consoles_view [OF cs(1)]
  obtain k p where k: "(mo_name c, k, p) \<in> set (iter_consoles g)"
    "mo_commands c = export_commands (mo_name c) (defs_view mems dc r k)"
    using c(1) v unfolding cs(2) by auto
  obtain d where d: "d \<in> set (defs_view mems dc r k)" "e = export_command (mo_name c) d"
    using e(1) k(2) by (auto simp: export_commands_def)
  then have i: "mk_id e = build_command_id (mo_name c) (cd_func_name d)" by (simp add: export_command_def)
  have "split_max 2 CHR '':'' (mk_id e) = [''cmd'', mo_name c, cd_func_name d]"
    using split_max_sep [of "CHR '':''" "''cmd''" 1 "mo_name c @ CHR '':'' # cd_func_name d"]
      split_max_sep [OF c(3), of 0 "cd_func_name d"]
    by (simp add: i build_command_id_def numeral_2_eq_2)
  then have x: "xc_console_name x = Some (mo_name c)" "xc_command_id x = Some (mk_id e)"
    using c(2) build_command_id_simps [of "mo_name c" "cd_func_name d"]
    by (simp_all add: x_def normalize_console_command_def new_execution_context_def i none_if_empty_def)
  obtain d' where d': "pick_def (mo_name c) (Some (mk_id e)) (xc_command_name x) (defs_view mems dc r k) = Some d'"
    "d' \<in> set (defs_view mems dc r k)" "build_command_id (mo_name c) (cd_func_name d') = mk_id e"
    by (rule picked_by_id [OF d(1) i [symmetric]])
  have "export_command (mo_name c) d' \<in> set (mo_commands c)" "mk_id (export_command (mo_name c) d') = mk_id e"
    using d'(2) by (simp add: k(2) export_commands_def) (simp add: export_command_def d'(3))
  then have same: "export_command (mo_name c) d' = e"
    using e by (metis distinct_map inj_on_def)
  have "fst (resolve_defs mems dc k r1) = defs_view mems dc r k"
    using resolve_defs_view [of mems dc k r1] defs_view_same [of mems r r1 dc k] v by simp
  then have "fst (resolve_command_def mems dc g (xc_console_name x) (xc_command_id x) (xc_command_name x) r1) = Some d'"
    using resolve_console_of [OF names k(1)] d'(1)
    by (simp add: resolve_command_def_def x split_beta)
  then show ?thesis using same by (metis prod.collapse)
qed

lemma listed_commands_resolve_witness:
  "\<exists>d r2. resolve_command_def (\<lambda>_. []) 0 demo_root_only (Some ''root'') (Some ''cmd:root:stop'') (Some ''stop'')
      (snd (export_meta (\<lambda>_. ''r'') (\<lambda>_. []) 0 True demo_root_only (demo_binding_registry False))) = (Some d, r2) \<and>
    mk_exposure (export_command ''root'' d) = [(''rpc'', False)]"
proof -
  let ?x = "export_meta (\<lambda>_. ''r'') (\<lambda>_. []) 0 True demo_root_only (demo_binding_registry False)"
  let ?c = "hd (me_consoles (fst ?x))" let ?e = "last (mo_commands ?c)"
  have "distinct (console_names demo_root_only)" "me_consoles (fst ?x) \<noteq> []" "mo_commands ?c \<noteq> []"
    "mo_name ?c = ''root''" "distinct (map mk_id (mo_commands ?c))" "mk_id ?e = ''cmd:root:stop''"
    "mk_exposure ?e = [(''rpc'', False)]"
    "normalize_console_command ((new_execution_context ''rpc'')\<lparr>xc_command_id := Some ''cmd:root:stop''\<rparr>) =
      (new_execution_context ''rpc'')\<lparr>xc_command_id := Some ''cmd:root:stop'',
         xc_console_name := Some ''root'', xc_command_name := Some ''stop''\<rparr>" by code_simp+
  then show ?thesis
    using listed_commands_resolve [of "\<lambda>_. ''r''" "\<lambda>_. []" 0 demo_root_only "demo_binding_registry False"
        "fst ?x" "snd ?x" ?c ?e]
    by (simp add: new_execution_context_def) (metis hd_in_set last_in_set)
qed

end
