(* ===== verification/Web.thy ===== *)
theory Web
  imports Meta
begin

text \<open>
  The web frontend (\<open>frontends/web/core.py\<close>): the routes of the application, the descriptor
  with its entity tag, and the snapshot socket with its bound on open connections. HTTP and
  sockets are FastAPI's.
\<close>

section \<open>The application\<close>

record cors_policy =
  co_origins :: "string list"
  co_credentials :: bool
  co_methods :: "string list"
  co_headers :: "string list"

record web_app =
  wa_root_path :: string
  wa_cors :: "cors_policy option"
  wa_meta_route :: bool
  wa_snapshot_route :: bool
  wa_connections :: int

definition create_app :: "web_config option \<Rightarrow> web_app" where
  "create_app config =
    (let cfg = (case config of None \<Rightarrow> default_web_config | Some c \<Rightarrow> c) in
     \<lparr>wa_root_path = wb_root_path cfg,
      wa_cors = (if wb_cors_allow_origins cfg = [] then None
                 else Some \<lparr>co_origins = wb_cors_allow_origins cfg, co_credentials = wb_cors_allow_credentials cfg,
                            co_methods = wb_cors_allow_methods cfg, co_headers = wb_cors_allow_headers cfg\<rparr>),
      wa_meta_route = wb_meta_enabled cfg, wa_snapshot_route = wb_ws_snapshot_enabled cfg,
      wa_connections = 0\<rparr>)"

text \<open>
  The server (\<open>frontends/web/server.py\<close>): what uvicorn is configured with; that the event
  loop is asyncio's and the log level \<open>info\<close> is the same for every server.
\<close>

record uvicorn_server =
  uv_app :: web_app
  uv_host :: string
  uv_port :: int
  uv_root_path :: string

definition build_web_app :: "web_config option \<Rightarrow> web_app" where
  "build_web_app config = create_app (Some (case config of None \<Rightarrow> default_web_config | Some c \<Rightarrow> c))"

definition build_web_server :: "web_config option \<Rightarrow> uvicorn_server" where
  "build_web_server config =
    (let cfg = (case config of None \<Rightarrow> default_web_config | Some c \<Rightarrow> c) in
     \<lparr>uv_app = build_web_app (Some cfg), uv_host = wb_bind_host cfg, uv_port = wb_port cfg,
      uv_root_path = wb_root_path cfg\<rparr>)"

section \<open>The descriptor\<close>

text \<open>A reply with its \<open>ETag\<close> and the \<open>max-age\<close> of its \<open>Cache-Control\<close>, or status 304.\<close>

datatype meta_reply = NotModified | MetaReply meta "string option" "int option"

definition get_meta :: "web_config \<Rightarrow> string option \<Rightarrow> meta \<Rightarrow> meta_reply" where
  "get_meta cfg if_none_match m =
    (if me_revision m \<noteq> [] \<and> if_none_match = Some (me_revision m) then NotModified
     else MetaReply m (none_if_empty (me_revision m))
            (if 0 \<le> wb_meta_cache_control_max_age cfg then Some (wb_meta_cache_control_max_age cfg) else None))"

section \<open>The snapshot socket\<close>

definition snapshot_payload :: "web_config \<Rightarrow> job_store option \<Rightarrow> meta \<Rightarrow> meta \<times> job_row list option" where
  "snapshot_payload cfg js m =
    (m, if wb_ws_snapshot_include_jobs cfg
        then map_option (list_jobs (no_job_filters\<lparr>jf_status := Many [PENDING, RUNNING]\<rparr>)) js else None)"

text \<open>Whether a connection is taken, and the end of one, however it ends.\<close>

definition ws_connect :: "web_config \<Rightarrow> web_app \<Rightarrow> bool \<times> web_app" where
  "ws_connect cfg a =
    (if wb_ws_max_connections cfg \<le> wa_connections a then (False, a)
     else (True, a\<lparr>wa_connections := wa_connections a + 1\<rparr>))"

definition ws_disconnect :: "web_app \<Rightarrow> web_app" where
  "ws_disconnect a = a\<lparr>wa_connections := wa_connections a - 1\<rparr>"

text \<open>After the payload the socket sends pings, or is closed at once.\<close>

definition ws_stays_open :: "web_config \<Rightarrow> bool" where
  "ws_stays_open cfg \<longleftrightarrow> 0 < wb_ws_heartbeat_interval cfg"

section \<open>Properties\<close>

text \<open>The server's sockets: clients come, and those that were taken leave.\<close>

inductive ws_step :: "web_config \<Rightarrow> web_app \<times> nat list \<Rightarrow> web_app \<times> nat list \<Rightarrow> bool" for cfg where
  comes: "i \<notin> set conns \<Longrightarrow> ws_connect cfg a = (taken, a') \<Longrightarrow>
    ws_step cfg (a, conns) (a', if taken then i # conns else conns)"
| leaves: "i \<in> set conns \<Longrightarrow> ws_step cfg (a, conns) (ws_disconnect a, remove1 i conns)"

inductive_cases ws_stepE: "ws_step cfg s s'"

definition ws_inv :: "web_config \<Rightarrow> web_app \<times> nat list \<Rightarrow> bool" where
  "ws_inv cfg s \<longleftrightarrow> wa_connections (fst s) = int (length (snd s)) \<and>
    int (length (snd s)) \<le> max 0 (wb_ws_max_connections cfg)"

lemma ws_inv_step: "ws_step cfg s s' \<Longrightarrow> ws_inv cfg s \<Longrightarrow> ws_inv cfg s'"
proof (erule ws_stepE)
  fix i conns a a' taken
  assume "ws_inv cfg s" "s = (a, conns)" "s' = (a', if taken then i # conns else conns)" "ws_connect cfg a = (taken, a')"
  then show "ws_inv cfg s'" by (auto simp: ws_inv_def ws_connect_def split: if_splits)
next
  fix i conns a
  assume "ws_inv cfg s" "s = (a, conns)" "s' = (ws_disconnect a, remove1 i conns)" "i \<in> set conns"
  moreover have "Suc (length (remove1 i conns)) = length conns"
    using \<open>i \<in> set conns\<close> by (induction conns) auto
  ultimately show "ws_inv cfg s'" by (auto simp: ws_inv_def ws_disconnect_def)
qed

interpretation web_sys: invariant_system "\<lambda>s. s = (create_app (Some cfg), [])" "ws_step cfg" "ws_inv cfg" for cfg
  by unfold_locales (simp add: ws_inv_def create_app_def, rule ws_inv_step)

text \<open>C29: the snapshot socket counts its connections. However clients come and leave, the counter is
  the number of open connections, and never above the configured maximum.\<close>

theorem ws_connections_bounded:
  assumes "(ws_step cfg)\<^sup>*\<^sup>* (create_app (Some cfg), []) (a, conns)"
  shows "wa_connections a = int (length conns) \<and> int (length conns) \<le> max 0 (wb_ws_max_connections cfg)"
  using web_sys.inv_reachable [OF refl assms] by (simp add: ws_inv_def)

lemma ws_connections_bounded_witness:
  "wa_connections (snd (ws_connect (default_web_config\<lparr>wb_ws_max_connections := 1\<rparr>)
     (snd (ws_connect (default_web_config\<lparr>wb_ws_max_connections := 1\<rparr>) (create_app None))))) = 1"
proof -
  let ?cfg = "default_web_config\<lparr>wb_ws_max_connections := 1\<rparr>" and ?a = "create_app (Some default_web_config)"
  let ?b = "?a\<lparr>wa_connections := 1\<rparr>"
  have e: "create_app (Some ?cfg) = ?a" "create_app None = ?a"
    by (simp_all add: create_app_def default_web_config_def)
  have s: "ws_connect ?cfg ?a = (True, ?b)" "ws_connect ?cfg ?b = (False, ?b)"
    by (simp_all add: ws_connect_def create_app_def)
  have "ws_step ?cfg (?a, []) (?b, [1])" using ws_step.comes [OF _ s(1), of 1 "[]"] by simp
  moreover have "ws_step ?cfg (?b, [1]) (?b, [1])" using ws_step.comes [OF _ s(2), of 2 "[1]"] by simp
  ultimately have "(ws_step ?cfg)\<^sup>*\<^sup>* (create_app (Some ?cfg), []) (?b, [1])" unfolding e by simp
  from ws_connections_bounded [OF this] show ?thesis by (simp add: e s)
qed

text \<open>A client that sends the tag it was given gets the descriptor again only if it changed.\<close>

lemma etag_cycle:
  assumes "get_meta cfg None m = MetaReply m (Some tag) age"
  shows "get_meta cfg (Some tag) m' = NotModified \<longleftrightarrow> me_revision m' = me_revision m"
proof -
  have "me_revision m = tag" "tag \<noteq> []"
    using assms by (auto simp: get_meta_def none_if_empty_def split: if_splits)
  then show ?thesis by (auto simp: get_meta_def)
qed

end
