(* ===== verification/Terminal.thy ===== *)
theory Terminal
  imports RunContext JobStore
begin

text \<open>
  The sink that shows the runs' events on the terminal (\<open>runtime/sinks.py\<close>): a task of the
  executor's loop that takes every event from a queue of \<open>subscribe_all\<close> and hands it to the
  output router. Its code runs in segments between the waits on the queue.
\<close>

section \<open>The sink\<close>

text \<open>The task of \<open>_run\<close>: created, waiting on its queue, or ended.\<close>

datatype sink_task = TaskCreated | TaskWatching nat | TaskEnded

record tty_sink =
  ts_task :: "sink_task option"
  ts_stopping :: "sink_task list"   \<comment> \<open>tasks that \<open>stop\<close> cancelled\<close>

definition new_tty_sink :: tty_sink where
  "new_tty_sink = \<lparr>ts_task = None, ts_stopping = []\<rparr>"

definition sink_start :: "tty_sink \<Rightarrow> tty_sink" where
  "sink_start s = (case ts_task s of Some _ \<Rightarrow> s | None \<Rightarrow> s\<lparr>ts_task := Some TaskCreated\<rparr>)"

definition sink_stop :: "tty_sink \<Rightarrow> tty_sink" where
  "sink_stop s =
    (case ts_task s of None \<Rightarrow> s
     | Some t \<Rightarrow> s\<lparr>ts_task := None, ts_stopping := ts_stopping s @ [t]\<rparr>)"

text \<open>
  The first segment of \<open>_run\<close>; \<open>cur\<close> is the loop the task runs in. An exception of
  \<open>subscribe_all\<close> ends the task.
\<close>

definition task_begin :: "nat option \<Rightarrow> job_store \<Rightarrow> sink_task \<times> job_store" where
  "task_begin cur js =
    (case subscribe_all cur js of
       (Inl e, js1) \<Rightarrow> (TaskEnded, js1)
     | (Inr q, js1) \<Rightarrow> (TaskWatching q, js1))"

text \<open>
  A turn of its loop, when the queue holds an event: \<open>ro\<close> is the router as it is then, and
  \<open>draw\<close> what printing by prompt_toolkit gives. An exception ends the task, which unsubscribes.
\<close>

definition task_turn ::
  "(rendering \<Rightarrow> unit res) \<Rightarrow> (nat \<Rightarrow> bool) \<Rightarrow> (pyval \<Rightarrow> string) \<Rightarrow> real \<Rightarrow> output_router option
   \<Rightarrow> nat \<Rightarrow> job_store \<Rightarrow> rendering option \<times> sink_task \<times> job_store" where
  "task_turn draw app_ready py_str now ro q js =
    (case get_nowait (b_queues (js_bus js) q) of
       None \<Rightarrow> (None, TaskWatching q, js)
     | Some (e, queue) \<Rightarrow>
         let js1 = js\<lparr>js_bus := (js_bus js)\<lparr>b_queues := (b_queues (js_bus js))(q := queue)\<rparr>\<rparr> in
         (case Option.bind ro (\<lambda>r. router_emit app_ready py_str now r (RuntimeEv e)) of
            None \<Rightarrow> (None, TaskWatching q, js1)
          | Some x \<Rightarrow>
              (case draw x of
                 Inr _ \<Rightarrow> (Some x, TaskWatching q, js1)
               | Inl _ \<Rightarrow> (None, TaskEnded, unsubscribe_all q js1))))"

text \<open>The task's turn after it was cancelled.\<close>

definition task_cancelled :: "sink_task \<Rightarrow> job_store \<Rightarrow> sink_task \<times> job_store" where
  "task_cancelled t js =
    (case t of TaskWatching q \<Rightarrow> (TaskEnded, unsubscribe_all q js) | _ \<Rightarrow> (TaskEnded, js))"

section \<open>What the terminal shows\<close>

text \<open>
  A run of the loop: events are published, the sink has a turn, and between them the console
  manager binds the router to other sessions. The trace of what was drawn is kept.
\<close>

datatype sink_action = Publishes real "string option" runtime_event | Forwards real output_router

record screen =
  sc_task :: sink_task
  sc_store :: job_store
  sc_drawn :: "rendering list"

fun screen_action ::
  "(rendering \<Rightarrow> unit res) \<Rightarrow> (nat \<Rightarrow> bool) \<Rightarrow> (pyval \<Rightarrow> string) \<Rightarrow> sink_action \<Rightarrow> screen \<Rightarrow> screen" where
  "screen_action draw app_ready py_str (Publishes now r e) s =
    s\<lparr>sc_store := js_publish_event now r e (sc_store s)\<rparr>"
| "screen_action draw app_ready py_str (Forwards now ro) s =
    (case sc_task s of
       TaskWatching q \<Rightarrow>
         (case task_turn draw app_ready py_str now (Some ro) q (sc_store s) of
            (x, t, js) \<Rightarrow>
              s\<lparr>sc_task := t, sc_store := js,
                sc_drawn := sc_drawn s @ (case x of None \<Rightarrow> [] | Some y \<Rightarrow> [y])\<rparr>)
     | _ \<Rightarrow> s)"

definition displayed :: "runtime_event \<Rightarrow> bool" where
  "displayed e \<longleftrightarrow> ev_kind e \<in> {Some STDOUT, Some STATE, Some LOG}"

text \<open>The text of a rendering, wherever it is drawn, and the text of an event.\<close>

fun drawn_text :: "rendering \<Rightarrow> formatted res" where
  "drawn_text (InTerminal app out f) = f"
| "drawn_text (Direct out f) = f"

definition event_text :: "(pyval \<Rightarrow> string) \<Rightarrow> runtime_event \<Rightarrow> formatted res" where
  "event_text py_str e = format_event py_str (to_ui_event 0 e)"

definition event_texts :: "(pyval \<Rightarrow> string) \<Rightarrow> runtime_event list \<Rightarrow> formatted res list" where
  "event_texts py_str es = map (event_text py_str) (filter displayed es)"

fun published_events :: "sink_action list \<Rightarrow> runtime_event list" where
  "published_events [] = []"
| "published_events (Publishes now r e # as) = e # published_events as"
| "published_events (Forwards now ro # as) = published_events as"

lemma event_texts_simps [simp]:
  "event_texts p [] = []"
  "event_texts p (a @ b) = event_texts p a @ event_texts p b"
  "event_texts p (e # es) = (if displayed e then [event_text p e] else []) @ event_texts p es"
  by (simp_all add: event_texts_def)

lemma format_event_clock: "format_event p (to_ui_event now e) = event_text p e"
  by (simp add: event_text_def format_event_def to_ui_event_def mk_ui_event_def Let_def split: option.split)

lemma router_emit_event:
  "map_option drawn_text (router_emit app_ready p now ro (RuntimeEv e)) =
    (if displayed e then Some (event_text p e) else None)"
  by (auto simp: router_emit_def displayed_def format_event_clock split: option.split)

text \<open>
  The sink keeps up: what was drawn and what still waits in its queue are together the events
  published since it subscribed.
\<close>

definition sink_inv :: "(pyval \<Rightarrow> string) \<Rightarrow> nat \<Rightarrow> runtime_event list \<Rightarrow> screen \<Rightarrow> bool" where
  "sink_inv p q es s \<longleftrightarrow> js_ok (sc_store s) \<and> q \<in> set (js_gsubs (sc_store s)) \<and>
    sc_task s = TaskWatching q \<and>
    map drawn_text (sc_drawn s) @ event_texts p (js_inbox (sc_store s) q) = event_texts p es"

lemma js_ok_take:
  assumes ok: "js_ok js" and q: "q \<in> set (js_gsubs js)" and "queue_ok queue" "q_max queue = q_max (b_queues (js_bus js) q)"
  shows "js_ok (js\<lparr>js_bus := (js_bus js)\<lparr>b_queues := (b_queues (js_bus js))(q := queue)\<rparr>\<rparr>)"
proof -
  have "bus_ok ((js_bus js)\<lparr>b_queues := (b_queues (js_bus js))(q := queue)\<rparr>)"
    using js_okD(6) [OF ok] assms(3) by (intro bus_ok_queues) (auto simp: bus_ok_def)
  moreover have "gsubs_ok (js_gsubs js) ((js_bus js)\<lparr>b_queues := (b_queues (js_bus js))(q := queue)\<rparr>)"
    using js_okD(7) [OF ok] assms(4) by (auto simp: gsubs_ok_def subscribers_def)
  ultimately show ?thesis using ok by (simp add: js_ok_def)
qed

lemma sink_inv_publish:
  assumes "sink_inv p q es s"
  shows "sink_inv p q (es @ [e]) (screen_action draw app_ready p (Publishes now r e) s)"
proof -
  have "js_inbox (js_publish_event now r e (sc_store s)) q = js_inbox (sc_store s) q @ [e]"
    using global_stream.inbox_pub [of "sc_store s" q "(now, r, e)"] assms
    by (simp add: sink_inv_def js_live_def js_pub_def)
  then show ?thesis using assms by (simp add: sink_inv_def flip: append_assoc)
qed

lemma sink_inv_forward:
  assumes inv: "sink_inv p q es s" and draw: "\<forall>x. draw x = Inr ()"
  shows "sink_inv p q es (screen_action draw app_ready p (Forwards now ro) s)"
proof (cases "q_items (b_queues (js_bus (sc_store s)) q)")
  case Nil
  then show ?thesis using inv by (simp add: sink_inv_def task_turn_def get_nowait_def)
next
  case (Cons e rest)
  let ?queue = "b_queues (js_bus (sc_store s)) q"
  have ok: "js_ok (sc_store s)" "q \<in> set (js_gsubs (sc_store s))" "sc_task s = TaskWatching q"
    and d: "map drawn_text (sc_drawn s) @ event_texts p (e # rest) = event_texts p es"
    using inv Cons by (simp_all add: sink_inv_def js_inbox_def bus_inbox_def)
  have "q_max ?queue \<le> 0" using js_okD(7) [OF ok(1)] ok(2) by (auto simp: gsubs_ok_def)
  then have ok1: "js_ok (sc_store s\<lparr>js_bus := (js_bus (sc_store s))
      \<lparr>b_queues := (b_queues (js_bus (sc_store s)))(q := ?queue\<lparr>q_items := rest\<rparr>)\<rparr>\<rparr>)"
    using ok by (intro js_ok_take) (simp_all add: queue_ok_def)
  show ?thesis
    using router_emit_event [of app_ready p now ro e] ok1 ok(2,3) d draw Cons
    by (cases "router_emit app_ready p now ro (RuntimeEv e)")
      (auto simp: sink_inv_def task_turn_def get_nowait_def Let_def js_inbox_def bus_inbox_def split: if_splits)
qed

lemma sink_inv_run:
  assumes "\<forall>x. draw x = Inr ()"
  shows "sink_inv p q es s \<Longrightarrow>
    sink_inv p q (es @ published_events as) (fold (screen_action draw app_ready p) as s)"
proof (induction as arbitrary: es s)
  case (Cons a as)
  show ?case
  proof (cases a)
    case (Publishes now r e)
    then show ?thesis
      using Cons.IH [OF sink_inv_publish [OF Cons.prems, of e draw app_ready now r]] by simp
  next
    case (Forwards now ro)
    then show ?thesis using Cons.IH [OF sink_inv_forward [OF Cons.prems assms]] by simp
  qed
qed simp

section \<open>Properties\<close>

text \<open>C23: the terminal shows every event once and in order. From the moment the sink's task has
  subscribed, and as long as drawing does not raise, at each moment the texts drawn, wherever the
  router was bound, followed by the texts of the events that still wait in the sink's queue,
  are the texts of the output, log and state events published since, of every run, in order.\<close>

theorem terminal_shows_every_event:
  assumes ok: "js_ok js" and sub: "task_begin cur js = (TaskWatching q, js1)"
    and draw: "\<forall>x. draw x = Inr ()"
    and run: "fold (screen_action draw app_ready py_str) as
      \<lparr>sc_task = TaskWatching q, sc_store = js1, sc_drawn = []\<rparr> = s"
  shows "map drawn_text (sc_drawn s) @ event_texts py_str (js_inbox (sc_store s) q) =
      event_texts py_str (published_events as) \<and> sc_task s = TaskWatching q"
proof -
  have s: "subscribe_all cur js = (Inr q, js1)"
    using sub by (auto simp: task_begin_def split: prod.splits sum.splits)
  have "js_ok js1" using js_ok_subscribe_all [OF ok, of cur] s by simp
  moreover have "q \<in> set (js_gsubs js1)" "js_inbox js1 q = []"
    using s by (auto simp: subscribe_all_def Let_def js_inbox_def bus_inbox_def new_queue_def split: sum.splits)
  ultimately have "sink_inv py_str q [] \<lparr>sc_task = TaskWatching q, sc_store = js1, sc_drawn = []\<rparr>"
    by (simp add: sink_inv_def)
  from sink_inv_run [OF draw this, of as app_ready] run show ?thesis by (simp add: sink_inv_def)
qed

definition demo_actions :: "sink_action list" where
  "demo_actions =
    [Publishes 0 (Some ''x'') (demo_event 1), Forwards 0 new_output_router,
     Publishes 0 None (demo_event 2), Forwards 0 \<lparr>or_app = None, or_output = Some 1\<rparr>]"

definition demo_screen :: "(rendering \<Rightarrow> unit res) \<Rightarrow> screen" where
  "demo_screen draw = fold (screen_action draw (\<lambda>_. False) (\<lambda>_. ''?'')) demo_actions
     \<lparr>sc_task = TaskWatching 0, sc_store = snd (task_begin (Some 0) demo_store), sc_drawn = []\<rparr>"

lemma terminal_shows_every_event_witness:
  "map drawn_text (sc_drawn (demo_screen (\<lambda>_. Inr ()))) = event_texts (\<lambda>_. ''?'') [demo_event 1, demo_event 2]"
proof -
  have b: "fst (task_begin (Some 0) demo_store) = TaskWatching 0" by code_simp
  have w: "js_inbox (sc_store (demo_screen (\<lambda>_. Inr ()))) 0 = []" by code_simp
  have p: "published_events demo_actions = [demo_event 1, demo_event 2]" by (simp add: demo_actions_def)
  show ?thesis
    using terminal_shows_every_event [OF demo_store_ok, of "Some 0" 0 "snd (task_begin (Some 0) demo_store)"
        "\<lambda>_. Inr ()" "\<lambda>_. False" "\<lambda>_. ''?''" demo_actions "demo_screen (\<lambda>_. Inr ())"] b w p
    by (simp add: demo_screen_def prod_eq_iff)
qed

text \<open>
  One drawing that raises ends the sink for good: it unsubscribes, no task takes its place, and
  the events that follow are not shown.
\<close>

lemma failed_drawing_ends_sink:
  "sc_task (demo_screen (\<lambda>_. Inl (PyExc RuntimeErrorC ''closed''))) = TaskEnded \<and>
   js_gsubs (sc_store (demo_screen (\<lambda>_. Inl (PyExc RuntimeErrorC ''closed'')))) = [] \<and>
   sc_drawn (demo_screen (\<lambda>_. Inl (PyExc RuntimeErrorC ''closed''))) = []"
  by code_simp

end
