(* ===== verification/Consoles.thy ===== *)
theory Consoles
  imports Binding RunContext
begin

text \<open>
  Consoles (\<open>consoles/core.py\<close>) and the manager that runs them (\<open>consoles/manager.py\<close>): the
  stack of consoles, which of them receives the service's messages, the session the output
  router draws on, and the loop that prompts and executes. The loop's input is a script: what
  each prompt-and-execute calls on the manager and how it ends.
\<close>

section \<open>State\<close>

record console =
  co_id :: nat
  co_name :: string
  co_cls :: console_class
  co_parent :: "nat option"
  co_session :: ui_session
  co_commands :: base_commands

text \<open>
  \<open>mn_forward\<close> is the class attribute \<open>BaseConsole.forward_console\<close>; \<open>mn_listeners\<close> are the
  listeners of the service when it is a \<open>UIEventSpeaker\<close>; \<open>mn_shutdowns\<close> counts the calls
  of \<open>on_shutdown\<close>; \<open>mn_commands\<close> is the command registry.
\<close>

record console_manager = manager_names +
  mn_stack :: "console list"
  mn_router :: "output_router option"
  mn_shutdown_called :: bool
  mn_has_shutdown :: bool
  mn_shutdowns :: nat
  mn_forward :: "nat option"
  mn_listeners :: "nat list option"
  mn_next :: nat
  mn_commands :: command_registry

definition new_console_manager ::
  "output_router option \<Rightarrow> bool \<Rightarrow> nat list option \<Rightarrow> command_registry \<Rightarrow> console_manager" where
  "new_console_manager router has_shutdown listeners r =
    \<lparr>mn_registry = [], mn_root_name = None, mn_tree = None, mn_stack = [], mn_router = router,
     mn_shutdown_called = False, mn_has_shutdown = has_shutdown, mn_shutdowns = 0, mn_forward = None,
     mn_listeners = listeners, mn_next = 0, mn_commands = r\<rparr>"

text \<open>
  What user code and prompt_toolkit contribute to a console: command constructors, class
  members, the class attribute \<open>__commands_cls__\<close>, the result of \<open>init_commands\<close>, the
  default commands class, and the prompt session, whose construction may raise.
\<close>

record console_env =
  ce_mk :: constructor
  ce_members :: members
  ce_attr :: "nat \<Rightarrow> nat option"
  ce_init :: "nat \<Rightarrow> base_commands option res"
  ce_default :: nat
  ce_session :: "console_class \<Rightarrow> (string, pyval) dict \<Rightarrow> ui_session res"

section \<open>Consoles\<close>

definition class_console_name :: "console_class \<Rightarrow> string" where
  "class_console_name k =
    (if truthy_str (kc_console_name k) then the (kc_console_name k) else map lower_char (kc_name k))"

definition build_commands ::
  "console_env \<Rightarrow> console_class \<Rightarrow> command_registry \<Rightarrow> base_commands res \<times> command_registry" where
  "build_commands ce k r =
    (let make = (\<lambda>c. new_base_commands (ce_mk ce) (ce_members ce) (class_console_name k) (kc_id k) c r)
     in case ce_attr ce (kc_id k) of
          Some c \<Rightarrow> make c
        | None \<Rightarrow>
            (case ce_init ce (kc_id k) of
               Inl e \<Rightarrow> (Inl e, r)
             | Inr (Some b) \<Rightarrow> (Inr b, r)
             | Inr None \<Rightarrow>
                 make (case get_commands_cls r (kc_id k) of None \<Rightarrow> ce_default ce | Some c \<Rightarrow> c)))"

text \<open>
  The constructors of \<open>MainConsole\<close>, \<open>SubConsole\<close> and \<open>BaseConsole\<close>: the console announces
  itself as \<open>forward_console\<close> before its commands and its session are built.
\<close>

definition check_parent :: "console_class \<Rightarrow> nat option \<Rightarrow> unit res" where
  "check_parent k parent =
    (if kc_is_main k \<and> parent \<noteq> None
     then Inl (PyExc ConsoleInitExceptionC ''MainConsole parent must be None'')
     else if kc_is_sub k \<and> parent = None
     then Inl (PyExc ConsoleInitExceptionC ''SubConsole parent is None'')
     else Inr ())"

definition new_console ::
  "console_env \<Rightarrow> console_class \<Rightarrow> (string, pyval) dict \<Rightarrow> nat option \<Rightarrow> console_manager
   \<Rightarrow> console res \<times> console_manager" where
  "new_console ce k kwargs parent m =
    (case check_parent k parent of
       Inl e \<Rightarrow> (Inl e, m)
     | Inr _ \<Rightarrow>
       let i = mn_next m;
           m1 = m\<lparr>mn_next := Suc i, mn_forward := Some i\<rparr>;
           (c, r) = build_commands ce k (mn_commands m1);
           m2 = m1\<lparr>mn_commands := r\<rparr>
       in case c of
            Inl e \<Rightarrow> (Inl e, m2)
          | Inr b \<Rightarrow>
              (case ce_session ce k kwargs of
                 Inl e \<Rightarrow> (Inl e, m2)
               | Inr s \<Rightarrow>
                   (Inr \<lparr>co_id = i, co_name = class_console_name k, co_cls = k, co_parent = parent,
                         co_session = s, co_commands = b\<rparr>,
                    m2\<lparr>mn_listeners := map_option (\<lambda>l. l @ [i]) (mn_listeners m2)\<rparr>)))"

definition clean_console :: "console \<Rightarrow> console_manager \<Rightarrow> unit res \<times> console_manager" where
  "clean_console c m =
    (let forward = (\<lambda>m. if mn_forward m = Some (co_id c) then m\<lparr>mn_forward := co_parent c\<rparr> else m)
     in case mn_listeners m of
          None \<Rightarrow> (Inr (), forward m)
        | Some l \<Rightarrow>
            if co_id c \<notin> set l then (Inl (PyExc ValueErrorC ''list.remove(x): x not in list''), m)
            else (Inr (), forward (m\<lparr>mn_listeners := Some (remove1 (co_id c) l)\<rparr>)))"

text \<open>Whether a console prints a message of the service.\<close>

definition handles_event :: "console_manager \<Rightarrow> nat \<Rightarrow> bool" where
  "handles_event m i \<longleftrightarrow> mn_forward m = Some i"

text \<open>\<open>_build_context\<close>: the context of a command line, or the token that no command has.\<close>

definition build_context :: "console \<Rightarrow> string \<Rightarrow> (execution_context option \<times> string) res" where
  "build_context c cmd =
    (case split_cmd cmd of
       Inl e \<Rightarrow> Inl e
     | Inr (token, arg_text, _) \<Rightarrow>
         if token = [] then Inr (None, token)
         else case get_command_def (co_commands c) token of
                None \<Rightarrow> Inr (None, token)
              | Some d \<Rightarrow>
                  (case deserialize_args d arg_text of
                     Inl e \<Rightarrow> Inl e
                   | Inr params \<Rightarrow>
                       Inr (Some ((new_execution_context ''tty'')
                         \<lparr>xc_console_name := Some (co_name c), xc_command_name := Some token,
                          xc_command_id := map_option (def_command_id (co_name c))
                             (map_of (bc_by_name (co_commands c)) token),
                          xc_argv := params, xc_raw_cmd := Some cmd\<rparr>), token)))"

text \<open>What \<open>execute\<close> does with a line before any user code runs.\<close>

datatype execution = Ignored | Missed string | Runs invocation "(func_obj \<times> string list) res"

definition console_execute :: "console \<Rightarrow> string \<Rightarrow> execution" where
  "console_execute c cmd =
    (case build_context c cmd of
       Inl e \<Rightarrow> Ignored
     | Inr (None, token) \<Rightarrow> if token \<noteq> [] then Missed cmd else Ignored
     | Inr (Some ctx, _) \<Rightarrow>
         let iv = to_invocation ctx in Runs iv (command_call (co_commands c) iv))"

text \<open>\<open>run\<close>, which an invocation reaches without a binding: the call it makes.\<close>

definition console_run :: "console \<Rightarrow> invocation \<Rightarrow> (func_obj \<times> string list) res" where
  "console_run c iv =
    (case (case (case inv_command_id iv of None \<Rightarrow> None | Some i \<Rightarrow> get_command_def_by_id (co_commands c) i) of
             Some d \<Rightarrow> Some d
           | None \<Rightarrow> (case inv_command_name iv of None \<Rightarrow> None | Some n \<Rightarrow> get_command_def (co_commands c) n)) of
       None \<Rightarrow> Inl (PyExc ValueErrorC (''Command not found: '' @ (case inv_command_id iv of None \<Rightarrow> ''None'' | Some i \<Rightarrow> i)))
     | Some d \<Rightarrow> Inr (cd_func d, inv_argv iv))"

section \<open>The manager\<close>

definition register_console ::
  "string \<Rightarrow> console_class \<Rightarrow> (string, pyval) dict \<Rightarrow> console_manager \<Rightarrow> console_manager" where
  "register_console name k kwargs m = m\<lparr>mn_registry := dict_set name (k, kwargs) (mn_registry m)\<rparr>"

definition is_registered :: "string \<Rightarrow> console_manager \<Rightarrow> bool" where
  "is_registered name m \<longleftrightarrow> map_of (mn_registry m) name \<noteq> None"

definition set_root_name :: "string option \<Rightarrow> console_manager \<Rightarrow> console_manager" where
  "set_root_name root_name m = m\<lparr>mn_root_name := root_name\<rparr>"

definition set_console_tree :: "console_tree option \<Rightarrow> console_manager \<Rightarrow> console_manager" where
  "set_console_tree tree m = m\<lparr>mn_tree := tree\<rparr>"

text \<open>\<open>_warn_service_if_needed\<close>; \<open>speaker\<close>: the service, of class \<open>name\<close>, is a \<open>UIEventSpeaker\<close>.\<close>

definition warn_service_if_needed ::
  "real \<Rightarrow> run_context \<Rightarrow> provider \<Rightarrow> (string \<times> bool) option \<Rightarrow> print_effect" where
  "warn_service_if_needed now c p service =
    (case service of
       Some (name, False) \<Rightarrow>
         proxy_print now c p
           (VStr (''The Service core['' @ name @ ''] doesn't extend the [UIEventSpeaker], which may affect the output of the Service core on the UI!''))
           (Level WARNING) ''tty'' None
     | _ \<Rightarrow> NotPrinted)"

definition current :: "console_manager \<Rightarrow> console option" where
  "current m = (if mn_stack m = [] then None else Some (last (mn_stack m)))"

definition bind_output_router :: "console_manager \<Rightarrow> console_manager" where
  "bind_output_router m =
    m\<lparr>mn_router := map_option
       (case current m of None \<Rightarrow> clear_session None | Some c \<Rightarrow> bind_session (Some (co_session c)))
       (mn_router m)\<rparr>"

definition push :: "console_env \<Rightarrow> string \<Rightarrow> (string, pyval) dict \<Rightarrow> console_manager \<Rightarrow> unit res \<times> console_manager" where
  "push ce name kwargs m =
    (case map_of (mn_registry m) name of
       None \<Rightarrow> (Inl (PyExc KeyErrorC (''Console ['' @ name @ ''] not registered'')), m)
     | Some (k, kw) \<Rightarrow>
         (case new_console ce k (fold (\<lambda>(a, v). dict_set a v) kwargs kw)
                 (map_option co_id (current m)) m of
            (Inl e, m1) \<Rightarrow> (Inl e, m1)
          | (Inr c, m1) \<Rightarrow>
              (Inr (), bind_output_router (m1\<lparr>mn_stack := mn_stack m1 @ [c\<lparr>co_name := name\<rparr>]\<rparr>))))"

definition pop :: "console_manager \<Rightarrow> unit res \<times> console_manager" where
  "pop m =
    (if mn_stack m = [] then (Inr (), m)
     else case clean_console (last (mn_stack m)) (m\<lparr>mn_stack := butlast (mn_stack m)\<rparr>) of
            (Inl e, m1) \<Rightarrow> (Inl e, m1)
          | (Inr _, m1) \<Rightarrow> (Inr (), bind_output_router m1))"

definition clean :: "console_manager \<Rightarrow> console_manager" where
  "clean m =
    (if mn_shutdown_called m then m
     else m\<lparr>mn_shutdown_called := True, mn_router := map_option (clear_session None) (mn_router m),
            mn_shutdowns := mn_shutdowns m + (if mn_has_shutdown m then 1 else 0)\<rparr>)"

text \<open>\<open>while self._stack: self.pop()\<close>.\<close>

lemma pop_stack: "mn_stack (snd (pop m)) = butlast (mn_stack m)"
  by (auto simp: pop_def clean_console_def bind_output_router_def Let_def split: option.splits if_splits)

function pop_all :: "console_manager \<Rightarrow> unit res \<times> console_manager" where
  "pop_all m =
    (if mn_stack m = [] then (Inr (), m)
     else case pop m of (Inl e, m1) \<Rightarrow> (Inl e, m1) | (Inr _, m1) \<Rightarrow> pop_all m1)"
  by pat_completeness auto
termination
proof (relation "measure (\<lambda>m. length (mn_stack m))", goal_cases)
  case (2 m x m1)
  then have "mn_stack m1 = butlast (mn_stack m)" by (metis pop_stack snd_conv)
  with 2(1) show ?case by (cases "mn_stack m") auto
qed simp

declare pop_all.simps [simp del]

subsection \<open>The loop\<close>

text \<open>
  What the code of a command does with the manager, up to the first call that raises, and then
  how the command ends.
\<close>

datatype manager_call = CallPush string "(string, pyval) dict" | CallPop

fun do_call :: "console_env \<Rightarrow> manager_call \<Rightarrow> console_manager \<Rightarrow> unit res \<times> console_manager" where
  "do_call ce (CallPush name kw) m = push ce name kw m"
| "do_call ce CallPop m = pop m"

fun do_calls :: "console_env \<Rightarrow> manager_call list \<Rightarrow> console_manager \<Rightarrow> unit res \<times> console_manager" where
  "do_calls ce [] m = (Inr (), m)"
| "do_calls ce (c # cs) m =
    (case do_call ce c m of (Inl e, m1) \<Rightarrow> (Inl e, m1) | (Inr _, m1) \<Rightarrow> do_calls ce cs m1)"

type_synonym turn = "manager_call list \<times> unit res"

definition do_turn :: "console_env \<Rightarrow> turn \<Rightarrow> console_manager \<Rightarrow> unit res \<times> console_manager" where
  "do_turn ce t m =
    (case do_calls ce (fst t) m of (Inl e, m1) \<Rightarrow> (Inl e, m1) | (Inr _, m1) \<Rightarrow> (snd t, m1))"

text \<open>
  \<open>_loop\<close> with its \<open>finally\<close>; \<open>None\<close> when the script ends while the loop waits at a prompt.
\<close>

definition loop_end :: "unit res \<times> console_manager \<Rightarrow> unit res option \<times> console_manager" where
  "loop_end x = (Some (fst x), clean (snd x))"

fun console_loop :: "console_env \<Rightarrow> turn list \<Rightarrow> console_manager \<Rightarrow> unit res option \<times> console_manager" where
  "console_loop ce [] m =
    (if mn_stack m = [] then loop_end (Inr (), m) else (None, bind_output_router m))"
| "console_loop ce (t # ts) m =
    (if mn_stack m = [] then loop_end (Inr (), m)
     else case do_turn ce t (bind_output_router m) of
            (Inr _, m1) \<Rightarrow> console_loop ce ts m1
          | (Inl e, m1) \<Rightarrow>
              if isinstance_exc e SubConsoleExitC then
                (case pop m1 of
                   (Inl e', m2) \<Rightarrow> loop_end (Inl e', m2)
                 | (Inr _, m2) \<Rightarrow> console_loop ce ts m2)
              else if isinstance_any e [ConsoleExitC, KeyboardInterruptC, ValueErrorC] then
                loop_end (pop_all m1)
              else loop_end (Inl e, m1))"

definition run_consoles ::
  "console_env \<Rightarrow> string option \<Rightarrow> (string, pyval) dict \<Rightarrow> turn list \<Rightarrow> console_manager
   \<Rightarrow> unit res option \<times> console_manager" where
  "run_consoles ce root_name kwargs ts m =
    (case (case root_name of None \<Rightarrow> mn_root_name m | Some n \<Rightarrow> Some n) of
       None \<Rightarrow> (Some (Inl (PyExc ConsoleInitExceptionC ''Root console not registered'')), m)
     | Some name \<Rightarrow>
         (case push ce name kwargs m of
            (Inl e, m1) \<Rightarrow> (Some (Inl e), m1)
          | (Inr _, m1) \<Rightarrow> console_loop ce ts m1))"

definition run_with :: "console_env \<Rightarrow> console \<Rightarrow> turn list \<Rightarrow> console_manager \<Rightarrow> unit res option \<times> console_manager" where
  "run_with ce c ts m =
    (if co_parent c \<noteq> None
     then (Some (Inl (PyExc ConsoleInitExceptionC ''Root console parent must be None'')), m)
     else console_loop ce ts (bind_output_router (m\<lparr>mn_stack := mn_stack m @ [c]\<rparr>)))"

subsection \<open>Ends of commands and of a console without a manager\<close>

text \<open>\<open>execute\<close> swallows a \<open>ValueError\<close>, wherever it comes from.\<close>

definition execute_outcome :: "unit res \<Rightarrow> unit res" where
  "execute_outcome r =
    (case r of Inr _ \<Rightarrow> Inr () | Inl e \<Rightarrow> if isinstance_exc e ValueErrorC then Inr () else Inl e)"

text \<open>
  \<open>BaseConsole.start\<close> without a manager: it prompts until a turn raises; a \<open>ConsoleExit\<close> in a
  console with a parent leaves the loop as an exception, past \<open>clean_console\<close>.
\<close>

fun start_alone :: "console \<Rightarrow> unit res list \<Rightarrow> console_manager \<Rightarrow> unit res option \<times> console_manager" where
  "start_alone c [] m = (None, m)"
| "start_alone c (r # rs) m =
    (case r of
       Inr _ \<Rightarrow> start_alone c rs m
     | Inl e \<Rightarrow>
         if isinstance_exc e ConsoleExitC \<and> co_parent c \<noteq> None
         then (Some (Inl (PyExc ConsoleExitC [])), m)
         else if isinstance_any e [ConsoleExitC, SubConsoleExitC, KeyboardInterruptC, ValueErrorC]
         then (let (x, m1) = clean_console c m in (Some x, m1))
         else (Some (Inl e), m))"

end
