(* ===== verification/ConsoleFacts.thy ===== *)
theory ConsoleFacts
  imports Consoles
begin

text \<open>
  What holds of the console manager: the consoles on the stack form a chain of parents, are
  exactly the service's listeners, and the top one receives its messages; when the loop
  returns, everything is released once.
\<close>

section \<open>The invariant\<close>

fun parent_chain :: "nat option \<Rightarrow> console list \<Rightarrow> bool" where
  "parent_chain p [] = True"
| "parent_chain p (c # cs) \<longleftrightarrow> co_parent c = p \<and> parent_chain (Some (co_id c)) cs"

definition top_id :: "console_manager \<Rightarrow> nat option" where
  "top_id m = map_option co_id (current m)"

definition stack_ok :: "console_manager \<Rightarrow> bool" where
  "stack_ok m \<longleftrightarrow> distinct (map co_id (mn_stack m)) \<and> (\<forall>c \<in> set (mn_stack m). co_id c < mn_next m) \<and>
    parent_chain None (mn_stack m) \<and>
    (\<forall>l. mn_listeners m = Some l \<longrightarrow> l = map co_id (mn_stack m))"

lemma parent_chain_snoc:
  "parent_chain p (cs @ [c]) \<longleftrightarrow>
   parent_chain p cs \<and> co_parent c = (if cs = [] then p else Some (co_id (last cs)))"
  by (induction cs arbitrary: p) auto

lemma top_id_eq: "top_id m = (if mn_stack m = [] then None else Some (co_id (last (mn_stack m))))"
  by (simp add: top_id_def current_def)

lemma bind_frame [simp]:
  "mn_stack (bind_output_router m) = mn_stack m" "mn_next (bind_output_router m) = mn_next m"
  "mn_listeners (bind_output_router m) = mn_listeners m" "mn_forward (bind_output_router m) = mn_forward m"
  "mn_shutdowns (bind_output_router m) = mn_shutdowns m"
  "mn_shutdown_called (bind_output_router m) = mn_shutdown_called m"
  "mn_has_shutdown (bind_output_router m) = mn_has_shutdown m"
  "top_id (bind_output_router m) = top_id m" "stack_ok (bind_output_router m) = stack_ok m"
  by (simp_all add: bind_output_router_def top_id_def current_def stack_ok_def)

text \<open>The two consoles of a stack that ends in them, after a successful construction.\<close>

lemma new_console_ok:
  assumes "new_console ce k kw (top_id m) m = (Inr c, m1)" and "stack_ok m"
  shows "co_id c = mn_next m" "co_parent c = top_id m" "mn_stack m1 = mn_stack m"
    "mn_next m1 = Suc (mn_next m)" "mn_forward m1 = Some (co_id c)"
    "mn_listeners m1 = map_option (\<lambda>l. l @ [co_id c]) (mn_listeners m)"
    "mn_shutdowns m1 = mn_shutdowns m" "mn_shutdown_called m1 = mn_shutdown_called m"
    "mn_has_shutdown m1 = mn_has_shutdown m"
  using assms(1)
  by (auto simp: new_console_def check_parent_def Let_def split: if_splits sum.splits prod.splits)

lemma new_console_failed:
  assumes "new_console ce k kw p m = (Inl e, m1)"
  shows "mn_stack m1 = mn_stack m" "mn_next m \<le> mn_next m1" "mn_listeners m1 = mn_listeners m"
    "mn_shutdowns m1 = mn_shutdowns m" "mn_shutdown_called m1 = mn_shutdown_called m"
    "mn_has_shutdown m1 = mn_has_shutdown m"
  using assms by (auto simp: new_console_def check_parent_def Let_def split: if_splits sum.splits prod.splits)

lemma push_cases:
  obtains (failed) e m1 where "push ce name kw m = (Inl e, m1)" "mn_stack m1 = mn_stack m"
      "mn_next m \<le> mn_next m1" "mn_listeners m1 = mn_listeners m" "mn_shutdowns m1 = mn_shutdowns m"
      "mn_shutdown_called m1 = mn_shutdown_called m" "mn_has_shutdown m1 = mn_has_shutdown m"
  | (pushed) c m1 k kw' where "new_console ce k kw' (top_id m) m = (Inr c, m1)"
      "push ce name kw m = (Inr (), bind_output_router (m1\<lparr>mn_stack := mn_stack m1 @ [c\<lparr>co_name := name\<rparr>]\<rparr>))"
proof (cases "map_of (mn_registry m) name")
  case None
  then show ?thesis by (intro failed) (simp_all add: push_def)
next
  case (Some e)
  then obtain k kw' where e: "map_of (mn_registry m) name = Some (k, kw')" by (cases e) auto
  let ?kw = "fold (\<lambda>(a, v). dict_set a v) kw kw'"
  obtain r m1 where r: "new_console ce k ?kw (top_id m) m = (r, m1)"
    by (cases "new_console ce k ?kw (top_id m) m")
  show ?thesis
  proof (cases r)
    case (Inl x)
    then show ?thesis using r e new_console_failed [of ce k ?kw "top_id m" m x m1]
      by (intro failed [of x m1]) (simp_all add: push_def top_id_def)
  next
    case (Inr c)
    then show ?thesis using r e by (intro pushed) (simp_all add: push_def top_id_def)
  qed
qed

lemma stack_ok_push: "stack_ok m \<Longrightarrow> stack_ok (snd (push ce name kw m))"
proof (cases rule: push_cases [of ce name kw m])
  case (failed e m1)
  then show "stack_ok m \<Longrightarrow> ?thesis" by (force simp: stack_ok_def)
next
  case (pushed c m1 k kw')
  assume ok: "stack_ok m"
  note n = new_console_ok [OF pushed(1) ok]
  have "mn_next m \<notin> co_id ` set (mn_stack m)" using ok by (auto simp: stack_ok_def)
  then show ?thesis
    using ok n by (auto simp: pushed(2) stack_ok_def parent_chain_snoc top_id_eq)
qed

section \<open>Popping\<close>

text \<open>What a pop and a cleaning loop keep.\<close>

definition pop_result :: "console_manager \<Rightarrow> console_manager \<Rightarrow> bool" where
  "pop_result m m' \<longleftrightarrow> stack_ok m' \<and> (mn_forward m = top_id m \<longrightarrow> mn_forward m' = top_id m') \<and>
    mn_shutdowns m' = mn_shutdowns m \<and> mn_shutdown_called m' = mn_shutdown_called m \<and>
    mn_has_shutdown m' = mn_has_shutdown m"

lemma pop_result_trans: "pop_result a b \<Longrightarrow> pop_result b c \<Longrightarrow> pop_result a c"
  by (simp add: pop_result_def)

lemma pop_ok:
  assumes ok: "stack_ok m"
  shows "fst (pop m) = Inr () \<and> pop_result m (snd (pop m))"
proof (cases "mn_stack m = []")
  case True
  then show ?thesis using ok by (simp add: pop_def pop_result_def)
next
  case False
  define cs c where "cs = butlast (mn_stack m)" and "c = last (mn_stack m)"
  have st: "mn_stack m = cs @ [c]" using False by (simp add: cs_def c_def)
  have par: "co_parent c = (if cs = [] then None else Some (co_id (last cs)))"
    "parent_chain None cs" "co_id c \<notin> co_id ` set cs"
    using ok by (auto simp: stack_ok_def st parent_chain_snoc)
  have rm: "remove1 (co_id c) (map co_id cs @ [co_id c]) = map co_id cs"
    using par(3) by (simp add: remove1_append)
  let ?m = "m\<lparr>mn_stack := cs, mn_listeners := map_option (\<lambda>_. map co_id cs) (mn_listeners m),
    mn_forward := if mn_forward m = Some (co_id c) then co_parent c else mn_forward m\<rparr>"
  have "pop m = (Inr (), bind_output_router ?m)"
    using ok rm unfolding pop_def st clean_console_def stack_ok_def Let_def
    by (cases m) (auto split: option.split)
  then show ?thesis
    using ok par by (auto simp: pop_result_def stack_ok_def st top_id_eq)
qed

lemma pop_all_ok:
  "stack_ok m \<Longrightarrow> fst (pop_all m) = Inr () \<and> mn_stack (snd (pop_all m)) = [] \<and> pop_result m (snd (pop_all m))"
proof (induction m rule: pop_all.induct)
  case (1 m)
  show ?case
  proof (cases "mn_stack m = []")
    case True
    then show ?thesis using 1(2) by (simp add: pop_all.simps [of m] pop_result_def)
  next
    case False
    obtain m1 where m1: "pop m = (Inr (), m1)" "pop_result m m1"
      using pop_ok [OF 1(2)] by (cases "pop m") simp
    then have "stack_ok m1" by (simp add: pop_result_def)
    from 1(1) [OF False m1(1) [symmetric] refl this] show ?thesis
      using False m1 pop_result_trans [OF m1(2)] by (simp add: pop_all.simps [of m])
  qed
qed

section \<open>Turns\<close>

text \<open>Constructing a console never fails after the console announced itself.\<close>

definition constructs :: "console_env \<Rightarrow> bool" where
  "constructs ce \<longleftrightarrow> (\<forall>k r. \<not> isl (fst (build_commands ce k r))) \<and> (\<forall>k kw. \<not> isl (ce_session ce k kw))"

lemma push_forward:
  assumes "constructs ce" and "stack_ok m" and "mn_forward m = top_id m"
  shows "mn_forward (snd (push ce name kw m)) = top_id (snd (push ce name kw m))"
proof (cases rule: push_cases [of ce name kw m])
  case (pushed c m1 k kw')
  then show ?thesis using new_console_ok [OF pushed(1) assms(2)] by (simp add: top_id_eq)
next
  case (failed e m1)
  have "m1 = m"
  proof (cases "map_of (mn_registry m) name")
    case None
    then show ?thesis using failed(1) by (simp add: push_def)
  next
    case (Some x)
    then obtain k kw0 where k: "map_of (mn_registry m) name = Some (k, kw0)" by (cases x) auto
    have "fst (new_console ce k kw1 p m) = Inl e \<Longrightarrow> snd (new_console ce k kw1 p m) = m" for kw1 p
      using assms(1) unfolding constructs_def isl_def
      by (auto simp: new_console_def check_parent_def Let_def split: sum.splits prod.splits if_splits) (metis fst_conv)+
    moreover have "new_console ce k (fold (\<lambda>(a, v). dict_set a v) kw kw0) (map_option co_id (current m)) m =
        (Inl e, m1)"
      using failed(1) k by (auto simp: push_def split: sum.splits prod.splits)
    ultimately show ?thesis by (metis fst_conv snd_conv)
  qed
  then show ?thesis using failed(1) assms(3) by simp
qed

lemma push_frame:
  "mn_shutdowns (snd (push ce name kw m)) = mn_shutdowns m"
  "mn_shutdown_called (snd (push ce name kw m)) = mn_shutdown_called m"
  "mn_has_shutdown (snd (push ce name kw m)) = mn_has_shutdown m"
proof (atomize (full), cases rule: push_cases [of ce name kw m])
  case (pushed c m1 k kw')
  then show "mn_shutdowns (snd (push ce name kw m)) = mn_shutdowns m \<and>
    mn_shutdown_called (snd (push ce name kw m)) = mn_shutdown_called m \<and>
    mn_has_shutdown (snd (push ce name kw m)) = mn_has_shutdown m"
    by (auto simp: new_console_def check_parent_def Let_def split: if_splits sum.splits prod.splits)
qed simp

definition turn_result :: "console_env \<Rightarrow> console_manager \<Rightarrow> console_manager \<Rightarrow> bool" where
  "turn_result ce m m' \<longleftrightarrow> stack_ok m' \<and>
    (constructs ce \<and> mn_forward m = top_id m \<longrightarrow> mn_forward m' = top_id m') \<and>
    mn_shutdowns m' = mn_shutdowns m \<and> mn_shutdown_called m' = mn_shutdown_called m \<and>
    mn_has_shutdown m' = mn_has_shutdown m"

lemma turn_result_trans: "turn_result ce a b \<Longrightarrow> turn_result ce b c \<Longrightarrow> turn_result ce a c"
  by (auto simp: turn_result_def)

lemma turn_result_pop: "pop_result m m' \<Longrightarrow> turn_result ce m m'"
  by (auto simp: turn_result_def pop_result_def)

lemma turn_result_push: "stack_ok m \<Longrightarrow> turn_result ce m (snd (push ce name kw m))"
  by (simp add: turn_result_def push_frame stack_ok_push push_forward)

lemma turn_result_call: "stack_ok m \<Longrightarrow> turn_result ce m (snd (do_call ce c m))"
  by (cases c) (auto simp: turn_result_push intro: turn_result_pop dest: pop_ok)

lemma turn_result_calls: "stack_ok m \<Longrightarrow> turn_result ce m (snd (do_calls ce cs m))"
proof (induction cs arbitrary: m)
  case (Cons c cs)
  obtain r m1 where c: "do_call ce c m = (r, m1)" by (cases "do_call ce c m")
  have t: "turn_result ce m m1" using turn_result_call [OF Cons.prems, of ce c] c by simp
  then have "turn_result ce m1 (snd (do_calls ce cs m1))" by (intro Cons.IH) (simp add: turn_result_def)
  then show ?case using c t turn_result_trans [OF t] by (auto split: sum.split)
qed (simp add: turn_result_def)

lemma turn_result_turn: "stack_ok m \<Longrightarrow> turn_result ce m (snd (do_turn ce t m))"
  using turn_result_calls [of m ce "fst t"] by (auto simp: do_turn_def split: sum.split prod.split)

lemma turn_result_bind: "stack_ok m \<Longrightarrow> turn_result ce m (bind_output_router m)"
  by (simp add: turn_result_def)

section \<open>The loop\<close>

definition router_cleared :: "console_manager \<Rightarrow> bool" where
  "router_cleared m \<longleftrightarrow> (\<forall>ro. mn_router m = Some ro \<longrightarrow> or_app ro = None \<and> or_output ro = None)"

text \<open>What is left when the loop is over, and when it waits.\<close>

definition released :: "console_env \<Rightarrow> console_manager \<Rightarrow> console_manager \<Rightarrow> bool" where
  "released ce m m' \<longleftrightarrow> stack_ok m' \<and> (constructs ce \<and> mn_forward m = top_id m \<longrightarrow> mn_forward m' = top_id m') \<and>
    mn_shutdown_called m' \<and> mn_shutdowns m' = mn_shutdowns m + of_bool (mn_has_shutdown m) \<and>
    router_cleared m'"

lemma released_clean: "turn_result ce m m' \<Longrightarrow> \<not> mn_shutdown_called m \<Longrightarrow> released ce m (clean m')"
  by (auto simp: turn_result_def released_def clean_def stack_ok_def top_id_def current_def
      router_cleared_def clear_session_def)

lemma released_trans: "turn_result ce m m1 \<Longrightarrow> released ce m1 m' \<Longrightarrow> released ce m m'"
  by (auto simp: turn_result_def released_def)

lemma bind_idem [simp]: "bind_output_router (bind_output_router m) = bind_output_router m"
  by (cases "mn_router m")
    (auto simp: bind_output_router_def current_def bind_session_def clear_session_def
      split: option.split prod.split)

definition loop_post ::
  "console_env \<Rightarrow> console_manager \<Rightarrow> unit res option \<times> console_manager \<Rightarrow> bool" where
  "loop_post ce m x \<longleftrightarrow>
    (case x of
       (None, m') \<Rightarrow> turn_result ce m m' \<and> mn_stack m' \<noteq> [] \<and> m' = bind_output_router m'
     | (Some r, m') \<Rightarrow> released ce m m' \<and> (r = Inr () \<longrightarrow> mn_stack m' = []))"

lemma loop_post_trans: "turn_result ce m m1 \<Longrightarrow> loop_post ce m1 x \<Longrightarrow> loop_post ce m x"
  by (auto simp: loop_post_def split: prod.splits option.splits intro: turn_result_trans released_trans)

lemma loop_post_end:
  "turn_result ce m m1 \<Longrightarrow> \<not> mn_shutdown_called m \<Longrightarrow> (r = Inr () \<Longrightarrow> mn_stack m1 = []) \<Longrightarrow>
   loop_post ce m (loop_end (r, m1))"
  using released_clean [of ce m m1] by (auto simp: loop_post_def loop_end_def clean_def)

lemma loop_result:
  assumes "stack_ok m" and "\<not> mn_shutdown_called m"
  shows "loop_post ce m (console_loop ce ts m)"
  using assms
proof (induction ce ts m rule: console_loop.induct)
  case (1 ce m)
  have "turn_result ce m m" using 1(1) by (simp add: turn_result_def)
  then show ?case
    using 1 turn_result_bind [of m ce] loop_post_end [of ce m m "Inr ()"] by (simp add: loop_post_def)
next
  case (2 ce t ts m)
  show ?case
  proof (cases "mn_stack m = []")
    case True
    then show ?thesis using "2.prems" by (simp add: loop_post_end turn_result_def)
  next
    case False
    obtain r m1 where t: "do_turn ce t (bind_output_router m) = (r, m1)"
      by (cases "do_turn ce t (bind_output_router m)")
    have t1: "turn_result ce m m1"
      using turn_result_trans [OF turn_result_bind turn_result_turn] "2.prems"(1) t by (metis bind_frame(9) snd_conv)
    then have ok1: "stack_ok m1" "\<not> mn_shutdown_called m1" using "2.prems"(2) by (simp_all add: turn_result_def)
    show ?thesis
    proof (cases r)
      case (Inr u)
      then show ?thesis
        using False t loop_post_trans [OF t1 "2.IH"(2) [OF False t [symmetric] Inr ok1]] by simp
    next
      case (Inl e)
      obtain m2 where p: "pop m1 = (Inr (), m2)" "pop_result m1 m2"
        using pop_ok [OF ok1(1)] by (cases "pop m1") simp
      have t2: "turn_result ce m m2" using turn_result_trans [OF t1 turn_result_pop [OF p(2)]] .
      then have ok2: "stack_ok m2" "\<not> mn_shutdown_called m2" using "2.prems"(2) by (simp_all add: turn_result_def)
      obtain m3 where q: "pop_all m1 = (Inr (), m3)" "mn_stack m3 = []" "turn_result ce m m3"
        using pop_all_ok [OF ok1(1)] turn_result_trans [OF t1 turn_result_pop] by (cases "pop_all m1") auto
      show ?thesis
      proof (cases "isinstance_exc e SubConsoleExitC")
        case True
        then show ?thesis
          using False t Inl p loop_post_trans [OF t2 "2.IH"(1) [OF False t [symmetric] Inl True p(1) [symmetric] refl ok2]]
          by simp
      next
        case other: False
        then show ?thesis
          using False t Inl q loop_post_end [OF t1 "2.prems"(2), of "Inl e"]
            loop_post_end [OF q(3) "2.prems"(2), of "Inr ()"] by simp
      qed
    qed
  qed
qed

lemma stack_ok_new [simp]: "stack_ok (new_console_manager ro h None r)" "stack_ok (new_console_manager ro h (Some []) r)"
  by (simp_all add: stack_ok_def new_console_manager_def)

text \<open>C10: the consoles at a prompt. Whatever the commands pushed and popped and however they ended,
  whenever the loop waits at a prompt the stack is not empty, each console's parent is the one
  below it, the service's listeners are the consoles of the stack in order, the output router
  draws on the top console's session, and - unless a console's construction failed - the top
  console is the one that prints the service's messages.\<close>

theorem console_prompt_invariant:
  assumes "stack_ok m" and "\<not> mn_shutdown_called m" and "console_loop ce ts m = (None, m')"
  shows "mn_stack m' \<noteq> [] \<and> parent_chain None (mn_stack m') \<and> distinct (map co_id (mn_stack m')) \<and>
    (\<forall>l. mn_listeners m' = Some l \<longrightarrow> l = map co_id (mn_stack m')) \<and>
    (\<forall>ro. mn_router m' = Some ro \<longrightarrow> (or_app ro, or_output ro) = co_session (last (mn_stack m'))) \<and>
    (constructs ce \<and> mn_forward m = top_id m \<longrightarrow> (\<forall>i. handles_event m' i \<longleftrightarrow> i = co_id (last (mn_stack m'))))"
proof -
  have post: "turn_result ce m m'" "mn_stack m' \<noteq> []" "m' = bind_output_router m'"
    using loop_result [OF assms(1,2), of ce ts] assms(3) by (simp_all add: loop_post_def)
  have "(or_app ro, or_output ro) = co_session (last (mn_stack m'))" if "mn_router m' = Some ro" for ro
  proof -
    have "mn_router m' = mn_router (bind_output_router m')" using post(3) by simp
    then show ?thesis using that post(2)
      by (auto simp: bind_output_router_def current_def bind_session_def split: prod.splits)
        (metis output_router.select_convs output_router.surjective output_router.update_convs prod.collapse)+
  qed
  moreover have "constructs ce \<and> mn_forward m = top_id m \<Longrightarrow> handles_event m' i \<longleftrightarrow> i = co_id (last (mn_stack m'))" for i
    using post(1,2) by (auto simp: turn_result_def handles_event_def top_id_eq)
  ultimately show ?thesis using post(1,2) by (auto simp: turn_result_def stack_ok_def)
qed

text \<open>C36: \<open>on_shutdown\<close> is called once, and a normal end releases the consoles. When the loop ends,
  however it ends, \<open>on_shutdown\<close> has been called exactly once and the router is cleared; when it
  ends without an exception no console is left on the stack, none listens to the service and, if no
  construction failed, none is the one that prints its messages. An exception that leaves the loop
  leaves the consoles where they are.\<close>

theorem console_loop_releases:
  assumes "stack_ok m" and "\<not> mn_shutdown_called m" and "console_loop ce ts m = (Some r, m')"
  shows "mn_shutdowns m' = mn_shutdowns m + (if mn_has_shutdown m then 1 else 0) \<and> router_cleared m' \<and>
    (r = Inr () \<longrightarrow> mn_stack m' = [] \<and> (mn_listeners m' = None \<or> mn_listeners m' = Some []) \<and>
      (constructs ce \<and> mn_forward m = top_id m \<longrightarrow> mn_forward m' = None))"
proof -
  have "released ce m m'" "r = Inr () \<Longrightarrow> mn_stack m' = []"
    using loop_result [OF assms(1,2), of ce ts] assms(3) by (simp_all add: loop_post_def)
  then show ?thesis by (cases "mn_listeners m'") (auto simp: released_def stack_ok_def top_id_eq)
qed

text \<open>C35: leaving ends the loop. One exit from the console itself (\<open>ConsoleExit\<close>, an interrupt or
  a \<open>ValueError\<close> at the prompt) ends it from any depth, and so do as many \<open>SubConsoleExit\<close>s
  as there are consoles on the stack; in both cases it returns normally, whatever the rest of
  the input would have been.\<close>

theorem leaving_ends_loop:
  assumes "stack_ok m" and "mn_stack m \<noteq> []"
    and "\<not> isinstance_exc e SubConsoleExitC" and "isinstance_any e [ConsoleExitC, KeyboardInterruptC, ValueErrorC]"
  shows "fst (console_loop ce (([], Inl e) # ts) m) = Some (Inr ()) \<and>
    fst (console_loop ce (replicate (length (mn_stack m)) ([], Inl (PyExc SubConsoleExitC msg)) @ ts) m) =
      Some (Inr ())"
proof
  have ok: "stack_ok (bind_output_router m)" using assms(1) by simp
  show "fst (console_loop ce (([], Inl e) # ts) m) = Some (Inr ())"
    using pop_all_ok [OF ok] assms(2,3,4) by (simp add: do_turn_def loop_end_def)
  have "fst (console_loop ce (replicate n ([], Inl (PyExc SubConsoleExitC msg)) @ ts) m) = Some (Inr ())"
    if "stack_ok m" "n = length (mn_stack m)" for n m
    using that
  proof (induction n arbitrary: m)
    case 0
    then show ?case by (cases ts) (simp_all add: loop_end_def)
  next
    case (Suc n)
    have ok: "stack_ok (bind_output_router m)" using Suc.prems(1) by simp
    obtain m2 where p: "pop (bind_output_router m) = (Inr (), m2)" "stack_ok m2"
      using pop_ok [OF ok] by (cases "pop (bind_output_router m)") (simp add: pop_result_def)
    have "mn_stack m2 = butlast (mn_stack m)" using pop_stack [of "bind_output_router m"] p(1) by simp
    then have "n = length (mn_stack m2)" using Suc.prems(2) by simp
    moreover have "mn_stack m \<noteq> []" using Suc.prems(2) by auto
    ultimately show ?case using Suc.IH [OF p(2)] p(1) by (simp add: do_turn_def)
  qed
  from this [OF assms(1) refl]
  show "fst (console_loop ce (replicate (length (mn_stack m)) ([], Inl (PyExc SubConsoleExitC msg)) @ ts) m) =
      Some (Inr ())" .
qed

section \<open>Witnesses\<close>

definition demo_console_env :: "bool \<Rightarrow> console_env" where
  "demo_console_env broken = \<lparr>ce_mk = (\<lambda>_ _. Inr 0), ce_members = (\<lambda>_. []), ce_attr = (\<lambda>_. None),
    ce_init = (\<lambda>_. Inr (Some demo_commands)), ce_default = 0,
    ce_session = (\<lambda>k _. if broken \<and> kc_is_sub k then Inl (PyExc TypeErrorC ''style'')
                        else Inr (Some (kc_id k), Some (kc_id k)))\<rparr>"

definition demo_manager :: console_manager where
  "demo_manager = snd (register_all demo_consoles
     (new_console_manager (Some new_output_router) True (Some []) new_command_registry))"

text \<open>The root console is up; a command of its opens the sub console \<open>mod\<close>.\<close>

definition demo_manager_up :: console_manager where
  "demo_manager_up = snd (push (demo_console_env False) ''root'' [] demo_manager)"

definition demo_turn :: turn where
  "demo_turn = ([CallPush ''mod'' []], Inr ())"

lemma demo_manager_up_ok: "stack_ok demo_manager_up" "mn_stack demo_manager_up \<noteq> []"
  "\<not> mn_shutdown_called demo_manager_up" "mn_has_shutdown demo_manager_up" "mn_shutdowns demo_manager_up = 0"
  "mn_forward demo_manager_up = top_id demo_manager_up"
proof -
  have "mn_stack demo_manager = []" "mn_listeners demo_manager = Some []" by code_simp+
  then have "stack_ok demo_manager" by (simp add: stack_ok_def)
  then show "stack_ok demo_manager_up" unfolding demo_manager_up_def by (rule stack_ok_push)
qed code_simp+

lemma demo_constructs: "constructs (demo_console_env False)"
  by (auto simp: constructs_def demo_console_env_def build_commands_def)

lemma console_prompt_invariant_witness:
  "\<exists>m'. console_loop (demo_console_env False) [demo_turn] demo_manager_up = (None, m') \<and>
     handles_event m' 1 \<and> mn_listeners m' = Some [0, 1]"
proof -
  obtain r m' where m': "console_loop (demo_console_env False) [demo_turn] demo_manager_up = (r, m')"
    by (cases "console_loop (demo_console_env False) [demo_turn] demo_manager_up")
  have "fst (console_loop (demo_console_env False) [demo_turn] demo_manager_up) = None"
    "map co_id (mn_stack (snd (console_loop (demo_console_env False) [demo_turn] demo_manager_up))) = [0, 1]"
    "mn_listeners (snd (console_loop (demo_console_env False) [demo_turn] demo_manager_up)) \<noteq> None"
    by code_simp+
  then have f: "r = None" "map co_id (mn_stack m') = [0, 1]" "mn_listeners m' \<noteq> None" using m' by simp_all
  then have top: "mn_stack m' \<noteq> []" "co_id (last (mn_stack m')) = 1"
    by (auto simp: last_map [symmetric])
  from console_prompt_invariant [OF demo_manager_up_ok(1,3) m' [unfolded f(1)]]
  show ?thesis using f m' top demo_constructs demo_manager_up_ok(6) by auto
qed

lemma console_loop_releases_witness:
  "\<exists>m'. console_loop (demo_console_env False) [demo_turn, ([], Inl (PyExc ConsoleExitC []))] demo_manager_up =
     (Some (Inr ()), m') \<and> mn_stack m' = [] \<and> mn_shutdowns m' = 1 \<and> mn_forward m' = None"
proof -
  let ?l = "console_loop (demo_console_env False) [demo_turn, ([], Inl (PyExc ConsoleExitC []))] demo_manager_up"
  obtain r m' where m': "?l = (r, m')" by (cases ?l)
  have "fst ?l = Some (Inr ())" by code_simp
  then have r: "r = Some (Inr ())" using m' by simp
  from console_loop_releases [OF demo_manager_up_ok(1,3) m' [unfolded r]]
  show ?thesis using m' r demo_constructs demo_manager_up_ok(4,5,6) by auto
qed

lemma leaving_ends_loop_witness:
  "fst (console_loop (demo_console_env False) [([], Inl (PyExc KeyboardInterruptC [])), demo_turn]
     demo_manager_up) = Some (Inr ())"
  using leaving_ends_loop [OF demo_manager_up_ok(1,2), of "PyExc KeyboardInterruptC []"]
  by (simp add: isinstance_any_def isinstance_exc_def)

text \<open>
  A console whose prompt session cannot be built has already made itself \<open>forward_console\<close>:
  the command that pushed it failed, the root console is still on top, and the service's
  messages are no longer printed.
\<close>

lemma failed_console_silences_service:
  "fst (push (demo_console_env True) ''mod'' [] (snd (push (demo_console_env True) ''root'' [] demo_manager))) =
     Inl (PyExc TypeErrorC ''style'') \<and>
   map co_id (mn_stack (snd (push (demo_console_env True) ''mod'' []
     (snd (push (demo_console_env True) ''root'' [] demo_manager))))) = [0] \<and>
   \<not> handles_event (snd (push (demo_console_env True) ''mod'' []
     (snd (push (demo_console_env True) ''root'' [] demo_manager)))) 0"
  by code_simp

text \<open>
  The other end: an end of input at the prompt is none of the exceptions the loop handles. It leaves
  the loop, and with it the console on the stack, which still listens to the service.
\<close>

lemma exception_keeps_consoles:
  "(case console_loop (demo_console_env False) [([], Inl (PyExc (UserC ''EOFError'') []))] demo_manager_up of
      (r, m') \<Rightarrow> r = Some (Inl (PyExc (UserC ''EOFError'') [])) \<and> map co_id (mn_stack m') = [0] \<and>
        mn_listeners m' = Some [0] \<and> mn_shutdowns m' = 1)"
  by code_simp

end
