(* ===== verification/TextTable.thy ===== *)
theory TextTable
  imports Commands
begin

text \<open>
  Text tables (\<open>utils/table.py\<close>). The width of a string on the terminal, \<open>get_cwidth\<close> of
  prompt_toolkit, is the parameter \<open>cw\<close>; \<open>str\<close> of a value that is no string is \<open>py_str\<close>;
  \<open>term\<close> is the width the environment reports. Letters change case as in ASCII.
\<close>

section \<open>Cells\<close>

record cell =
  ce_data_str :: string
  ce_data_width :: int
  ce_padding :: string

definition spaces :: "int \<Rightarrow> string" where
  "spaces n = replicate (nat n) CHR '' ''"

definition str_of :: "(pyval \<Rightarrow> string) \<Rightarrow> pyval \<Rightarrow> string" where
  "str_of py_str v = (case v of VStr s \<Rightarrow> s | _ \<Rightarrow> py_str v)"

definition new_cell :: "(pyval \<Rightarrow> string) \<Rightarrow> pyval \<Rightarrow> cell" where
  "new_cell py_str data =
    \<lparr>ce_data_str = str_of py_str data, ce_data_width = int (length (str_of py_str data)), ce_padding = []\<rparr>"

definition update_max_width :: "int \<Rightarrow> cell \<Rightarrow> cell" where
  "update_max_width padding_len c = (if 0 < padding_len then c\<lparr>ce_padding := spaces padding_len\<rparr> else c)"

definition cell_str :: "cell \<Rightarrow> string" where
  "cell_str c = ce_data_str c @ ce_padding c"

definition repeat_str :: "int \<Rightarrow> string \<Rightarrow> string" where
  "repeat_str n s = concat (replicate (nat n) s)"

definition header_seq_str :: "string \<Rightarrow> cell \<Rightarrow> string" where
  "header_seq_str sep c = repeat_str (ce_data_width c) sep @ ce_padding c"

section \<open>The table\<close>

record table =
  tb_title :: pyval
  tb_title_indent :: int
  tb_data_indent :: int
  tb_data_seq_len :: int
  tb_title_seq :: string
  tb_header_seq :: string
  tb_header_footer :: bool
  tb_wrap :: bool
  tb_wrap_col_idx :: "int option"
  tb_wrap_min_width :: int
  tb_terminal_width :: "int option"
  tb_truncate :: bool
  tb_header :: "pyval list"
  tb_data :: "pyval list list"

text \<open>
  \<open>_normalize_data\<close>: row by row in place, so that the rows before one that is refused stay
  normalized.
\<close>

definition fit_row :: "nat \<Rightarrow> bool \<Rightarrow> pyval list \<Rightarrow> pyval list res" where
  "fit_row n trunc row =
    (if length row < n then Inr (row @ replicate (n - length row) (VStr []))
     else if n < length row then
       if trunc then Inr (take n row) else Inl (PyExc ValueErrorC ''Row length exceeds header length'')
     else Inr row)"

fun fit_rows :: "nat \<Rightarrow> bool \<Rightarrow> pyval list list \<Rightarrow> unit res \<times> pyval list list" where
  "fit_rows n trunc [] = (Inr (), [])"
| "fit_rows n trunc (row # rows) =
    (case fit_row n trunc row of
       Inl e \<Rightarrow> (Inl e, row # rows)
     | Inr row1 \<Rightarrow> let (r, rows1) = fit_rows n trunc rows in (r, row1 # rows1))"

definition max_list :: "int list \<Rightarrow> int" where
  "max_list xs = fold max (tl xs) (hd xs)"

definition normalize_data :: "table \<Rightarrow> unit res \<times> table" where
  "normalize_data t =
    (let header = (if tb_header t = [] \<and> tb_data t \<noteq> []
                   then replicate (nat (max_list (map (\<lambda>r. int (length r)) (tb_data t)))) (VStr [])
                   else tb_header t);
         (r, rows) = fit_rows (length header) (tb_truncate t) (tb_data t)
     in (r, t\<lparr>tb_header := header, tb_data := rows\<rparr>))"

definition capitalize :: "string \<Rightarrow> string" where
  "capitalize s = (case s of [] \<Rightarrow> [] | c # cs \<Rightarrow> upper_char c # cs)"

definition format_header :: "(pyval \<Rightarrow> string) \<Rightarrow> table \<Rightarrow> table" where
  "format_header py_str t = t\<lparr>tb_header := map (\<lambda>v. VStr (capitalize (str_of py_str v))) (tb_header t)\<rparr>"

text \<open>\<open>_normalize_data\<close> and then \<open>_format_header\<close>.\<close>

definition settle_table :: "(pyval \<Rightarrow> string) \<Rightarrow> table \<Rightarrow> unit res \<times> table" where
  "settle_table py_str t =
    (case normalize_data t of (Inl e, t1) \<Rightarrow> (Inl e, t1) | (Inr _, t1) \<Rightarrow> (Inr (), format_header py_str t1))"

definition table_options :: table where
  "table_options =
    \<lparr>tb_title = VStr [], tb_title_indent = 0, tb_data_indent = 4, tb_data_seq_len = 4,
     tb_title_seq = ''='', tb_header_seq = ''-'', tb_header_footer = True, tb_wrap = False,
     tb_wrap_col_idx = None, tb_wrap_min_width = 10, tb_terminal_width = None, tb_truncate = True,
     tb_header = [], tb_data = []\<rparr>"

text \<open>The constructor, from the options given beside header and data.\<close>

definition new_table :: "(pyval \<Rightarrow> string) \<Rightarrow> pyval list \<Rightarrow> pyval list list \<Rightarrow> table \<Rightarrow> table res" where
  "new_table py_str header data options =
    (case settle_table py_str (options\<lparr>tb_header := header, tb_data := data\<rparr>) of
       (Inl e, _) \<Rightarrow> Inl e
     | (Inr _, t) \<Rightarrow> Inr t)"

definition table_update ::
  "(pyval \<Rightarrow> string) \<Rightarrow> pyval list option \<Rightarrow> pyval list list option \<Rightarrow> table \<Rightarrow> unit res \<times> table" where
  "table_update py_str header data t =
    (let t1 = (case header of None \<Rightarrow> t | Some h \<Rightarrow> t\<lparr>tb_header := h\<rparr>)
     in settle_table py_str (case data of None \<Rightarrow> t1 | Some d \<Rightarrow> t1\<lparr>tb_data := d\<rparr>))"

definition set_cell :: "int \<Rightarrow> int \<Rightarrow> pyval \<Rightarrow> table \<Rightarrow> unit res \<times> table" where
  "set_cell row_idx col_idx value t =
    (if row_idx < 0 \<or> col_idx < 0
     then (Inl (PyExc ValueErrorC ''row_idx and col_idx must be >= 0''), t)
     else if int (length (tb_data t)) \<le> row_idx then (Inl (PyExc IndexErrorC ''row_idx out of range''), t)
     else
       let i = nat row_idx; j = nat col_idx; row = tb_data t ! i
       in if length row \<le> j then (Inl (PyExc IndexErrorC ''col_idx out of range''), t)
          else normalize_data (t\<lparr>tb_data := (tb_data t)[i := row[j := value]]\<rparr>))"

section \<open>Widths\<close>

definition resolve_terminal_width :: "int option \<Rightarrow> table \<Rightarrow> int option" where
  "resolve_terminal_width term t = (case tb_terminal_width t of Some w \<Rightarrow> Some w | None \<Rightarrow> term)"

definition table_rows :: "(pyval \<Rightarrow> string) \<Rightarrow> table \<Rightarrow> string list list" where
  "table_rows py_str t = map (map (str_of py_str)) (tb_header t # tb_data t)"

definition index_error :: pyexc where
  "index_error = PyExc IndexErrorC ''list index out of range''"

fun widen :: "(string \<Rightarrow> int) \<Rightarrow> string list \<Rightarrow> int list \<Rightarrow> int list res" where
  "widen cw row [] = Inr []"
| "widen cw [] (w # ws) = Inl index_error"
| "widen cw (c # cs) (w # ws) = map_sum id (\<lambda>r. max w (cw c) # r) (widen cw cs ws)"

definition compute_col_widths :: "(string \<Rightarrow> int) \<Rightarrow> string list list \<Rightarrow> int list res" where
  "compute_col_widths cw rows =
    (case rows of
       [] \<Rightarrow> Inr []
     | row # _ \<Rightarrow> fold_res (widen cw) rows (replicate (length row) 0))"

text \<open>\<open>_resolve_wrap\<close>: the widths, in which the wrapped column's is replaced, and that column.\<close>

definition table_sep_width :: "table \<Rightarrow> nat \<Rightarrow> int" where
  "table_sep_width t n = tb_data_seq_len t * max 0 (int n - 1)"

definition wrap_column :: "table \<Rightarrow> int list \<Rightarrow> int" where
  "wrap_column t ws =
    (case tb_wrap_col_idx t of
       Some i \<Rightarrow> i
     | None \<Rightarrow> int (length (takeWhile (\<lambda>w. w \<noteq> max_list ws) ws)))"

definition resolve_wrap :: "int option \<Rightarrow> table \<Rightarrow> int list \<Rightarrow> int list \<times> nat option" where
  "resolve_wrap term t ws =
    (if \<not> tb_wrap t \<or> ws = [] then (ws, None)
     else case resolve_terminal_width term t of
            None \<Rightarrow> (ws, None)
          | Some term_width \<Rightarrow>
              let sep_width = table_sep_width t (length ws) in
              if tb_data_indent t + sep_width + sum_list ws \<le> term_width then (ws, None)
              else
                let i = wrap_column t ws in
                if i < 0 \<or> int (length ws) \<le> i then (ws, None)
                else
                  let old = ws ! nat i;
                      available = term_width - tb_data_indent t - sep_width - (sum_list ws - old);
                      target = max (tb_wrap_min_width t) available
                  in if old \<le> target then (ws, None) else (ws[nat i := target], Some (nat i)))"

section \<open>Wrapping\<close>

fun wrap_loop :: "(string \<Rightarrow> int) \<Rightarrow> int \<Rightarrow> string list \<Rightarrow> string \<Rightarrow> int \<Rightarrow> string \<Rightarrow> string list" where
  "wrap_loop cw width lines cur curw [] = (if cur \<noteq> [] \<or> lines = [] then lines @ [cur] else lines)"
| "wrap_loop cw width lines cur curw (c # cs) =
    (let w = cw [c] in
     if cur \<noteq> [] \<and> width < curw + w then wrap_loop cw width (lines @ [cur]) [c] w cs
     else wrap_loop cw width lines (cur @ [c]) (curw + w) cs)"

definition wrap_segment :: "(string \<Rightarrow> int) \<Rightarrow> string \<Rightarrow> int \<Rightarrow> string list" where
  "wrap_segment cw txt width = (if txt = [] then [[]] else wrap_loop cw width [] [] 0 txt)"

text \<open>Python's \<open>s.split(sep)\<close> for one character.\<close>

fun split_on :: "char \<Rightarrow> string \<Rightarrow> string list" where
  "split_on sep [] = [[]]"
| "split_on sep (c # cs) =
    (if c = sep then [] # split_on sep cs
     else case split_on sep cs of [] \<Rightarrow> [[c]] | p # ps \<Rightarrow> (c # p) # ps)"

abbreviation newline :: char where "newline \<equiv> CHR 0x0A"

fun wrap_parts :: "(string \<Rightarrow> int) \<Rightarrow> int \<Rightarrow> string list \<Rightarrow> string list" where
  "wrap_parts cw width [] = []"
| "wrap_parts cw width [p] = wrap_segment cw p width"
| "wrap_parts cw width (p # ps) = wrap_segment cw p width @ [] # wrap_parts cw width ps"

definition wrap_cell :: "(string \<Rightarrow> int) \<Rightarrow> string \<Rightarrow> int \<Rightarrow> string list" where
  "wrap_cell cw txt width =
    (if width \<le> 0 then [txt]
     else let lines = wrap_parts cw width (split_on newline txt)
          in if lines = [] then [[]] else lines)"

section \<open>Rendering\<close>

definition pad :: "(string \<Rightarrow> int) \<Rightarrow> string \<Rightarrow> int \<Rightarrow> string" where
  "pad cw txt width =
    (let padding = width - cw txt in if padding \<le> 0 then txt else txt @ spaces padding)"

fun join_with :: "string \<Rightarrow> string list \<Rightarrow> string" where
  "join_with sep [] = []"
| "join_with sep [a] = a"
| "join_with sep (a # as) = a @ sep @ join_with sep as"

definition nth_or_empty :: "string list \<Rightarrow> nat \<Rightarrow> string" where
  "nth_or_empty xs i = (if i < length xs then xs ! i else [])"

text \<open>The lines of each cell of a row.\<close>

definition cell_lines :: "(string \<Rightarrow> int) \<Rightarrow> string list \<Rightarrow> int list \<Rightarrow> nat option \<Rightarrow> string list list" where
  "cell_lines cw row ws wrap_idx =
    map (\<lambda>(i, (c, w)). if wrap_idx = Some i then wrap_cell cw c w else [c])
      (enumerate 0 (zip row ws))"

definition joined_line :: "table \<Rightarrow> string list \<Rightarrow> string" where
  "joined_line t parts = spaces (tb_data_indent t) @ join_with (spaces (tb_data_seq_len t)) parts"

definition render_row ::
  "(string \<Rightarrow> int) \<Rightarrow> table \<Rightarrow> string list \<Rightarrow> int list \<Rightarrow> nat option \<Rightarrow> string list res" where
  "render_row cw t row ws wrap_idx =
    (if length ws < length row then Inl index_error
     else
       let cells = cell_lines cw row ws wrap_idx;
           max_lines = fold max (map length cells) 0
       in Inr (map (\<lambda>l. joined_line t
                 (map (\<lambda>(lines, w). pad cw (nth_or_empty lines l) w) (zip cells ws)))
               [0..<max_lines]))"

definition render_header_sep :: "table \<Rightarrow> int list \<Rightarrow> string" where
  "render_header_sep t ws =
    joined_line t (map (\<lambda>w. if 0 < w then repeat_str w (tb_header_seq t) else []) ws)"

fun render_rows ::
  "(string \<Rightarrow> int) \<Rightarrow> table \<Rightarrow> int list \<Rightarrow> nat option \<Rightarrow> string list list \<Rightarrow> string list res" where
  "render_rows cw t ws wrap_idx [] = Inr []"
| "render_rows cw t ws wrap_idx (row # rows) =
    (case render_row cw t row ws wrap_idx of
       Inl e \<Rightarrow> Inl e
     | Inr ls \<Rightarrow> map_sum id (\<lambda>rest. ls @ rest) (render_rows cw t ws wrap_idx rows))"

text \<open>The column widths and the wrapped column every way of printing starts with.\<close>

definition table_layout ::
  "(string \<Rightarrow> int) \<Rightarrow> (pyval \<Rightarrow> string) \<Rightarrow> int option \<Rightarrow> table \<Rightarrow> (int list \<times> nat option) res" where
  "table_layout cw py_str term t =
    map_sum id (resolve_wrap term t) (compute_col_widths cw (table_rows py_str t))"

definition data_lines ::
  "(string \<Rightarrow> int) \<Rightarrow> (pyval \<Rightarrow> string) \<Rightarrow> int option \<Rightarrow> table \<Rightarrow> string list res" where
  "data_lines cw py_str term t =
    (case table_layout cw py_str term t of
       Inl e \<Rightarrow> Inl e
     | Inr (ws, wrap_idx) \<Rightarrow>
         (case render_row cw t (hd (table_rows py_str t)) ws wrap_idx of
            Inl e \<Rightarrow> Inl e
          | Inr hs \<Rightarrow>
              map_sum id (\<lambda>ls. hs @ render_header_sep t ws # ls)
                (render_rows cw t ws wrap_idx (tl (table_rows py_str t)))))"

definition print_data ::
  "(string \<Rightarrow> int) \<Rightarrow> (pyval \<Rightarrow> string) \<Rightarrow> int option \<Rightarrow> table \<Rightarrow> string res" where
  "print_data cw py_str term t = map_sum id (join_with [newline]) (data_lines cw py_str term t)"

definition print_line ::
  "(string \<Rightarrow> int) \<Rightarrow> (pyval \<Rightarrow> string) \<Rightarrow> int option \<Rightarrow> pyval list \<Rightarrow> table \<Rightarrow> string res" where
  "print_line cw py_str term row t =
    (case table_layout cw py_str term t of
       Inl e \<Rightarrow> Inl e
     | Inr (ws, wrap_idx) \<Rightarrow>
         let n = length ws; cells = map (str_of py_str) row
         in map_sum id (join_with [newline])
              (render_row cw t (take n cells @ replicate (n - length cells) []) ws wrap_idx))"

definition print_title :: "(pyval \<Rightarrow> string) \<Rightarrow> table \<Rightarrow> string option" where
  "print_title py_str t =
    (case str_of py_str (tb_title t) of
       [] \<Rightarrow> None
     | c # cs \<Rightarrow>
         let title = (if \<not> is_upper c then upper_char c # map lower_char cs else c # cs);
             indent = spaces (tb_title_indent t)
         in Some (join_with [newline]
              [indent @ title, indent @ repeat_str (int (length title)) (tb_title_seq t)]))"

definition print_table ::
  "(string \<Rightarrow> int) \<Rightarrow> (pyval \<Rightarrow> string) \<Rightarrow> int option \<Rightarrow> table \<Rightarrow> string res" where
  "print_table cw py_str term t =
    map_sum id
      (\<lambda>d. let s = (case print_title py_str t of None \<Rightarrow> d | Some title \<Rightarrow> title @ [newline, newline] @ d)
           in if tb_header_footer t then newline # s @ [newline] else s)
      (print_data cw py_str term t)"

definition table_str ::
  "(string \<Rightarrow> int) \<Rightarrow> (pyval \<Rightarrow> string) \<Rightarrow> int option \<Rightarrow> table \<Rightarrow> string res" where
  "table_str cw py_str term t = print_table cw py_str term t"

end
