(* ===== verification/Mixins.thy ===== *)
theory Mixins
  imports TableFacts CommandFacts "HOL-Library.Multiset"
begin

text \<open>
  The commands every console starts with (\<open>commands/mixins.py\<close>): \<open>back\<close> and \<open>quit\<close>,
  which raise the exceptions the console manager reacts to, and \<open>help\<close>, which lists a
  console's commands in tables.
\<close>

definition run_back :: "unit res" where
  "run_back = Inl (PyExc SubConsoleExitC [])"

definition run_quit :: "unit res" where
  "run_quit = Inl (PyExc ConsoleExitC [])"

text \<open>
  The functions of the mixin classes among a command class's ancestors; \<open>mixin\<close> is the class
  \<open>CommandMixin\<close> itself.
\<close>

definition core_functions ::
  "members \<Rightarrow> (nat \<Rightarrow> bool) \<Rightarrow> (nat \<Rightarrow> bool) \<Rightarrow> nat \<Rightarrow> nat list \<Rightarrow> func_obj list" where
  "core_functions mems is_mixin is_commands mixin mro =
    concat (map (\<lambda>c. if c \<noteq> mixin \<and> is_mixin c \<and> \<not> is_commands c then map snd (mems c) else []) mro)"

definition is_core :: "func_obj list \<Rightarrow> func_obj \<Rightarrow> bool" where
  "is_core core f \<longleftrightarrow> fn_id f \<in> set (map fn_id core)"

definition help_row :: "string \<times> func_obj \<Rightarrow> pyval list res" where
  "help_row = (\<lambda>(name, f).
    case fn_info f of
      None \<Rightarrow> Inl (PyExc AttributeErrorC ''info'')
    | Some i \<Rightarrow> Inr [VStr name, VStr (ci_description i)])"

text \<open>The loop over \<open>command_funcs\<close>: the rows of the core and of the custom commands.\<close>

fun help_rows ::
  "func_obj list \<Rightarrow> (string \<times> func_obj) list \<Rightarrow> pyval list list \<times> pyval list list
   \<Rightarrow> (pyval list list \<times> pyval list list) res" where
  "help_rows core [] rows = Inr rows"
| "help_rows core (e # es) (base, custom) =
    (case help_row e of
       Inl x \<Rightarrow> Inl x
     | Inr row \<Rightarrow>
         help_rows core es
           (if is_core core (snd e) then (base @ [row], custom) else (base, custom @ [row])))"

definition help_table :: "(pyval \<Rightarrow> string) \<Rightarrow> string \<Rightarrow> pyval list list \<Rightarrow> table res" where
  "help_table py_str title rows =
    new_table py_str [VStr ''Command'', VStr ''Description''] rows (table_options\<lparr>tb_title := VStr title\<rparr>)"

text \<open>\<open>run_help\<close>: the tables it prints, in order.\<close>

definition run_help :: "(pyval \<Rightarrow> string) \<Rightarrow> func_obj list \<Rightarrow> base_commands \<Rightarrow> table list res" where
  "run_help py_str core b =
    (case help_rows core (bc_funcs b) ([], []) of
       Inl e \<Rightarrow> Inl e
     | Inr (base, custom) \<Rightarrow>
         fold_res (\<lambda>(title, rows) ts. map_sum id (\<lambda>t. ts @ [t]) (help_table py_str title rows))
           ((if base = [] then [] else [(''Core Commands'', base)]) @
            (if custom = [] then [] else [(''Custom Commands'', custom)])) [])"

section \<open>What help lists\<close>

definition row_of :: "string \<times> func_obj \<Rightarrow> pyval list" where
  "row_of e = [VStr (fst e), VStr (case fn_info (snd e) of None \<Rightarrow> [] | Some i \<Rightarrow> ci_description i)]"

lemma help_rows_eq:
  "\<forall>e \<in> set es. fn_info (snd e) \<noteq> None \<Longrightarrow>
    help_rows core es (base, custom) =
      Inr (base @ map row_of (filter (\<lambda>e. is_core core (snd e)) es),
           custom @ map row_of (filter (\<lambda>e. \<not> is_core core (snd e)) es))"
proof (induction core es "(base, custom)" arbitrary: base custom rule: help_rows.induct)
  case (2 core e es)
  obtain i where "fn_info (snd e) = Some i" using "2.prems" by auto
  then have "help_row e = Inr (row_of e)" by (cases e) (simp add: help_row_def row_of_def)
  with 2 show ?case by simp
qed simp

lemma mset_split:
  "mset (map f (filter P xs) @ map f (filter (\<lambda>x. \<not> P x) xs)) = mset (map f xs)"
  by (induction xs) simp_all

lemma row_of_length [simp]: "length (row_of e) = 2"
  by (simp add: row_of_def)

lemma help_table_data:
  assumes "\<forall>row \<in> set rows. length row = 2" and "rows \<noteq> []"
  obtains t where "help_table p title rows = Inr t" "tb_data t = rows" "built p t"
proof -
  let ?t = "table_options\<lparr>tb_title := VStr title, tb_header := [VStr ''Command'', VStr ''Description''], tb_data := rows\<rparr>"
  have "table_ok ?t" using assms(1) by (simp add: table_ok_def)
  then have "help_table p title rows = Inr (format_header p ?t)"
    by (simp add: help_table_def new_table_def settle_table_def normalize_data_same)
  then show ?thesis
    using that [of "format_header p ?t"] built.made [of p "[VStr ''Command'', VStr ''Description'']" rows
      "table_options\<lparr>tb_title := VStr title\<rparr>"] by (simp add: help_table_def)
qed

text \<open>Help lists every command once. When each function of the command table carries its
  information, \<open>help\<close> raises nothing and the rows of its tables, which print, are together the
  names of the table with their descriptions, the core commands before the others.\<close>

theorem help_lists_every_command:
  assumes "\<forall>e \<in> set (bc_funcs b). fn_info (snd e) \<noteq> None"
  shows "\<exists>ts. run_help py_str core b = Inr ts \<and> (\<forall>t \<in> set ts. \<exists>s. print_table cw py_str tw t = Inr s) \<and>
    mset (concat (map tb_data ts)) = mset (map row_of (bc_funcs b)) \<and>
    concat (map tb_data ts) = map row_of (filter (\<lambda>e. is_core core (snd e)) (bc_funcs b)) @
      map row_of (filter (\<lambda>e. \<not> is_core core (snd e)) (bc_funcs b))"
proof -
  define base where "base = map row_of (filter (\<lambda>e. is_core core (snd e)) (bc_funcs b))"
  define custom where "custom = map row_of (filter (\<lambda>e. \<not> is_core core (snd e)) (bc_funcs b))"
  have rows: "help_rows core (bc_funcs b) ([], []) = Inr (base, custom)"
    using help_rows_eq [OF assms] by (simp add: base_def custom_def)
  have prints: "\<exists>t. help_table py_str title rows = Inr t \<and> tb_data t = rows \<and>
      (\<exists>s. print_table cw py_str tw t = Inr s)" if "rows = base \<or> rows = custom" "rows \<noteq> []" for title rows
  proof -
    have "\<forall>row \<in> set rows. length row = 2" using that(1) by (auto simp: base_def custom_def)
    from help_table_data [OF this that(2)] obtain t where
      t: "help_table py_str title rows = Inr t" "tb_data t = rows" "built py_str t" by blast
    then show ?thesis using built_prints [OF t(3)] by blast
  qed
  have "\<exists>ts. run_help py_str core b = Inr ts \<and> (\<forall>t \<in> set ts. \<exists>s. print_table cw py_str tw t = Inr s) \<and>
      concat (map tb_data ts) = base @ custom"
    using prints [of base "''Core Commands''"] prints [of custom "''Custom Commands''"]
    by (cases "base = []"; cases "custom = []") (auto simp: run_help_def rows)
  moreover have "mset (base @ custom) = mset (map row_of (bc_funcs b))"
    unfolding base_def custom_def by (rule mset_split)
  ultimately show ?thesis unfolding base_def custom_def by metis
qed

text \<open>A command object with the inherited \<open>quit\<close> and a command of its own.\<close>

definition demo_help_func :: "nat \<Rightarrow> string \<Rightarrow> string \<Rightarrow> func_obj" where
  "demo_help_func k name description =
    \<lparr>fn_id = k, fn_name = name, fn_params = [],
     fn_info = Some (new_command_info name description None None NoAlias None NoExposure)\<rparr>"

definition demo_help_commands :: base_commands where
  "demo_help_commands = \<lparr>bc_console_name = ''root'', bc_defs = [], bc_by_name = [], bc_by_id = [],
     bc_funcs = [(''show'', demo_help_func 2 ''show'' ''Shows it''), (''quit'', demo_help_func 1 ''quit'' ''Quit Console'')],
     bc_completers = [], bc_validators = []\<rparr>"

lemma help_lists_every_command_witness:
  "\<exists>ts. run_help (\<lambda>_. []) [demo_help_func 1 ''quit'' ''Quit Console''] demo_help_commands = Inr ts \<and>
    concat (map tb_data ts) =
      [[VStr ''quit'', VStr ''Quit Console''], [VStr ''show'', VStr ''Shows it'']]"
proof -
  have "\<forall>e \<in> set (bc_funcs demo_help_commands). fn_info (snd e) \<noteq> None" by code_simp
  from help_lists_every_command [OF this, where py_str = "\<lambda>_. []" and cw = "\<lambda>_. 1" and tw = None
      and core = "[demo_help_func 1 ''quit'' ''Quit Console'']"]
  obtain ts where ts: "run_help (\<lambda>_. []) [demo_help_func 1 ''quit'' ''Quit Console''] demo_help_commands = Inr ts"
    "concat (map tb_data ts) =
      map row_of (filter (\<lambda>e. is_core [demo_help_func 1 ''quit'' ''Quit Console''] (snd e)) (bc_funcs demo_help_commands)) @
      map row_of (filter (\<lambda>e. \<not> is_core [demo_help_func 1 ''quit'' ''Quit Console''] (snd e)) (bc_funcs demo_help_commands))"
    by blast
  have "map row_of (filter (\<lambda>e. is_core [demo_help_func 1 ''quit'' ''Quit Console''] (snd e)) (bc_funcs demo_help_commands)) @
      map row_of (filter (\<lambda>e. \<not> is_core [demo_help_func 1 ''quit'' ''Quit Console''] (snd e)) (bc_funcs demo_help_commands)) =
      [[VStr ''quit'', VStr ''Quit Console''], [VStr ''show'', VStr ''Shows it'']]" by code_simp
  with ts show ?thesis by simp
qed

end
