(* ===== verification/ExampleApp.thy ===== *)
theory ExampleApp
  imports ConsoleFacts Mixins
begin

text \<open>
  The example application (\<open>commands/examples/\<close>, \<open>consoles/examples/\<close>): a root console and a
  sub console whose classes the library's decorators register, with the commands of
  \<open>commands/mixins.py\<close> and three of their own. A typed line is executed the way \<open>BaseConsole\<close>
  executes it without an executor, and the manager's loop does the rest; what the application
  does as a whole is a machine with two places.
\<close>

section \<open>Commands\<close>

text \<open>
  Command classes are numbers: \<open>GeneralValidator\<close> is 0, \<open>RootCommands\<close> 1, \<open>SubCommands\<close> 2,
  \<open>CommandMixin\<close> 3 and the mixins \<open>HelpMixin\<close>, \<open>QuitMixin\<close> and \<open>BackMixin\<close> 4 to 6. A method is
  declared with its number, its name and its parameters after \<open>self\<close>.
\<close>

definition plain_param :: param where
  "plain_param = \<lparr>pa_kind = POSITIONAL, pa_default = False\<rparr>"

definition declare_command :: "nat \<Rightarrow> string \<Rightarrow> param list \<Rightarrow> string \<Rightarrow> string \<Rightarrow> alias_arg \<Rightarrow> func_obj" where
  "declare_command i method params name description alias =
    projr (register_command \<lparr>fn_id = i, fn_name = method, fn_params = plain_param # params, fn_info = None\<rparr> name
      \<lparr>rg_console_cls = None, rg_commands_cls = None, rg_name = None, rg_description = description,
       rg_alias = alias, rg_style = LOWERCASE, rg_completer = NoClass, rg_validator = IsClass 0 True,
       rg_arg_spec = None, rg_exposure = NoExposure\<rparr>)"

definition help_method :: func_obj where
  "help_method = declare_command 1 ''run_help'' [] ''help'' ''Display help information'' (Aliases [''?''])"

definition quit_method :: func_obj where
  "quit_method = declare_command 2 ''run_quit'' [] ''quit'' ''Quit Console'' (Aliases [''exit'', ''q''])"

definition back_method :: func_obj where
  "back_method = declare_command 3 ''run_back'' [] ''back'' ''Back to forward tty'' NoAlias"

definition use_method :: func_obj where
  "use_method = declare_command 4 ''run_use'' [plain_param] ''use'' ''Enter sub console'' NoAlias"

definition root_debug_method :: func_obj where
  "root_debug_method = declare_command 5 ''run_debug'' [\<lparr>pa_kind = VAR_POSITIONAL, pa_default = False\<rparr>]
     ''debug'' ''Debug root console, display some information'' NoAlias"

definition sub_debug_method :: func_obj where
  "sub_debug_method = declare_command 6 ''run_debug'' [] ''debug'' ''Debug command, display some information'' (Aliases [])"

text \<open>The functions with command information among the members of a class, as \<open>dir\<close> orders them.\<close>

definition example_members :: members where
  "example_members c =
    (if c = 1 then [(''run_debug'', root_debug_method), (''run_help'', help_method), (''run_quit'', quit_method),
                    (''run_use'', use_method)]
     else if c = 2 then [(''run_back'', back_method), (''run_debug'', sub_debug_method), (''run_help'', help_method),
                         (''run_quit'', quit_method)]
     else if c = 4 then [(''run_help'', help_method)]
     else if c = 5 then [(''run_quit'', quit_method)]
     else if c = 6 then [(''run_back'', back_method)] else [])"

definition root_commands_mro :: "nat list" where
  "root_commands_mro = [1, 7, 4, 5, 3]"

definition sub_commands_mro :: "nat list" where
  "sub_commands_mro = [2, 7, 4, 5, 6, 3]"

text \<open>\<open>RootCommands\<close> lets undefined commands pass, \<open>SubCommands\<close> does not.\<close>

definition example_undefined :: "nat \<Rightarrow> bool" where
  "example_undefined c \<longleftrightarrow> c = 1"

section \<open>Consoles\<close>

text \<open>Console classes: \<open>RootConsole\<close> is 10 and \<open>ModuleConsole\<close> 11, \<open>MainConsole\<close>, \<open>SubConsole\<close> and
  \<open>BaseConsole\<close> are 20 to 22.\<close>

definition root_console :: console_class where
  "root_console = \<lparr>kc_id = 10, kc_name = ''RootConsole'', kc_module = ''python_tty.consoles.examples.root_console'',
     kc_console_name = Some ''root'', kc_CONSOLE_NAME = None, kc_kwargs = NoKwargs, kc_is_main = True, kc_is_sub = False\<rparr>"

definition module_console :: console_class where
  "module_console = \<lparr>kc_id = 11, kc_name = ''ModuleConsole'', kc_module = ''python_tty.consoles.examples.sub_console'',
     kc_console_name = Some ''module'', kc_CONSOLE_NAME = None, kc_kwargs = NoKwargs, kc_is_main = False, kc_is_sub = True\<rparr>"

definition root_message :: "(string \<times> string) list" where
  "root_message = [(''class:host'', ''vef1''), (''class:prompt'', '' ''), (''class:symbol'', ''>''), (''class:prompt'', '' '')]"

definition module_message :: "string option \<Rightarrow> (string \<times> string) list" where
  "module_message module_name =
    [(''class:host'', case module_name of None \<Rightarrow> ''module'' | Some n \<Rightarrow> n), (''class:prompt'', '' ''),
     (''class:symbol'', ''>''), (''class:prompt'', '' '')]"

definition console_mro :: "nat \<Rightarrow> nat list" where
  "console_mro k = (if k = 10 then [10, 20, 22] else if k = 11 then [11, 21, 22] else [k])"

text \<open>The two class statements: the decorators run from the inner to the outer one.\<close>

type_synonym registries = "((nat, nat) dict \<times> command_registry) \<times> console_registry"

definition decorate_commands :: "nat \<Rightarrow> nat \<Rightarrow> registries \<Rightarrow> registries res" where
  "decorate_commands c k s =
    (case commands_decorator console_mro (\<lambda>c. c \<in> {1, 2}) (\<lambda>k. k \<in> {10, 11}) c k (fst s) of
       (Inl e, _) \<Rightarrow> Inl e | (Inr _, a) \<Rightarrow> Inr (a, snd s))"

definition declare_root_console :: "registries \<Rightarrow> registries res" where
  "declare_root_console s =
    (case decorate_commands 1 10 s of
       Inl e \<Rightarrow> Inl e
     | Inr (a, g) \<Rightarrow> (case root_decorator root_console g of (Inl e, _) \<Rightarrow> Inl e | (Inr _, g) \<Rightarrow> Inr (a, g)))"

definition declare_module_console :: "registries \<Rightarrow> registries res" where
  "declare_module_console s =
    (case decorate_commands 2 11 s of
       Inl e \<Rightarrow> Inl e
     | Inr (a, g) \<Rightarrow> (case sub_decorator (Some ''root'') module_console g of (Inl e, _) \<Rightarrow> Inl e | (Inr _, g) \<Rightarrow> Inr (a, g)))"

definition example_registries :: "registries res" where
  "example_registries =
    (case declare_root_console (([], new_command_registry), new_console_registry) of
       Inl e \<Rightarrow> Inl e | Inr s \<Rightarrow> declare_module_console s)"

text \<open>\<open>sess\<close> gives the prompt session of a console; \<open>GeneralValidator\<close> takes two or three arguments.\<close>

definition example_env :: "(console_class \<Rightarrow> ui_session) \<Rightarrow> console_env" where
  "example_env sess =
    \<lparr>ce_mk = (\<lambda>_ n. if n \<in> {2, 3} then Inr 0 else Inl (PyExc TypeErrorC ''__init__'')), ce_members = example_members,
     ce_attr = class_attr console_mro (fst (fst (projr example_registries))), ce_init = (\<lambda>_. Inr None), ce_default = 8,
     ce_session = (\<lambda>k _. Inr (sess k))\<rparr>"

text \<open>A manager that knows the registered consoles.\<close>

definition example_manager :: "output_router option \<Rightarrow> bool \<Rightarrow> nat list option \<Rightarrow> console_manager" where
  "example_manager router has_shutdown listeners =
    snd (register_all (snd (projr example_registries))
      (new_console_manager router has_shutdown listeners (snd (fst (projr example_registries)))))"

section \<open>Running a line\<close>

text \<open>
  What a line prints: on standard output, through \<open>proxy_print\<close>, or as tables. The application
  around is what it needs from outside: how values are shown, and the service's text.
\<close>

datatype example_output = Stdout string | Proxy string level_arg | Tables "table list"

type_synonym line_result = "example_output list \<times> turn"

record example_app =
  ea_py_str :: "pyval \<Rightarrow> string"
  ea_service :: string

definition no_turn :: turn where
  "no_turn = ([], Inr ())"

definition run_use :: "string \<Rightarrow> console_manager option \<Rightarrow> line_result" where
  "run_use name manager =
    (case manager of
       None \<Rightarrow> ([Proxy ''Console manager not configured'' (Level WARNING)], no_turn)
     | Some m \<Rightarrow>
         if \<not> is_registered name m
         then ([Proxy (''Console ['' @ name @ ''] not registered'') (Level ERROR)], no_turn)
         else ([], [CallPush name []], Inr ()))"

definition run_root_debug :: "example_app \<Rightarrow> line_result" where
  "run_root_debug a = ([Proxy (ea_service a) (Level TEXT)], no_turn)"

definition run_sub_debug :: line_result where
  "run_sub_debug = ([], no_turn)"

definition example_core :: "nat list \<Rightarrow> func_obj list" where
  "example_core = core_functions example_members (\<lambda>c. c \<in> {3, 4, 5, 6} \<or> c \<in> {1, 2}) (\<lambda>c. c \<in> {1, 2, 7}) 3"

definition run_example_help :: "example_app \<Rightarrow> nat list \<Rightarrow> base_commands \<Rightarrow> line_result" where
  "run_example_help a mro b =
    (case run_help (ea_py_str a) (example_core mro) b of
       Inl e \<Rightarrow> ([], [], Inl e) | Inr ts \<Rightarrow> ([Tables ts], no_turn))"

text \<open>Calling a method of the commands: Python binds the arguments first.\<close>

definition example_call ::
  "example_app \<Rightarrow> console_manager \<Rightarrow> console \<Rightarrow> func_obj \<Rightarrow> string list \<Rightarrow> line_result" where
  "example_call a m c f args =
    (if \<not> binds (tl (fn_params f)) (length args)
     then ([], [], Inl (PyExc TypeErrorC (fn_name f @ ''() got the wrong number of arguments'')))
     else if f = help_method
     then run_example_help a (if kc_id (co_cls c) = 10 then root_commands_mro else sub_commands_mro) (co_commands c)
     else if f = quit_method then ([], [], run_quit)
     else if f = back_method then ([], [], run_back)
     else if f = use_method then run_use (hd args) (Some m)
     else if f = root_debug_method then run_root_debug a
     else run_sub_debug)"

text \<open>\<open>cmd_invoke_miss\<close>: \<open>RootConsole\<close> prints the line, \<open>ModuleConsole\<close> inherits the empty method.\<close>

definition invoke_miss :: "console \<Rightarrow> string \<Rightarrow> example_output list" where
  "invoke_miss c cmd = (if kc_id (co_cls c) = 10 then [Stdout (''Invoke os shell command ['' @ cmd @ '']'')] else [])"

text \<open>
  \<open>execute\<close> on the current console. What it pushes raises no \<open>ValueError\<close> here, so the outcome of the
  command alone passes through its \<open>except\<close> clause.
\<close>

definition example_line :: "example_app \<Rightarrow> console_manager \<Rightarrow> string \<Rightarrow> line_result" where
  "example_line a m line =
    (case current m of
       None \<Rightarrow> ([], no_turn)
     | Some c \<Rightarrow>
         (case console_execute c line of
            Ignored \<Rightarrow> ([], no_turn)
          | Missed cmd \<Rightarrow> (invoke_miss c cmd, no_turn)
          | Runs iv (Inl e) \<Rightarrow> ([], [], execute_outcome (Inl e))
          | Runs iv (Inr (f, args)) \<Rightarrow>
              (case example_call a m c f args of (outs, calls, r) \<Rightarrow> (outs, calls, execute_outcome r))))"

text \<open>
  The manager's loop over typed lines: one turn each, until it ends. \<open>None\<close> when it waits for the
  next line.
\<close>

fun example_loop ::
  "example_app \<Rightarrow> console_env \<Rightarrow> string list \<Rightarrow> console_manager
   \<Rightarrow> example_output list \<times> unit res option \<times> console_manager" where
  "example_loop a ce [] m = ([], console_loop ce [] m)"
| "example_loop a ce (l # ls) m =
    (case example_line a (bind_output_router m) l of
       (outs, t) \<Rightarrow>
         (case console_loop ce [t] m of
            (Some r, m1) \<Rightarrow> (outs, Some r, m1)
          | (None, m1) \<Rightarrow> (case example_loop a ce ls m1 of (outs', x) \<Rightarrow> (outs @ outs', x))))"

text \<open>The program: the manager runs its root console.\<close>

definition example_main ::
  "example_app \<Rightarrow> (console_class \<Rightarrow> ui_session) \<Rightarrow> output_router option \<Rightarrow> bool \<Rightarrow> nat list option \<Rightarrow> string list
   \<Rightarrow> example_output list \<times> unit res option \<times> console_manager" where
  "example_main a sess router has_shutdown listeners lines =
    (let ce = example_env sess; m = example_manager router has_shutdown listeners
     in case mn_root_name m of
          None \<Rightarrow> ([], Some (Inl (PyExc ConsoleInitExceptionC ''Root console not registered'')), m)
        | Some name \<Rightarrow>
            (case push ce name [] m of
               (Inl e, m1) \<Rightarrow> ([], Some (Inl e), m1)
             | (Inr _, m1) \<Rightarrow> example_loop a ce lines m1))"

section \<open>What it promises\<close>

text \<open>
  The specification: a machine with two places. A line counts by its first word and the arguments
  after it; a command goes by its names and by its id.
\<close>

datatype place = AtRoot | AtModule

datatype progress = Prompt place | Left_normally | Crashed exc_class

definition place_name :: "place \<Rightarrow> string" where
  "place_name p = (case p of AtRoot \<Rightarrow> ''root'' | AtModule \<Rightarrow> ''module'')"

definition called :: "place \<Rightarrow> string \<Rightarrow> string list \<Rightarrow> bool" where
  "called p w names \<longleftrightarrow> w \<in> set names \<or> w = build_command_id (place_name p) (hd names)"

definition no_arguments :: "string list \<Rightarrow> progress \<Rightarrow> progress" where
  "no_arguments args r = (if args = [] then r else Crashed TypeErrorC)"

definition use_step :: "string list \<Rightarrow> progress" where
  "use_step args =
    (case args of
       [n] \<Rightarrow> if n = ''module'' then Prompt AtModule
              else if n = ''root'' then Crashed ConsoleInitExceptionC else Prompt AtRoot
     | _ \<Rightarrow> Crashed TypeErrorC)"

definition example_step :: "place \<Rightarrow> string \<Rightarrow> string list \<Rightarrow> progress" where
  "example_step p w args =
    (if called p w [''quit'', ''exit'', ''q''] then no_arguments args Left_normally
     else if called p w [''help'', ''?''] then no_arguments args (Prompt p)
     else if p = AtRoot then if called p w [''use''] then use_step args else Prompt p
     else if called p w [''back''] then no_arguments args (Prompt AtRoot)
     else if called p w [''debug''] then no_arguments args (Prompt p)
     else Prompt p)"

definition line_words :: "string \<Rightarrow> (string \<times> string list) option" where
  "line_words line =
    (case split_cmd line of
       Inl _ \<Rightarrow> None
     | Inr (w, t, _) \<Rightarrow>
         if w = [] then None else (case tokenize_cmd t of Inl _ \<Rightarrow> None | Inr args \<Rightarrow> Some (w, args)))"

definition line_step :: "place \<Rightarrow> string \<Rightarrow> progress" where
  "line_step p line = (case line_words line of None \<Rightarrow> Prompt p | Some (w, args) \<Rightarrow> example_step p w args)"

fun progress_after :: "place \<Rightarrow> string list \<Rightarrow> progress" where
  "progress_after p [] = Prompt p"
| "progress_after p (l # ls) = (case line_step p l of Prompt p' \<Rightarrow> progress_after p' ls | r \<Rightarrow> r)"

section \<open>The tables of the two consoles\<close>

definition example_registry :: command_registry where
  "example_registry = snd (fst (projr example_registries))"

definition member_of :: "func_obj \<Rightarrow> command_def" where
  "member_of f = the (member_def (fn_name f, f))"

definition example_table :: "place \<Rightarrow> base_commands" where
  "example_table p =
    (let ce = example_env (\<lambda>_. (None, None))
     in projr (fst (build_commands ce (case p of AtRoot \<Rightarrow> root_console | AtModule \<Rightarrow> module_console) example_registry)))"

definition root_defs :: "command_def list" where
  "root_defs = map member_of [root_debug_method, help_method, quit_method, use_method]"

definition module_defs :: "command_def list" where
  "module_defs = map member_of [back_method, sub_debug_method, help_method, quit_method]"

lemma member_funcs [simp]:
  "cd_func (member_of help_method) = help_method" "cd_func (member_of quit_method) = quit_method"
  "cd_func (member_of back_method) = back_method" "cd_func (member_of use_method) = use_method"
  "cd_func (member_of root_debug_method) = root_debug_method" "cd_func (member_of sub_debug_method) = sub_debug_method"
  "cd_func_name (member_of help_method) = ''help''" "cd_func_name (member_of quit_method) = ''quit''"
  "cd_func_name (member_of back_method) = ''back''" "cd_func_name (member_of use_method) = ''use''"
  "cd_func_name (member_of root_debug_method) = ''debug''" "cd_func_name (member_of sub_debug_method) = ''debug''"
  by code_simp+

lemma method_params [simp]:
  "tl (fn_params help_method) = []" "tl (fn_params quit_method) = []" "tl (fn_params back_method) = []"
  "tl (fn_params use_method) = [plain_param]" "tl (fn_params sub_debug_method) = []"
  "tl (fn_params root_debug_method) = [\<lparr>pa_kind = VAR_POSITIONAL, pa_default = False\<rparr>]"
  by code_simp+

lemma methods_differ [simp]:
  "quit_method \<noteq> help_method" "back_method \<noteq> help_method" "back_method \<noteq> quit_method"
  "use_method \<noteq> help_method" "use_method \<noteq> quit_method" "use_method \<noteq> back_method"
  "root_debug_method \<noteq> help_method" "root_debug_method \<noteq> quit_method" "root_debug_method \<noteq> back_method"
  "root_debug_method \<noteq> use_method" "sub_debug_method \<noteq> help_method" "sub_debug_method \<noteq> quit_method"
  "sub_debug_method \<noteq> back_method" "sub_debug_method \<noteq> use_method" "sub_debug_method \<noteq> root_debug_method"
  by code_simp+

lemma member_names [simp]:
  "all_names (member_of help_method) = [''help'', ''?'']" "all_names (member_of quit_method) = [''quit'', ''exit'', ''q'']"
  "all_names (member_of back_method) = [''back'']" "all_names (member_of use_method) = [''use'']"
  "all_names (member_of root_debug_method) = [''debug'']" "all_names (member_of sub_debug_method) = [''debug'']"
  by code_simp+

lemma member_parts [simp]:
  assumes "f \<in> {help_method, quit_method, back_method, use_method, root_debug_method, sub_debug_method}"
  shows "cd_completer (member_of f) = None" "cd_validator (member_of f) = Some 0"
proof -
  have "list_all (\<lambda>f. cd_completer (member_of f) = None \<and> cd_validator (member_of f) = Some 0)
    [help_method, quit_method, back_method, use_method, root_debug_method, sub_debug_method]" by code_simp
  then show "cd_completer (member_of f) = None" "cd_validator (member_of f) = Some 0" using assms by auto
qed

text \<open>A command registry in which the decorators' bindings stand and perhaps some members are collected.\<close>

definition registry_ok :: "command_registry \<Rightarrow> bool" where
  "registry_ok r \<longleftrightarrow> get_commands_cls r 10 = Some 1 \<and> get_commands_cls r 11 = Some 2 \<and> cr_console_defs r = [] \<and>
    map_of (cr_commands_defs r) 1 \<in> {None, Some root_defs} \<and> map_of (cr_commands_defs r) 2 \<in> {None, Some module_defs}"

definition place_console :: "place \<Rightarrow> console_class" where
  "place_console p = (case p of AtRoot \<Rightarrow> root_console | AtModule \<Rightarrow> module_console)"

lemma example_collected:
  "List.map_filter member_def (example_members 1) = root_defs"
  "List.map_filter member_def (example_members 2) = module_defs"
  by code_simp+

lemma registry_initial: "registry_ok example_registry"
  by code_simp

lemma collect_example:
  assumes "registry_ok r"
  shows "\<exists>r'. collect_from_commands_cls example_members 1 r = (root_defs, r') \<and> registry_ok r'"
    "\<exists>r'. collect_from_commands_cls example_members 2 r = (module_defs, r') \<and> registry_ok r'"
  using assms
  by (auto simp: collect_from_commands_cls_def registry_ok_def example_collected get_commands_cls_def dict_simps
      Let_def simp del: One_nat_def split: option.splits)

lemma example_attr:
  "ce_attr (example_env sess) 10 = Some 1" "ce_attr (example_env sess) 11 = Some 2"
proof -
  have "class_attr console_mro (fst (fst (projr example_registries))) 10 = Some 1"
    "class_attr console_mro (fst (fst (projr example_registries))) 11 = Some 2" by code_simp+
  then show "ce_attr (example_env sess) 10 = Some 1" "ce_attr (example_env sess) 11 = Some 2"
    by (simp_all add: example_env_def)
qed

definition example_defs :: "place \<Rightarrow> command_def list" where
  "example_defs p = (case p of AtRoot \<Rightarrow> root_defs | AtModule \<Rightarrow> module_defs)"

lemma build_example:
  assumes "registry_ok r"
  shows "\<exists>r'. build_commands (example_env sess) (place_console p) r =
    (fold_res (map_components (ce_mk (example_env sess))) (example_defs p)
      \<lparr>bc_console_name = place_name p, bc_defs = example_defs p, bc_by_name = [], bc_by_id = [], bc_funcs = [],
       bc_completers = [], bc_validators = []\<rparr>, r') \<and> registry_ok r'"
proof -
  have ne: "root_defs \<noteq> []" "module_defs \<noteq> []" by (simp_all add: root_defs_def module_defs_def)
  have name: "class_console_name root_console = ''root''" "class_console_name module_console = ''module''"
    "kc_id root_console = 10" "kc_id module_console = 11" by code_simp+
  have mems: "ce_members (example_env sess) = example_members" by (simp add: example_env_def)
  have r: "get_commands_cls r 10 = Some 1" "get_commands_cls r 11 = Some 2" "cr_console_defs r = []"
    using assms by (simp_all add: registry_ok_def)
  have cd: "registry_ok r' \<Longrightarrow> dict_get_or (cr_console_defs r') k [] = []" for r' k
    by (simp add: registry_ok_def dict_get_or_def)
  show ?thesis
  proof (cases p)
    case AtRoot
    obtain r' where r': "collect_from_commands_cls example_members 1 r = (root_defs, r')" "registry_ok r'"
      using collect_example(1) [OF assms] by blast
    then show ?thesis
      using AtRoot r ne name cd [OF r'(2)]
      by (simp add: build_commands_def place_console_def example_attr new_base_commands_def mems place_name_def
          get_command_defs_for_console_def example_defs_def)
  next
    case AtModule
    obtain r' where r': "collect_from_commands_cls example_members 2 r = (module_defs, r')" "registry_ok r'"
      using collect_example(2) [OF assms] by blast
    then show ?thesis
      using AtModule r ne name cd [OF r'(2)]
      by (simp add: build_commands_def place_console_def example_attr new_base_commands_def mems place_name_def
          get_command_defs_for_console_def example_defs_def)
  qed
qed

text \<open>The tables, whatever the registry had collected.\<close>

lemma example_fold:
  "\<exists>b. fold_res (map_components (ce_mk (example_env sess))) (example_defs p)
      \<lparr>bc_console_name = place_name p, bc_defs = example_defs p, bc_by_name = [], bc_by_id = [], bc_funcs = [],
       bc_completers = [], bc_validators = []\<rparr> = Inr b \<and>
    bc_funcs b = map (\<lambda>(n, d). (n, cd_func d)) (bc_by_name b) \<and>
    bc_validators b = map (\<lambda>(n, d). (n, Some 0)) (bc_by_name b) \<and>
    (p = AtRoot \<longrightarrow>
      bc_by_name b = [(''debug'', member_of root_debug_method), (''help'', member_of help_method),
        (''?'', member_of help_method), (''quit'', member_of quit_method), (''exit'', member_of quit_method),
        (''q'', member_of quit_method), (''use'', member_of use_method)] \<and>
      bc_by_id b = [(''cmd:root:debug'', member_of root_debug_method), (''cmd:root:help'', member_of help_method),
        (''cmd:root:quit'', member_of quit_method), (''cmd:root:use'', member_of use_method)]) \<and>
    (p = AtModule \<longrightarrow>
      bc_by_name b = [(''back'', member_of back_method), (''debug'', member_of sub_debug_method),
        (''help'', member_of help_method), (''?'', member_of help_method), (''quit'', member_of quit_method),
        (''exit'', member_of quit_method), (''q'', member_of quit_method)] \<and>
      bc_by_id b = [(''cmd:module:back'', member_of back_method), (''cmd:module:debug'', member_of sub_debug_method),
        (''cmd:module:help'', member_of help_method), (''cmd:module:quit'', member_of quit_method)])"
proof -
  have mk: "ce_mk (example_env sess) c 3 = Inr 0" for c by (simp add: example_env_def)
  show ?thesis
    by (cases p)
      (simp_all add: example_defs_def root_defs_def module_defs_def map_components_def map_name_def build_validator_def
        mk def_command_id_def build_command_id_def place_name_def)
qed

lemma build_table:
  assumes "registry_ok r"
  shows "\<exists>r'. build_commands (example_env sess) (place_console p) r = (Inr (example_table p), r') \<and> registry_ok r'"
proof -
  let ?base = "\<lparr>bc_console_name = place_name p, bc_defs = example_defs p, bc_by_name = [], bc_by_id = [],
    bc_funcs = [], bc_completers = [], bc_validators = []\<rparr>"
  have mk: "ce_mk (example_env s) = ce_mk (example_env s')" for s s' by (simp add: example_env_def)
  have "fold_res (map_components (ce_mk (example_env sess))) (example_defs p) ?base = Inr (example_table p)"
    using build_example [OF registry_initial, of "\<lambda>_. (None, None)" p] example_fold [of "\<lambda>_. (None, None)" p]
      mk [of sess "\<lambda>_. (None, None)"] by (auto simp: example_table_def place_console_def [symmetric])
  then show ?thesis using build_example [OF assms, of sess p] by simp
qed

lemma example_tables:
  "bc_funcs (example_table p) = map (\<lambda>(n, d). (n, cd_func d)) (bc_by_name (example_table p))"
  "bc_validators (example_table p) = map (\<lambda>(n, d). (n, Some 0)) (bc_by_name (example_table p))"
  "bc_by_name (example_table AtRoot) =
    [(''debug'', member_of root_debug_method), (''help'', member_of help_method), (''?'', member_of help_method),
     (''quit'', member_of quit_method), (''exit'', member_of quit_method), (''q'', member_of quit_method),
     (''use'', member_of use_method)]"
  "bc_by_id (example_table AtRoot) =
    [(''cmd:root:debug'', member_of root_debug_method), (''cmd:root:help'', member_of help_method),
     (''cmd:root:quit'', member_of quit_method), (''cmd:root:use'', member_of use_method)]"
  "bc_by_name (example_table AtModule) =
    [(''back'', member_of back_method), (''debug'', member_of sub_debug_method), (''help'', member_of help_method),
     (''?'', member_of help_method), (''quit'', member_of quit_method), (''exit'', member_of quit_method),
     (''q'', member_of quit_method)]"
  "bc_by_id (example_table AtModule) =
    [(''cmd:module:back'', member_of back_method), (''cmd:module:debug'', member_of sub_debug_method),
     (''cmd:module:help'', member_of help_method), (''cmd:module:quit'', member_of quit_method)]"
proof -
  have "fold_res (map_components (ce_mk (example_env (\<lambda>_. (None, None))))) (example_defs p)
      \<lparr>bc_console_name = place_name p, bc_defs = example_defs p, bc_by_name = [], bc_by_id = [], bc_funcs = [],
       bc_completers = [], bc_validators = []\<rparr> = Inr (example_table p)" for p
    using build_example [OF registry_initial, of "\<lambda>_. (None, None)" p] example_fold [of "\<lambda>_. (None, None)" p]
    by (auto simp: example_table_def place_console_def [symmetric])
  note t = this
  show "bc_funcs (example_table p) = map (\<lambda>(n, d). (n, cd_func d)) (bc_by_name (example_table p))"
    "bc_validators (example_table p) = map (\<lambda>(n, d). (n, Some 0)) (bc_by_name (example_table p))"
    using example_fold [of "\<lambda>_. (None, None)" p] by (auto simp: t)
  show "bc_by_name (example_table AtRoot) =
    [(''debug'', member_of root_debug_method), (''help'', member_of help_method), (''?'', member_of help_method),
     (''quit'', member_of quit_method), (''exit'', member_of quit_method), (''q'', member_of quit_method),
     (''use'', member_of use_method)]"
  "bc_by_id (example_table AtRoot) =
    [(''cmd:root:debug'', member_of root_debug_method), (''cmd:root:help'', member_of help_method),
     (''cmd:root:quit'', member_of quit_method), (''cmd:root:use'', member_of use_method)]"
  "bc_by_name (example_table AtModule) =
    [(''back'', member_of back_method), (''debug'', member_of sub_debug_method), (''help'', member_of help_method),
     (''?'', member_of help_method), (''quit'', member_of quit_method), (''exit'', member_of quit_method),
     (''q'', member_of quit_method)]"
  "bc_by_id (example_table AtModule) =
    [(''cmd:module:back'', member_of back_method), (''cmd:module:debug'', member_of sub_debug_method),
     (''cmd:module:help'', member_of help_method), (''cmd:module:quit'', member_of quit_method)]"
    using example_fold [of "\<lambda>_. (None, None)" AtRoot] example_fold [of "\<lambda>_. (None, None)" AtModule]
    by (simp_all add: t)
qed

section \<open>At a prompt\<close>

definition console_info :: "console \<Rightarrow> string \<times> console_class \<times> base_commands" where
  "console_info c = (co_name c, co_cls c, co_commands c)"

definition place_info :: "place \<Rightarrow> string \<times> console_class \<times> base_commands" where
  "place_info p = (place_name p, place_console p, example_table p)"

definition places_below :: "place \<Rightarrow> place list" where
  "places_below p = (case p of AtRoot \<Rightarrow> [AtRoot] | AtModule \<Rightarrow> [AtRoot, AtModule])"

definition names_ok :: "console_manager \<Rightarrow> bool" where
  "names_ok m \<longleftrightarrow> stack_ok m \<and> \<not> mn_shutdown_called m \<and> registry_ok (mn_commands m) \<and>
    mn_registry m = [(''root'', root_console, []), (''module'', module_console, [])]"

definition place_ok :: "place \<Rightarrow> console_manager \<Rightarrow> bool" where
  "place_ok p m \<longleftrightarrow> names_ok m \<and> map console_info (mn_stack m) = map place_info (places_below p)"

lemma place_current:
  assumes "place_ok p m"
  shows "\<exists>c. current m = Some c \<and> console_info c = place_info p \<and> mn_stack m = butlast (mn_stack m) @ [c]"
proof -
  have st: "map console_info (mn_stack m) = map place_info (places_below p)" using assms by (simp add: place_ok_def)
  have ne: "mn_stack m \<noteq> []" using st by (cases p) (auto simp: places_below_def)
  then have "console_info (last (mn_stack m)) = last (map console_info (mn_stack m))" by (simp add: last_map)
  also have "\<dots> = place_info p" unfolding st by (cases p) (simp_all add: places_below_def)
  finally show ?thesis using ne by (simp add: current_def)
qed

lemma place_bind [simp]: "place_ok p (bind_output_router m) = place_ok p m" "names_ok (bind_output_router m) = names_ok m"
  by (simp_all add: place_ok_def names_ok_def) (simp_all add: bind_output_router_def)

text \<open>A push that \<open>check_parent\<close> lets pass.\<close>

lemma push_place:
  assumes ok: "names_ok m" and par: "check_parent (place_console p) (map_option co_id (current m)) = Inr ()"
  shows "\<exists>m1. push (example_env sess) (place_name p) [] m = (Inr (), m1) \<and> names_ok m1 \<and>
    map console_info (mn_stack m1) = map console_info (mn_stack m) @ [place_info p]"
proof -
  let ?i = "mn_next m"
  let ?m = "m\<lparr>mn_next := Suc ?i, mn_forward := Some ?i\<rparr>"
  obtain r where r: "build_commands (example_env sess) (place_console p) (mn_commands ?m) = (Inr (example_table p), r)"
    "registry_ok r"
    using build_table [of "mn_commands ?m" sess p] ok by (auto simp: names_ok_def)
  have look: "map_of (mn_registry m) (place_name p) = Some (place_console p, [])"
    using ok by (cases p) (simp_all add: names_ok_def place_name_def place_console_def)
  have s: "ce_session (example_env sess) k kw = Inr (sess k)" for k kw by (simp add: example_env_def)
  let ?c = "\<lparr>co_id = ?i, co_name = class_console_name (place_console p), co_cls = place_console p,
    co_parent = map_option co_id (current m), co_session = sess (place_console p), co_commands = example_table p\<rparr>"
  let ?m1 = "?m\<lparr>mn_commands := r, mn_listeners := map_option (\<lambda>l. l @ [?i]) (mn_listeners ?m)\<rparr>"
  let ?m2 = "bind_output_router (?m1\<lparr>mn_stack := mn_stack ?m1 @ [?c\<lparr>co_name := place_name p\<rparr>]\<rparr>)"
  have "new_console (example_env sess) (place_console p) [] (map_option co_id (current m)) m = (Inr ?c, ?m1)"
    using r(1) by (simp add: new_console_def par s Let_def)
  then have push: "push (example_env sess) (place_name p) [] m = (Inr (), ?m2)" by (simp add: push_def look)
  have "stack_ok ?m2" using stack_ok_push [of m "example_env sess" "place_name p" "[]"] ok push by (simp add: names_ok_def)
  then have "names_ok ?m2" using ok r(2) by (simp add: names_ok_def) (simp add: bind_output_router_def)
  then show ?thesis using push by (intro exI [of _ ?m2]) (simp add: console_info_def place_info_def)
qed

lemma console_kinds [simp]:
  "kc_is_main root_console" "\<not> kc_is_sub root_console" "\<not> kc_is_main module_console" "kc_is_sub module_console"
  "kc_id root_console = 10" "kc_id module_console = 11"
  by (simp_all add: root_console_def module_console_def)

lemma push_module:
  assumes "place_ok AtRoot m"
  shows "\<exists>m1. push (example_env sess) ''module'' [] m = (Inr (), m1) \<and> place_ok AtModule m1"
proof -
  have "check_parent (place_console AtModule) (map_option co_id (current m)) = Inr ()"
    using place_current [OF assms] by (auto simp: check_parent_def place_console_def)
  moreover have "names_ok m" using assms by (simp add: place_ok_def)
  ultimately show ?thesis
    using push_place [of m AtModule sess] assms by (auto simp: place_ok_def places_below_def place_name_def)
qed

lemma push_root_refused:
  assumes "place_ok p m"
  shows "push (example_env sess) ''root'' [] m = (Inl (PyExc ConsoleInitExceptionC ''MainConsole parent must be None''), m)"
proof -
  obtain c where "current m = Some c" using place_current [OF assms] by blast
  moreover have "mn_registry m = [(''root'', root_console, []), (''module'', module_console, [])]"
    using assms by (simp add: place_ok_def names_ok_def)
  ultimately show ?thesis by (simp add: push_def new_console_def check_parent_def)
qed

lemma place_pop:
  assumes "place_ok AtModule m"
  shows "\<exists>m1. pop m = (Inr (), m1) \<and> place_ok AtRoot m1"
proof -
  have ok: "stack_ok m" "names_ok m" using assms by (simp_all add: place_ok_def names_ok_def)
  obtain m1 where m1: "pop m = (Inr (), m1)" "pop_result m m1"
    using pop_ok [OF ok(1)] by (cases "pop m") simp
  have "mn_stack m1 = butlast (mn_stack m)" using pop_stack [of m] m1(1) by simp
  moreover have "mn_registry (snd (pop m)) = mn_registry m \<and> mn_commands (snd (pop m)) = mn_commands m"
    by (auto simp: pop_def clean_console_def bind_output_router_def Let_def split: option.splits if_splits)
  ultimately show ?thesis
    using assms ok m1 by (auto simp: place_ok_def names_ok_def pop_result_def places_below_def map_butlast)
qed

lemma example_manager_facts:
  "mn_registry (example_manager ro hs ls) = [(''root'', root_console, []), (''module'', module_console, [])]"
  "mn_root_name (example_manager ro hs ls) = Some ''root''" "mn_stack (example_manager ro hs ls) = []"
  "mn_commands (example_manager ro hs ls) = example_registry" "\<not> mn_shutdown_called (example_manager ro hs ls)"
  "mn_listeners (example_manager ro hs ls) = ls"
proof -
  have g: "snd (projr example_registries) = \<lparr>cg_root_cls = Some root_console, cg_root_name = Some ''root'',
      cg_subs = [(''module'', \<lparr>se_cls = module_console, se_parent = ''root'', se_name = ''module''\<rparr>)]\<rparr>"
    by code_simp
  have k: "get_console_kwargs root_console = Inr []" "get_console_kwargs module_console = Inr []" by code_simp+
  show "mn_registry (example_manager ro hs ls) = [(''root'', root_console, []), (''module'', module_console, [])]"
    "mn_root_name (example_manager ro hs ls) = Some ''root''" "mn_stack (example_manager ro hs ls) = []"
    "mn_commands (example_manager ro hs ls) = example_registry" "\<not> mn_shutdown_called (example_manager ro hs ls)"
    "mn_listeners (example_manager ro hs ls) = ls"
    by (simp_all add: example_manager_def g register_all_def k new_console_manager_def orphan_def
        example_registry_def Let_def)
qed

lemma start_example:
  assumes "ls = None \<or> ls = Some []"
  shows "\<exists>m1. push (example_env sess) ''root'' [] (example_manager ro hs ls) = (Inr (), m1) \<and> place_ok AtRoot m1"
proof -
  let ?m = "example_manager ro hs ls"
  note f = example_manager_facts [of ro hs ls]
  have "stack_ok ?m" using assms f(3,6) by (auto simp: stack_ok_def)
  then have "names_ok ?m" using f by (simp add: names_ok_def registry_initial)
  moreover have "check_parent (place_console AtRoot) (map_option co_id (current ?m)) = Inr ()"
    by (simp add: check_parent_def place_console_def current_def f)
  ultimately show ?thesis
    using push_place [of ?m AtRoot sess] f(3) by (auto simp: place_ok_def places_below_def place_name_def)
qed

section \<open>A line is a step\<close>

text \<open>What a typed line runs: a method found under a name or an id, with the words after it.\<close>

definition table_find :: "place \<Rightarrow> string \<Rightarrow> func_obj option" where
  "table_find p w = map_option cd_func (get_command_def (example_table p) w)"

lemma command_ids:
  "build_command_id ''root'' n = ''cmd:root:'' @ n" "build_command_id ''module'' n = ''cmd:module:'' @ n"
  by (simp_all add: build_command_id_def)

lemma table_find_root:
  "table_find AtRoot w =
    (if called AtRoot w [''quit'', ''exit'', ''q''] then Some quit_method
     else if called AtRoot w [''help'', ''?''] then Some help_method
     else if called AtRoot w [''use''] then Some use_method
     else if called AtRoot w [''debug''] then Some root_debug_method else None)"
  by (auto simp: table_find_def get_command_def_def example_tables called_def command_ids place_name_def)

lemma table_find_module:
  "table_find AtModule w =
    (if called AtModule w [''quit'', ''exit'', ''q''] then Some quit_method
     else if called AtModule w [''help'', ''?''] then Some help_method
     else if called AtModule w [''back''] then Some back_method
     else if called AtModule w [''debug''] then Some sub_debug_method else None)"
  by (auto simp: table_find_def get_command_def_def example_tables called_def command_ids place_name_def)

text \<open>The id the context carries leads back to the same definition.\<close>

lemma table_id:
  assumes "map_of (bc_by_name (example_table p)) w = Some d"
  shows "get_command_def_by_id (example_table p) (def_command_id (place_name p) d) = Some d"
    "get_command_def (example_table p) w = Some d"
  using assms
  by (cases p; auto simp: example_tables get_command_def_by_id_def get_command_def_def def_command_id_def place_name_def
      command_ids split: if_splits)+

lemma table_no_id:
  assumes "map_of (bc_by_name (example_table p)) w = None"
  shows "get_command_def_by_id (example_table p) (build_command_id (place_name p) w) = None"
  using assms
  by (cases p) (auto simp: example_tables get_command_def_by_id_def place_name_def command_ids split: if_splits)

lemma execute_words:
  assumes "console_info c = place_info p"
  shows "(line_words line = None \<longrightarrow> (\<forall>iv x. console_execute c line \<noteq> Runs iv x)) \<and>
    (\<forall>w args. line_words line = Some (w, args) \<longrightarrow>
      (case table_find p w of
         None \<Rightarrow> console_execute c line = Missed line
       | Some f \<Rightarrow> \<exists>iv. console_execute c line = Runs iv (Inr (f, args))))"
proof -
  have c: "co_name c = place_name p" "co_commands c = example_table p"
    using assms by (simp_all add: console_info_def place_info_def)
  have d: "deserialize_args = (\<lambda>_. tokenize_cmd)" by (simp add: fun_eq_iff deserialize_args_def)
  show ?thesis
  proof (cases "split_cmd line")
    case (Inl e)
    then show ?thesis by (simp add: line_words_def console_execute_def build_context_def)
  next
    case (Inr x)
    obtain w t ts where x: "split_cmd line = Inr (w, t, ts)" using Inr by (cases x) auto
    have call: "command_call (example_table p) iv = Inr (cd_func d', as)"
      if "get_command_def (example_table p) w = Some d'" "inv_command_name iv = Some w" "w \<noteq> []"
        "inv_command_id iv = context_command_id cx" "xc_console_name cx = Some (place_name p)" "xc_command_name cx = Some w"
        "xc_command_id cx = map_option (def_command_id (place_name p)) (map_of (bc_by_name (example_table p)) w)" "inv_argv iv = as"
      for iv d' cx as
    proof (cases "map_of (bc_by_name (example_table p)) w")
      case None
      then have "inv_command_id iv = Some (build_command_id (place_name p) w)"
        using that(3-7) by (cases p) (auto simp: context_command_id_def truthy_str_def place_name_def)
      then show ?thesis using that(1,2,8) table_no_id [OF None] by (simp add: command_call_def)
    next
      case (Some d)
      then have "inv_command_id iv = Some (def_command_id (place_name p) d)"
        using that(4,7) by (simp add: context_command_id_def)
      then show ?thesis using that(1,8) table_id [OF Some] by (simp add: command_call_def)
    qed
    show ?thesis
      by (auto simp: x line_words_def console_execute_def build_context_def c d table_find_def to_invocation_def Let_def
          intro!: call split: option.splits sum.splits)
  qed
qed

text \<open>What the loop makes of a turn at a place, as the specification's progress.\<close>

definition leads :: "console_env \<Rightarrow> console_manager \<Rightarrow> turn \<Rightarrow> progress \<Rightarrow> bool" where
  "leads ce m t r \<longleftrightarrow>
    (case r of
       Prompt p \<Rightarrow> \<exists>m1. console_loop ce [t] m = (None, m1) \<and> place_ok p m1
     | Left_normally \<Rightarrow> \<exists>m1. console_loop ce [t] m = (Some (Inr ()), m1) \<and> mn_stack m1 = []
     | Crashed k \<Rightarrow> \<exists>msg m1. console_loop ce [t] m = (Some (Inl (PyExc k msg)), m1))"

lemma place_stack: "place_ok p m \<Longrightarrow> mn_stack m \<noteq> []"
  using place_current by fastforce

lemma loop_waits: "mn_stack m \<noteq> [] \<Longrightarrow> console_loop ce [] m = (None, bind_output_router m)"
  by simp

lemma leads_no_turn: "place_ok p m \<Longrightarrow> leads ce m no_turn (Prompt p)"
  using place_stack [of p m] by (simp add: leads_def no_turn_def do_turn_def)

lemma leads_quit:
  assumes "place_ok p m"
  shows "leads ce m ([], run_quit) Left_normally"
proof -
  have "stack_ok (bind_output_router m)" using assms by (simp add: place_ok_def names_ok_def)
  then obtain m1 where "pop_all (bind_output_router m) = (Inr (), m1)" "mn_stack m1 = []"
    using pop_all_ok [of "bind_output_router m"] by (cases "pop_all (bind_output_router m)") simp
  then show ?thesis
    using place_stack [OF assms]
    by (simp add: leads_def do_turn_def run_quit_def isinstance_exc_def isinstance_any_def loop_end_def clean_def)
qed

lemma leads_back:
  assumes "place_ok AtModule m"
  shows "leads ce m ([], run_back) (Prompt AtRoot)"
proof -
  have "place_ok AtModule (bind_output_router m)" using assms by simp
  then obtain m1 where m1: "pop (bind_output_router m) = (Inr (), m1)" "place_ok AtRoot m1"
    using place_pop by blast
  then show ?thesis
    using place_stack [OF assms] place_stack [OF m1(2)] by (simp add: leads_def do_turn_def run_back_def)
qed

lemma leads_type_error: "place_ok p m \<Longrightarrow> leads ce m ([], Inl (PyExc TypeErrorC msg)) (Crashed TypeErrorC)"
  using place_stack [of p m]
  by (simp add: leads_def do_turn_def isinstance_exc_def isinstance_any_def loop_end_def)

lemma leads_use:
  assumes "place_ok AtRoot m" and "binds [plain_param] (length args)"
  shows "leads (example_env sess) m (snd (run_use (hd args) (Some (bind_output_router m)))) (use_step args)"
proof -
  obtain n where args: "args = [n]" using assms(2) by (cases args) (auto simp: plain_param_def split: if_splits)
  have ok: "place_ok AtRoot (bind_output_router m)" using assms(1) by simp
  have reg: "is_registered n (bind_output_router m) \<longleftrightarrow> n = ''root'' \<or> n = ''module''"
    using ok by (auto simp: is_registered_def place_ok_def names_ok_def)
  show ?thesis
  proof (cases "n = ''module''")
    case True
    obtain m1 where m1: "push (example_env sess) ''module'' [] (bind_output_router m) = (Inr (), m1)" "place_ok AtModule m1"
      using push_module [OF ok] by blast
    then show ?thesis
      using True reg place_stack [OF assms(1)] place_stack [OF m1(2)]
      by (simp add: run_use_def args use_step_def leads_def do_turn_def)
  next
    case False
    show ?thesis
    proof (cases "n = ''root''")
      case True
      then show ?thesis
        using reg push_root_refused [OF ok, of sess] place_stack [OF assms(1)]
        by (simp add: run_use_def args use_step_def leads_def do_turn_def isinstance_exc_def isinstance_any_def loop_end_def)
    next
      case other: False
      then show ?thesis using False reg leads_no_turn [OF assms(1)] by (simp add: run_use_def args use_step_def)
    qed
  qed
qed

lemma help_prints: "\<exists>ts. run_example_help a mro (example_table p) = ([Tables ts], no_turn)"
proof -
  have info: "fn_info help_method \<noteq> None" "fn_info quit_method \<noteq> None" "fn_info back_method \<noteq> None"
    "fn_info use_method \<noteq> None" "fn_info root_debug_method \<noteq> None" "fn_info sub_debug_method \<noteq> None" by code_simp+
  have "\<forall>e \<in> set (bc_funcs (example_table p)). fn_info (snd e) \<noteq> None"
    using info by (cases p) (auto simp: example_tables)
  from help_lists_every_command [OF this, where core = "example_core mro" and py_str = "ea_py_str a"
      and cw = "\<lambda>_. 1" and tw = None]
  obtain ts where "run_help (ea_py_str a) (example_core mro) (example_table p) = Inr ts" by blast
  then show ?thesis by (simp add: run_example_help_def)
qed

lemma execute_outcomes [simp]:
  "execute_outcome (Inr u) = Inr ()" "execute_outcome run_quit = run_quit" "execute_outcome run_back = run_back"
  "execute_outcome (Inl (PyExc TypeErrorC msg)) = Inl (PyExc TypeErrorC msg)"
  by (simp_all add: execute_outcome_def run_quit_def run_back_def isinstance_exc_def)

lemma use_outcome: "run_use n (Some m) = (outs, calls, r) \<Longrightarrow> r = Inr ()"
  by (auto simp: run_use_def no_turn_def split: if_splits)

lemma call_leads:
  assumes ok: "place_ok p m" and c: "console_info c = place_info p" and f: "table_find p w = Some f"
    and call: "example_call a (bind_output_router m) c f args = (outs, calls, r)"
  shows "leads (example_env sess) m (calls, execute_outcome r) (example_step p w args)"
proof -
  have tab: "co_commands c = example_table p" using c by (simp add: console_info_def place_info_def)
  have quiet: "example_step p w args = Prompt p \<Longrightarrow> calls = [] \<Longrightarrow> r = Inr () \<Longrightarrow> ?thesis"
    using leads_no_turn [OF ok] by (simp add: no_turn_def)
  have error: "example_step p w args = Crashed TypeErrorC \<Longrightarrow> \<not> binds (tl (fn_params f)) (length args) \<Longrightarrow> ?thesis"
    using call leads_type_error [OF ok] by (auto simp: example_call_def)
  have bad_use: "\<not> binds [plain_param] (length args) \<Longrightarrow> use_step args = Crashed TypeErrorC"
    by (auto simp: use_step_def plain_param_def split: list.split)
  obtain ts where tables: "run_example_help a
      (if kc_id (co_cls c) = 10 then root_commands_mro else sub_commands_mro) (co_commands c) = ([Tables ts], no_turn)"
    using help_prints tab by metis
  show ?thesis
  proof (cases p)
    case AtRoot
    then consider "called p w [''quit'', ''exit'', ''q'']" "f = quit_method"
      | "\<not> called p w [''quit'', ''exit'', ''q'']" "called p w [''help'', ''?'']" "f = help_method"
      | "\<not> called p w [''quit'', ''exit'', ''q'']" "\<not> called p w [''help'', ''?'']" "called p w [''use'']" "f = use_method"
      | "\<not> called p w [''quit'', ''exit'', ''q'']" "\<not> called p w [''help'', ''?'']" "\<not> called p w [''use'']"
        "f = root_debug_method"
      using f by (auto simp: table_find_root split: if_splits)
    then show ?thesis
    proof cases
      case 1
      then show ?thesis using leads_quit [OF ok] call error
        by (cases args) (auto simp: example_step_def no_arguments_def example_call_def)
    next
      case 2
      then show ?thesis using quiet call error tables
        by (cases args) (auto simp: example_step_def no_arguments_def example_call_def no_turn_def)
    next
      case 3
      have step: "example_step p w args = use_step args" using 3 AtRoot by (simp add: example_step_def)
      show ?thesis
      proof (cases "binds [plain_param] (length args)")
        case True
        have u: "run_use (hd args) (Some (bind_output_router m)) = (outs, calls, r)"
          using call 3(4) True by (simp add: example_call_def)
        have "leads (example_env sess) m (calls, r) (use_step args)"
          using leads_use [OF ok [unfolded AtRoot] True, of sess] by (simp only: u snd_conv)
        moreover have "r = Inr ()" by (rule use_outcome [OF u])
        ultimately show ?thesis by (simp add: step)
      next
        case False
        then show ?thesis using error bad_use step 3(4) by simp
      qed
    next
      case 4
      then show ?thesis using quiet call AtRoot by (auto simp: example_step_def example_call_def run_root_debug_def no_turn_def)
    qed
  next
    case AtModule
    then consider "called p w [''quit'', ''exit'', ''q'']" "f = quit_method"
      | "\<not> called p w [''quit'', ''exit'', ''q'']" "called p w [''help'', ''?'']" "f = help_method"
      | "\<not> called p w [''quit'', ''exit'', ''q'']" "\<not> called p w [''help'', ''?'']" "called p w [''back'']" "f = back_method"
      | "\<not> called p w [''quit'', ''exit'', ''q'']" "\<not> called p w [''help'', ''?'']" "\<not> called p w [''back'']"
        "called p w [''debug'']" "f = sub_debug_method"
      using f by (auto simp: table_find_module split: if_splits)
    then show ?thesis
    proof cases
      case 1
      then show ?thesis using leads_quit [OF ok] call error
        by (cases args) (auto simp: example_step_def no_arguments_def example_call_def)
    next
      case 2
      then show ?thesis using quiet call error tables
        by (cases args) (auto simp: example_step_def no_arguments_def example_call_def no_turn_def)
    next
      case 3
      then show ?thesis using leads_back [OF ok [unfolded AtModule]] call error AtModule
        by (cases args) (auto simp: example_step_def no_arguments_def example_call_def)
    next
      case 4
      then show ?thesis using quiet call error AtModule
        by (cases args) (auto simp: example_step_def no_arguments_def example_call_def run_sub_debug_def no_turn_def)
    qed
  qed
qed

lemma not_called:
  assumes "table_find p w = None"
  shows "example_step p w args = Prompt p"
  using assms by (cases p) (auto simp: table_find_root table_find_module example_step_def split: if_splits)

lemma line_leads:
  assumes ok: "place_ok p m"
  shows "leads (example_env sess) m (snd (example_line a (bind_output_router m) line)) (line_step p line)"
proof -
  obtain c where c: "current (bind_output_router m) = Some c" "console_info c = place_info p"
    using place_current [of p "bind_output_router m"] ok by auto
  note e = execute_words [OF c(2), of line]
  show ?thesis
  proof (cases "line_words line")
    case None
    then have "snd (example_line a (bind_output_router m) line) = no_turn"
      using e c(1) by (cases "console_execute c line") (auto simp: example_line_def)
    then show ?thesis using leads_no_turn [OF ok] None by (simp add: line_step_def)
  next
    case (Some x)
    obtain w args where x: "line_words line = Some (w, args)" using Some by (cases x) auto
    show ?thesis
    proof (cases "table_find p w")
      case None
      then show ?thesis
        using e c(1) leads_no_turn [OF ok] not_called [OF None] by (auto simp: x line_step_def example_line_def)
    next
      case found: (Some f)
      obtain iv where "console_execute c line = Runs iv (Inr (f, args))" using e x found by auto
      then show ?thesis
        using call_leads [OF ok c(2) found] by (auto simp: x line_step_def example_line_def c(1) split: prod.split)
    qed
  qed
qed

section \<open>The application is the machine\<close>

text \<open>How a run of the program relates to the specification's progress.\<close>

definition shows_progress :: "progress \<Rightarrow> unit res option \<times> console_manager \<Rightarrow> bool" where
  "shows_progress r x \<longleftrightarrow>
    (case r of
       Prompt p \<Rightarrow> fst x = None \<and> map co_name (mn_stack (snd x)) = map place_name (places_below p)
     | Left_normally \<Rightarrow> fst x = Some (Inr ()) \<and> mn_stack (snd x) = []
     | Crashed k \<Rightarrow> \<exists>msg. fst x = Some (Inl (PyExc k msg)))"

lemma shows_place:
  assumes "place_ok p m"
  shows "shows_progress (Prompt p) (None, bind_output_router m)"
proof -
  have "map fst (map console_info (mn_stack m)) = map fst (map place_info (places_below p))"
    using assms by (simp add: place_ok_def)
  then show ?thesis by (simp add: shows_progress_def console_info_def place_info_def comp_def)
qed

lemma example_loop_progress:
  "place_ok p m \<Longrightarrow> shows_progress (progress_after p ls) (snd (example_loop a (example_env sess) ls m))"
proof (induction ls arbitrary: p m)
  case Nil
  then show ?case using shows_place [OF Nil] loop_waits [OF place_stack [OF Nil]] by simp
next
  case (Cons l ls)
  obtain outs t where t: "example_line a (bind_output_router m) l = (outs, t)"
    by (cases "example_line a (bind_output_router m) l")
  have lead: "leads (example_env sess) m t (line_step p l)" using line_leads [OF Cons.prems, of sess a l] t by simp
  show ?case
  proof (cases "line_step p l")
    case (Prompt p')
    then obtain m1 where m1: "console_loop (example_env sess) [t] m = (None, m1)" "place_ok p' m1"
      using lead by (auto simp: leads_def)
    then show ?thesis using Cons.IH [OF m1(2)] Prompt t by (simp add: split_beta)
  next
    case Left_normally
    then show ?thesis using lead t by (auto simp: leads_def shows_progress_def simp del: console_loop.simps)
  next
    case (Crashed k)
    then show ?thesis using lead t by (auto simp: leads_def shows_progress_def simp del: console_loop.simps)
  qed
qed

text \<open>C14: the example application is a machine with two places. Whatever lines are typed, the program
  built from the registered classes - decorators, registry, command tables, tokenizer, manager and
  loop together - is where the specification says: at the prompt of the root console or of the
  module console above it, ended normally with no console left, or ended with an exception of the
  stated class.\<close>

theorem example_refines_machine:
  assumes "listeners = None \<or> listeners = Some []"
  shows "shows_progress (progress_after AtRoot lines) (snd (example_main a sess router has_shutdown listeners lines))"
proof -
  obtain m1 where m1: "push (example_env sess) ''root'' [] (example_manager router has_shutdown listeners) = (Inr (), m1)"
    "place_ok AtRoot m1"
    using start_example [OF assms] by blast
  then show ?thesis
    using example_loop_progress [OF m1(2), of lines a sess] by (simp add: example_main_def example_manager_facts)
qed

definition demo_app :: example_app where
  "demo_app = \<lparr>ea_py_str = (\<lambda>_. []), ea_service = ''None''\<rparr>"

lemma example_refines_machine_witness:
  "fst (snd (example_main demo_app (\<lambda>_. (None, None)) None True (Some []) [''use module'', ''debug'', ''quit''])) =
    Some (Inr ())"
proof -
  have "progress_after AtRoot [''use module'', ''debug'', ''quit''] = Left_normally" by code_simp
  then show ?thesis
    using example_refines_machine [of "Some []" "[''use module'', ''debug'', ''quit'']" demo_app "\<lambda>_. (None, None)" None True]
    by (simp add: shows_progress_def)
qed

section \<open>Lines the validator accepts\<close>

text \<open>
  What the prompt hands over: \<open>CommandValidator\<close> accepts it, with the \<open>GeneralValidator\<close> of the
  command that has its first word.
\<close>

definition line_check :: "base_commands \<Rightarrow> string \<Rightarrow> nat option \<Rightarrow> string \<Rightarrow> unit res" where
  "line_check b token v arg_text =
    (case map_of (bc_by_name b) token of
       None \<Rightarrow> Inr ()
     | Some d \<Rightarrow> general_validate (validator_spec (cd_func d) (cd_arg_spec d)) (\<lambda>_ _. Inr ()) arg_text)"

definition accepts :: "base_commands \<Rightarrow> bool \<Rightarrow> string \<Rightarrow> bool" where
  "accepts b enable_undefined line \<longleftrightarrow>
    (case split_cmd line of
       Inl _ \<Rightarrow> True
     | Inr (token, _) \<Rightarrow> command_validate (line_check b token) enable_undefined b line = Inr ())"

definition example_accepts :: "place \<Rightarrow> string \<Rightarrow> bool" where
  "example_accepts p = accepts (example_table p) (example_undefined (case p of AtRoot \<Rightarrow> 1 | AtModule \<Rightarrow> 2))"

text \<open>Every line was accepted at the prompt it was typed at.\<close>

fun accepted_lines :: "place \<Rightarrow> string list \<Rightarrow> bool" where
  "accepted_lines p [] = True"
| "accepted_lines p (l # ls) \<longleftrightarrow>
    example_accepts p l \<and> (case line_step p l of Prompt p' \<Rightarrow> accepted_lines p' ls | _ \<Rightarrow> True)"

text \<open>Lines that name a command by its id, or the root console as the one to enter.\<close>

definition by_id :: "string \<Rightarrow> bool" where
  "by_id line \<longleftrightarrow> (case line_words line of None \<Rightarrow> False | Some (w, _) \<Rightarrow> take 4 w = ''cmd:'')"

definition enters_root :: "string \<Rightarrow> bool" where
  "enters_root line \<longleftrightarrow> line_words line = Some (''use'', [''root''])"

lemma general_validate_count:
  assumes "general_validate spec (\<lambda>_ _. Inr ()) t = r" "tokenize_cmd t = Inr args"
    and "r = Inr () \<or> (\<exists>e. r = Inl e \<and> isinstance_exc e ValueErrorC)"
  shows "validate_count spec (int (length args)) = Inr ()"
  using assms
  by (auto simp: general_validate_def validate_count_def isinstance_exc_def split: if_splits option.splits)

lemma member_spec:
  assumes "f \<in> {help_method, quit_method, back_method, use_method, root_debug_method, sub_debug_method}"
  shows "cd_arg_spec (member_of f) = Some (from_signature (fn_params f) True)" "fn_params f \<noteq> []"
    "positional_sig False (tl (fn_params f))"
proof -
  have "list_all (\<lambda>f. cd_arg_spec (member_of f) = Some (from_signature (fn_params f) True) \<and> fn_params f \<noteq> [] \<and>
      positional_sig False (tl (fn_params f)))
    [help_method, quit_method, back_method, use_method, root_debug_method, sub_debug_method]" by code_simp
  then show "cd_arg_spec (member_of f) = Some (from_signature (fn_params f) True)" "fn_params f \<noteq> []"
    "positional_sig False (tl (fn_params f))" using assms by auto
qed

lemma table_members:
  "map_of (bc_by_name (example_table p)) w = Some d \<Longrightarrow>
    \<exists>f \<in> {help_method, quit_method, back_method, use_method, root_debug_method, sub_debug_method}. d = member_of f"
  by (cases p) (auto simp: example_tables split: if_splits)

lemma signature_binds:
  assumes "validate_count (from_signature ps True) (int n) = Inr ()" "ps \<noteq> []" "positional_sig False (tl ps)"
  shows "binds (tl ps) n"
  using assms(1,2) binds_count [OF assms(3), of n]
  by (cases ps) (auto simp: from_signature_def validate_count_def count_params_eq split: if_splits option.splits)

lemma accepted_binds:
  assumes acc: "example_accepts p line" and words: "line_words line = Some (w, args)"
    and d: "map_of (bc_by_name (example_table p)) w = Some d"
  shows "binds (tl (fn_params (cd_func d))) (length args)"
proof -
  obtain t ts where t: "split_cmd line = Inr (w, t, ts)" "tokenize_cmd t = Inr args"
    using words by (auto simp: line_words_def split: sum.splits if_splits)
  obtain f where f: "f \<in> {help_method, quit_method, back_method, use_method, root_debug_method, sub_debug_method}"
    "d = member_of f" using table_members [OF d] by blast
  have "map_of (bc_validators (example_table p)) w = Some (Some 0)"
    using d map_of_map [of "\<lambda>_. Some (0::nat)" "bc_by_name (example_table p)"] by (simp add: example_tables(2))
  then have "general_validate (from_signature (fn_params f) True) (\<lambda>_ _. Inr ()) t = r \<Longrightarrow>
      r = Inr () \<or> (\<exists>e. r = Inl e \<and> isinstance_exc e ValueErrorC)" for r
    using acc t(1) d f(2) member_spec(1) [OF f(1)]
    by (auto simp: example_accepts_def accepts_def command_validate_def line_check_def validator_spec_def
        split: sum.splits if_splits)
  then have "validate_count (from_signature (fn_params f) True) (int (length args)) = Inr ()"
    using general_validate_count [OF refl t(2)] by blast
  moreover have "cd_func d = f" using f by auto
  ultimately show ?thesis using signature_binds member_spec(2,3) [OF f(1)] by metis
qed

lemma found_step:
  assumes "table_find p w = Some f"
  shows "example_step p w args =
    (if f = quit_method then no_arguments args Left_normally
     else if f = help_method then no_arguments args (Prompt p)
     else if f = use_method then use_step args
     else if f = back_method then no_arguments args (Prompt AtRoot)
     else if f = sub_debug_method then no_arguments args (Prompt p) else Prompt p)"
  using assms
  by (cases p) (auto simp: table_find_root table_find_module example_step_def methods_differ [symmetric] split: if_splits)

lemma id_keys: "\<forall>k \<in> fst ` set (bc_by_id (example_table p)). take 4 k = ''cmd:''"
  by (cases p) (simp_all add: example_tables)

lemma use_name: "map_of (bc_by_name (example_table p)) w = Some d \<Longrightarrow> cd_func d = use_method \<Longrightarrow> w = ''use''"
  by (cases p) (auto simp: example_tables methods_differ [symmetric] split: if_splits)

lemma accepted_step:
  assumes acc: "example_accepts p line" and plain: "\<not> by_id line" "\<not> enters_root line"
  shows "line_step p line \<noteq> Crashed k"
proof (cases "line_words line")
  case None
  then show ?thesis by (simp add: line_step_def)
next
  case (Some x)
  obtain w args where x: "line_words line = Some (w, args)" using Some by (cases x) auto
  have w: "take 4 w \<noteq> ''cmd:''" "\<not> (w = ''use'' \<and> args = [''root''])"
    using plain x by (auto simp: by_id_def enters_root_def)
  have named: "\<exists>d. map_of (bc_by_name (example_table p)) w = Some d \<and> cd_func d = f" if "table_find p w = Some f" for f
  proof -
    have "w \<notin> fst ` set (bc_by_id (example_table p))" using id_keys [of p] w(1) by blast
    then have "map_of (bc_by_id (example_table p)) w = None" by (simp add: map_of_eq_None_iff)
    then show ?thesis using that by (auto simp: table_find_def get_command_def_def)
  qed
  have b: "binds (tl (fn_params f)) (length args)" if "table_find p w = Some f" for f
    using named [OF that] accepted_binds [OF acc x] by blast
  have use: "table_find p w = Some use_method \<Longrightarrow> w = ''use''"
    using named [of use_method] use_name [of p w] by auto
  have u: "binds [plain_param] (length args) \<Longrightarrow> args \<noteq> [''root''] \<Longrightarrow> use_step args \<noteq> Crashed k"
    by (cases args) (auto simp: use_step_def plain_param_def split: if_splits)
  show ?thesis
  proof (cases "table_find p w")
    case None
    then show ?thesis using not_called by (simp add: x line_step_def)
  next
    case (Some f)
    have "f = quit_method \<or> f = help_method \<or> f = back_method \<or> f = sub_debug_method \<Longrightarrow> args = []"
      using b [OF Some] by auto
    moreover have "f = use_method \<Longrightarrow> use_step args \<noteq> Crashed k"
      using b [OF Some] use Some w(2) u by (simp del: binds.simps)
    ultimately show ?thesis
      using found_step [OF Some, of args] by (auto simp: x line_step_def no_arguments_def split: if_splits)
  qed
qed

lemma accepted_progress:
  "accepted_lines p ls \<Longrightarrow> \<forall>l \<in> set ls. \<not> by_id l \<and> \<not> enters_root l \<Longrightarrow> progress_after p ls \<noteq> Crashed k"
proof (induction ls arbitrary: p)
  case (Cons l ls)
  then show ?case using accepted_step [of p l] by (cases "line_step p l") auto
qed simp

text \<open>C19: accepted lines never crash the application. When every line was accepted by the validator of the
  console it was typed at, and none names a command by its id or asks to enter the root console
  again, the program is waiting for the next line or has ended normally: no exception leaves it.\<close>

theorem accepted_lines_never_crash:
  assumes "listeners = None \<or> listeners = Some []" and "accepted_lines AtRoot lines"
    and "\<forall>l \<in> set lines. \<not> by_id l \<and> \<not> enters_root l"
  shows "fst (snd (example_main a sess router has_shutdown listeners lines)) \<in> {None, Some (Inr ())}"
proof -
  obtain m1 where m1: "push (example_env sess) ''root'' [] (example_manager router has_shutdown listeners) = (Inr (), m1)"
    "place_ok AtRoot m1"
    using start_example [OF assms(1)] by blast
  have "shows_progress (progress_after AtRoot lines)
      (snd (example_main a sess router has_shutdown listeners lines))"
    using example_loop_progress [OF m1(2), of lines a sess] by (simp add: example_main_def example_manager_facts m1(1))
  then show ?thesis
    using accepted_progress [OF assms(2,3)]
    by (cases "progress_after AtRoot lines") (auto simp: shows_progress_def)
qed

text \<open>
  The two exceptions are real. The validator counts the arguments of a command it finds by name; an id
  it does not find, and where undefined commands may pass, the id runs the command with whatever
  arguments follow. And the root console is registered like the others, so \<open>use root\<close> is accepted
  and constructs it with a parent, which it refuses by an exception nobody catches.
\<close>

lemma id_skips_argument_check:
  "example_accepts AtRoot ''cmd:root:quit now''" "\<not> example_accepts AtRoot ''quit now''"
  "line_step AtRoot ''cmd:root:quit now'' = Crashed TypeErrorC"
  by code_simp+

lemma use_root_crashes:
  "example_accepts AtRoot ''use root''" "line_step AtRoot ''use root'' = Crashed ConsoleInitExceptionC"
  by code_simp+

lemma accepted_lines_never_crash_witness:
  "fst (snd (example_main demo_app (\<lambda>_. (None, None)) None True None [''use module'', ''?'', ''back''])) \<in> {None, Some (Inr ())}"
proof -
  have "accepted_lines AtRoot [''use module'', ''?'', ''back'']" by code_simp
  moreover have "\<forall>l \<in> set [''use module'', ''?'', ''back'']. \<not> by_id l \<and> \<not> enters_root l" by code_simp
  ultimately show ?thesis by (rule accepted_lines_never_crash [OF disjI1 [OF refl]])
qed

end
