(* ===== verification/Testing.thy ===== *)
theory Testing
  imports Binding RunContext
begin

text \<open>
  The test support shipped with the package (\<open>testing/\<close>): marks on command classes and
  methods, discovery of test cases, the two harnesses, which run one command and collect what it
  prints, and their results. What \<open>inspect\<close> and \<open>getattr\<close> find in Python's classes is the
  parameter \<open>class_world\<close>.
\<close>

section \<open>Marks\<close>

record mark =
  tm_testable :: bool
  tm_meta :: "(string, pyval) dict"
  tm_scope :: string

text \<open>
  Marks of classes and of functions, by their numbers. A class inherits the mark of the nearest
  class of its \<open>mro\<close> that has one; \<open>[k]\<close> plays that part for a function.
\<close>

record marks =
  ma_classes :: "(nat, mark) dict"
  ma_funcs :: "(nat, mark) dict"

definition mark_of :: "(nat, mark) dict \<Rightarrow> nat list \<Rightarrow> mark option" where
  "mark_of d mro = (case List.map_filter (map_of d) mro of [] \<Rightarrow> None | m # _ \<Rightarrow> Some m)"

definition read_meta :: "(nat, mark) dict \<Rightarrow> nat list \<Rightarrow> (string, pyval) dict" where
  "read_meta d mro = (case mark_of d mro of None \<Rightarrow> [] | Some m \<Rightarrow> tm_meta m)"

definition is_marked :: "(nat, mark) dict \<Rightarrow> nat list \<Rightarrow> bool" where
  "is_marked d mro = (case mark_of d mro of None \<Rightarrow> False | Some m \<Rightarrow> tm_testable m)"

definition dict_update :: "(string, pyval) dict \<Rightarrow> (string, pyval) dict \<Rightarrow> (string, pyval) dict" where
  "dict_update new d = fold (\<lambda>(k, v). dict_set k v) new d"

definition is_registered_command_method :: "func_obj \<Rightarrow> bool" where
  "is_registered_command_method f \<longleftrightarrow> fn_info f \<noteq> None"

definition mark_testable ::
  "nat \<Rightarrow> nat list \<Rightarrow> string \<Rightarrow> (string, pyval) dict \<Rightarrow> (nat, mark) dict \<Rightarrow> (nat, mark) dict" where
  "mark_testable k mro scope meta d =
    dict_set k \<lparr>tm_testable = True, tm_meta = dict_update meta (read_meta d mro), tm_scope = scope\<rparr> d"

datatype mark_target = MarkClass nat "nat list" bool | MarkFunc func_obj | MarkOther

text \<open>\<open>tty_testable\<close>; a class comes with its \<open>mro\<close> and whether it inherits \<open>BaseCommands\<close>.\<close>

definition tty_testable :: "mark_target \<Rightarrow> (string, pyval) dict \<Rightarrow> marks \<Rightarrow> unit res \<times> marks" where
  "tty_testable target meta m =
    (case target of
       MarkClass c mro is_commands \<Rightarrow>
         if \<not> is_commands
         then (Inl (PyExc ConsoleInitExceptionC ''@tty_testable class target must inherit BaseCommands''), m)
         else (Inr (), m\<lparr>ma_classes := mark_testable c mro ''class'' meta (ma_classes m)\<rparr>)
     | MarkFunc f \<Rightarrow>
         if \<not> is_registered_command_method f
         then (Inl (PyExc ConsoleInitExceptionC ''@tty_testable method target must be a registered command method''), m)
         else (Inr (), m\<lparr>ma_funcs := mark_testable (fn_id f) [fn_id f] ''method'' meta (ma_funcs m)\<rparr>)
     | MarkOther \<Rightarrow>
         (Inl (PyExc ConsoleInitExceptionC ''@tty_testable target must be a BaseCommands subclass or registered command method''), m))"

section \<open>Suites\<close>

record test_case =
  tc_command_id :: string
  tc_command_name :: string
  tc_console_name :: string
  tc_console_cls :: "nat option"
  tc_commands_cls :: nat
  tc_method :: func_obj
  tc_class_marked :: bool
  tc_method_marked :: bool
  tc_meta :: "(string, pyval) dict"

record suite =
  su_cases :: "test_case list"
  su_by_id :: "(string, test_case) dict"

definition new_suite :: "test_case list \<Rightarrow> suite" where
  "new_suite cases =
    (let deduped = fold (\<lambda>c. dict_set (tc_command_id c) c) (sort_key tc_command_id cases) []
     in \<lparr>su_cases = map snd deduped, su_by_id = deduped\<rparr>)"

definition get_case :: "suite \<Rightarrow> string \<Rightarrow> test_case option" where
  "get_case s i = map_of (su_by_id s) i"

definition suite_ids :: "suite \<Rightarrow> string list" where
  "suite_ids s = map tc_command_id (su_cases s)"

section \<open>Discovery\<close>

text \<open>
  A target: nothing, a collection, a command id, a command class, a module, an object of a
  command class, a function, or something else.
\<close>

datatype target =
    NoTarget
  | Group "target list"
  | CommandId string
  | CommandsClass nat
  | Module nat
  | CommandsObject nat
  | Callable func_obj
  | OtherTarget

text \<open>
  \<open>cl_members\<close> gives the classes of a module with whether they are command classes of the
  module's own. A function has a module and a qualified name; \<open>cl_object\<close> is \<open>getattr\<close> on modules and
  classes, and \<open>cl_is_commands\<close> says which of these are subclasses of \<open>BaseCommands\<close>.
\<close>

record class_world =
  cl_mro :: "nat \<Rightarrow> nat list"
  cl_members :: "nat \<Rightarrow> (nat \<times> bool) list"
  cl_module :: "nat \<Rightarrow> nat option"
  cl_qualname :: "nat \<Rightarrow> string"
  cl_object :: "nat \<Rightarrow> string \<Rightarrow> nat option"
  cl_is_commands :: "nat \<Rightarrow> bool"
  cl_attr :: "nat \<Rightarrow> string \<Rightarrow> func_obj option"
  cl_console_name :: "nat \<Rightarrow> string option"
  cl_name :: "nat \<Rightarrow> string"

fun expand_targets :: "target list \<Rightarrow> target list" where
  "expand_targets [] = []"
| "expand_targets (NoTarget # ts) = expand_targets ts"
| "expand_targets (Group us # ts) = expand_targets us @ expand_targets ts"
| "expand_targets (t # ts) = t # expand_targets ts"

record selection =
  sl_ids :: "string list"
  sl_classes :: "nat list"
  sl_explicit :: "nat list"
  sl_methods :: "nat list"

definition collect_module :: "class_world \<Rightarrow> nat \<Rightarrow> nat list" where
  "collect_module w m = map fst (filter snd (cl_members w m))"

text \<open>\<open>_resolve_owner_commands_cls\<close>: the class a function's qualified name leads to in its module.\<close>

fun before :: "string \<Rightarrow> string \<Rightarrow> string" where
  "before sep [] = []"
| "before sep (c # cs) = (if startswith (c # cs) sep then [] else c # before sep cs)"

definition resolve_owner_commands_cls :: "class_world \<Rightarrow> nat \<Rightarrow> nat option" where
  "resolve_owner_commands_cls w f =
    (case cl_module w f of
       None \<Rightarrow> None
     | Some m \<Rightarrow>
         let qualname = before ''.<locals>'' (cl_qualname w f) in
         if CHR ''.'' \<notin> set qualname then None
         else
           case fold (\<lambda>part owner. Option.bind owner (\<lambda>x. cl_object w x part))
                  (butlast (split_max (length qualname) CHR ''.'' qualname)) (Some m) of
             None \<Rightarrow> None
           | Some owner \<Rightarrow> if cl_is_commands w owner then Some owner else None)"

definition select_target :: "class_world \<Rightarrow> target \<Rightarrow> selection \<Rightarrow> selection res" where
  "select_target w t s =
    (case t of
       CommandId i \<Rightarrow> Inr (s\<lparr>sl_ids := sl_ids s @ [i]\<rparr>)
     | CommandsClass c \<Rightarrow> Inr (s\<lparr>sl_classes := sl_classes s @ [c], sl_explicit := sl_explicit s @ [c]\<rparr>)
     | Module m \<Rightarrow> Inr (s\<lparr>sl_classes := sl_classes s @ collect_module w m\<rparr>)
     | CommandsObject c \<Rightarrow> Inr (s\<lparr>sl_classes := sl_classes s @ [c], sl_explicit := sl_explicit s @ [c]\<rparr>)
     | Callable f \<Rightarrow>
         if fn_info f = None then Inl (PyExc ValueErrorC ''Unsupported discover_tests target'')
         else Inr (s\<lparr>sl_methods := sl_methods s @ [fn_id f],
                     sl_classes := sl_classes s @ (case resolve_owner_commands_cls w (fn_id f) of None \<Rightarrow> [] | Some c \<Rightarrow> [c])\<rparr>)
     | _ \<Rightarrow> Inl (PyExc ValueErrorC ''Unsupported discover_tests target''))"

text \<open>\<open>_extract_console_name\<close>.\<close>

definition extract_console_name :: "string \<Rightarrow> string option" where
  "extract_console_name i =
    (if \<not> startswith i ''cmd:'' then None
     else case split_max 2 CHR '':'' i of [_, console, _] \<Rightarrow> none_if_empty console | _ \<Rightarrow> None)"

definition classes_of_id :: "console_registry \<Rightarrow> command_registry \<Rightarrow> string \<Rightarrow> nat list" where
  "classes_of_id g r i =
    (case extract_console_name i of
       None \<Rightarrow> []
     | Some n \<Rightarrow>
         List.map_filter (\<lambda>(m, k, _). if m = n then get_commands_cls r (kc_id k) else None) (iter_consoles g))"

definition console_bindings ::
  "class_world \<Rightarrow> console_registry \<Rightarrow> command_registry \<Rightarrow> nat \<Rightarrow> (string \<times> nat option) list" where
  "console_bindings w g r c =
    (let bound = List.map_filter
           (\<lambda>(n, k, _). if get_commands_cls r (kc_id k) = Some c then Some (n, Some (kc_id k)) else None)
           (iter_consoles g)
     in if bound \<noteq> [] then bound
        else [(if truthy_str (cl_console_name w c) then the (cl_console_name w c)
               else map lower_char (cl_name w c), None)])"

definition resolve_method :: "class_world \<Rightarrow> nat \<Rightarrow> func_obj \<Rightarrow> func_obj" where
  "resolve_method w c f =
    (if fn_name f = [] then f else case cl_attr w c (fn_name f) of None \<Rightarrow> f | Some g \<Rightarrow> g)"

definition is_method_selected :: "func_obj \<Rightarrow> nat list \<Rightarrow> bool" where
  "is_method_selected f selected_methods \<longleftrightarrow> fn_id f \<in> set selected_methods"

definition case_for ::
  "class_world \<Rightarrow> marks \<Rightarrow> selection \<Rightarrow> nat \<Rightarrow> command_def \<Rightarrow> string \<times> nat option \<Rightarrow> test_case option" where
  "case_for w m s c d b =
    (let f = resolve_method w c (cd_func d);
         i = build_command_id (fst b) (cd_func_name d);
         include = (c \<in> set (sl_explicit s) \<or> is_marked (ma_classes m) (cl_mro w c) \<or> is_marked (ma_funcs m) [fn_id f] \<or>
                    is_method_selected f (sl_methods s) \<or> i \<in> set (sl_ids s))
     in if \<not> include then None
        else Some \<lparr>tc_command_id = i, tc_command_name = cd_func_name d, tc_console_name = fst b,
                   tc_console_cls = snd b, tc_commands_cls = c, tc_method = f,
                   tc_class_marked = is_marked (ma_classes m) (cl_mro w c), tc_method_marked = is_marked (ma_funcs m) [fn_id f],
                   tc_meta = dict_update (read_meta (ma_funcs m) [fn_id f]) (read_meta (ma_classes m) (cl_mro w c))\<rparr>)"

definition class_cases ::
  "class_world \<Rightarrow> members \<Rightarrow> marks \<Rightarrow> console_registry \<Rightarrow> selection \<Rightarrow> nat \<Rightarrow> command_registry
   \<Rightarrow> test_case list \<times> command_registry" where
  "class_cases w mems m g s c r =
    (let bindings = console_bindings w g r c;
         (defs, r1) = collect_from_commands_cls mems c r
     in (concat (map (\<lambda>d. List.map_filter (case_for w m s c d) bindings) defs), r1))"

fun all_cases ::
  "class_world \<Rightarrow> members \<Rightarrow> marks \<Rightarrow> console_registry \<Rightarrow> selection \<Rightarrow> nat list \<Rightarrow> command_registry
   \<Rightarrow> test_case list \<times> command_registry" where
  "all_cases w mems m g s [] r = ([], r)"
| "all_cases w mems m g s (c # cs) r =
    (let (xs, r1) = class_cases w mems m g s c r; (ys, r2) = all_cases w mems m g s cs r1
     in (xs @ ys, r2))"

definition unique_ordered :: "nat list \<Rightarrow> nat list" where
  "unique_ordered xs = rev (remdups (rev xs))"

text \<open>
  \<open>discover_tests\<close>. The ids are a set in Python; its order only decides which of two classes
  that give the same id comes last.
\<close>

definition discover_tests ::
  "class_world \<Rightarrow> members \<Rightarrow> marks \<Rightarrow> console_registry \<Rightarrow> target list \<Rightarrow> string list \<Rightarrow> command_registry
   \<Rightarrow> suite res \<times> command_registry" where
  "discover_tests w mems m g targets command_ids r =
    (case fold_res (select_target w) (expand_targets targets)
            \<lparr>sl_ids = command_ids, sl_classes = [], sl_explicit = [], sl_methods = []\<rparr> of
       Inl e \<Rightarrow> (Inl e, r)
     | Inr s \<Rightarrow>
         let classes = unique_ordered (sl_classes s @ concat (map (classes_of_id g r) (sl_ids s)));
             (cases, r1) = all_cases w mems m g s classes r
         in (Inr (new_suite cases), r1))"

section \<open>The owner of a method\<close>

lemma split_max_none:
  assumes "sep \<notin> set s"
  shows "split_max n sep s = [s]"
proof -
  have "dropWhile (\<lambda>c. c \<noteq> sep) s = []" using assms by (auto simp: dropWhile_eq_Nil_conv)
  then show ?thesis by (cases n) (simp_all del: dropWhile_eq_Nil_conv)
qed

lemma before_none: "(\<And>a b. s = a @ b \<Longrightarrow> \<not> startswith b sep) \<Longrightarrow> before sep s = s"
proof (induction sep s rule: before.induct)
  case (2 sep c cs)
  have "\<not> startswith (c # cs) sep" using "2.prems" [of "[]"] by simp
  moreover have "before sep cs = cs" using calculation by (intro "2.IH") (use "2.prems" [of "c # _"] in auto)
  ultimately show ?case by simp
qed simp

lemma length_locals: "length ''.<locals>'' = 9"
  by simp

text \<open>A method of a class at the top level of its module leads to that class.\<close>

lemma owner_of_method:
  assumes mod: "cl_module w f = Some m" and name: "cl_qualname w f = cls @ CHR ''.'' # meth"
    and plain: "CHR ''.'' \<notin> set cls" "CHR ''.'' \<notin> set meth" "CHR ''<'' \<notin> set meth"
    and attr: "cl_object w m cls = Some k" "cl_is_commands w k"
  shows "resolve_owner_commands_cls w f = Some k"
proof -
  let ?q = "cls @ CHR ''.'' # meth"
  have "before ''.<locals>'' ?q = ?q"
  proof (rule before_none)
    fix a b assume q: "?q = a @ b"
    show "\<not> startswith b ''.<locals>''"
    proof
      assume "startswith b ''.<locals>''"
      then have b: "b = ''.<locals>'' @ drop 9 b"
        unfolding startswith_def by (metis append_take_drop_id length_locals)
      then have "cls @ CHR ''.'' # meth = a @ CHR ''.'' # (''<locals>'' @ drop 9 b)" using q by simp
      then have "meth = ''<locals>'' @ drop 9 b" using append_Cons_eq_iff [OF plain(1,2)] by blast
      then show False using plain(3) by simp
    qed
  qed
  moreover have "split_max (length ?q) CHR ''.'' ?q = [cls, meth]"
    using plain split_max_sep [of "CHR ''.''" cls "length cls + length meth" meth] by (simp add: split_max_none)
  ultimately show ?thesis using mod name attr by (simp add: resolve_owner_commands_cls_def Let_def)
qed

end
