(* ===== verification/Harness.thy ===== *)
theory Harness
  imports Testing Meta
begin

text \<open>
  The harnesses of the test support (\<open>testing/harness.py\<close>, \<open>testing/capture.py\<close>,
  \<open>testing/results.py\<close>): they run one discovered command, directly or through an
  \<open>ExecutionBinding\<close>, and report what it returned and printed. The command's own code is a
  parameter: what it prints, and how it ends.
\<close>

section \<open>Captured output\<close>

record output_record =
  ou_channel :: string
  ou_kind :: "string option"
  ou_message :: pyval
  ou_level :: "int option"
  ou_source :: "string option"
  ou_event_type :: "string option"
  ou_run_id :: "string option"
  ou_seq :: "int option"

definition level_code :: "level_arg \<Rightarrow> int option" where
  "level_code l = (case l of NoLevel \<Rightarrow> None | Level u \<Rightarrow> Some (level_value u) | LevelInt c \<Rightarrow> Some c)"

text \<open>\<open>_event_to_record\<close>, for the two classes of events that reach a router or an emitter.\<close>

definition base_record :: "string \<Rightarrow> string option \<Rightarrow> 'a event_base_scheme \<Rightarrow> output_record" where
  "base_record channel kind e =
    \<lparr>ou_channel = channel, ou_kind = kind, ou_message = ev_msg e, ou_level = level_code (ev_level e),
     ou_source = ev_source e, ou_event_type = ev_event_type e, ou_run_id = ev_run_id e, ou_seq = ev_seq e\<rparr>"

definition event_to_record :: "string \<Rightarrow> any_event \<Rightarrow> output_record" where
  "event_to_record channel e =
    (case e of
       RuntimeEv r \<Rightarrow> base_record channel (map_option kind_value (ev_kind r)) r
     | UIEv u \<Rightarrow> base_record channel None u)"

definition build_output_records :: "any_event list \<Rightarrow> any_event list \<Rightarrow> output_record list" where
  "build_output_records runtime ui = map (event_to_record ''runtime'') runtime @ map (event_to_record ''ui'') ui"

text \<open>
  User code: the calls of \<open>proxy_print\<close> it makes, and its result. What a call does depends on the
  context; \<open>collector\<close> is the identity of the harness's \<open>CollectingRouter\<close>.
\<close>

record print_call =
  pr_text :: pyval
  pr_level :: level_arg
  pr_source :: string

type_synonym 'a code = "print_call list \<times> 'a res"

definition print_effects :: "real \<Rightarrow> run_context \<Rightarrow> provider \<Rightarrow> print_call list \<Rightarrow> print_effect list" where
  "print_effects now c p = map (\<lambda>x. proxy_print now c p (pr_text x) (pr_level x) (pr_source x) None)"

definition collected_runtime :: "print_effect list \<Rightarrow> any_event list" where
  "collected_runtime es = List.map_filter (\<lambda>e. case e of Emitted Collect r \<Rightarrow> Some (RuntimeEv r) | _ \<Rightarrow> None) es"

definition collected_ui :: "router_id \<Rightarrow> print_effect list \<Rightarrow> any_event list" where
  "collected_ui collector es =
    List.map_filter (\<lambda>e. case e of Routed r u \<Rightarrow> if r = collector then Some (UIEv u) else None | _ \<Rightarrow> None) es"

section \<open>Preparing a run\<close>

datatype case_target = OfCase test_case | OfId string | OfTarget target

definition resolve_case ::
  "class_world \<Rightarrow> members \<Rightarrow> marks \<Rightarrow> console_registry \<Rightarrow> case_target \<Rightarrow> string option \<Rightarrow> suite option
   \<Rightarrow> command_registry \<Rightarrow> test_case res \<times> command_registry" where
  "resolve_case w mems m g t command_id s r =
    (case t of
       OfCase c \<Rightarrow> (Inr c, r)
     | OfId i \<Rightarrow>
         (case s of
            None \<Rightarrow> (Inl (PyExc ValueErrorC ''Command id target requires a discovery suite''), r)
          | Some s \<Rightarrow>
              (case get_case s i of
                 None \<Rightarrow> (Inl (PyExc ValueErrorC ''Command id not found in suite''), r)
               | Some c \<Rightarrow> (Inr c, r)))
     | OfTarget x \<Rightarrow>
         (case Option.bind s (\<lambda>s. Option.bind command_id (get_case s)) of
            Some c \<Rightarrow> (Inr c, r)
          | None \<Rightarrow>
              (case discover_tests w mems m g [x] (case command_id of None \<Rightarrow> [] | Some i \<Rightarrow> [i]) r of
                 (Inl e, r1) \<Rightarrow> (Inl e, r1)
               | (Inr found, r1) \<Rightarrow>
                   (case command_id of
                      Some i \<Rightarrow>
                        (case get_case found i of
                           None \<Rightarrow> (Inl (PyExc ValueErrorC ''Command id not discovered''), r1)
                         | Some c \<Rightarrow> (Inr c, r1))
                    | None \<Rightarrow>
                        (case su_cases found of
                           [c] \<Rightarrow> (Inr c, r1)
                         | _ \<Rightarrow> (Inl (PyExc ValueErrorC
                                  ''Target resolves to multiple cases; pass command_id or a DiscoveredTestCase''), r1))))))"

definition case_command_def :: "base_commands \<Rightarrow> test_case \<Rightarrow> command_def res" where
  "case_command_def b c =
    (case (case get_command_def_by_id b (tc_command_id c) of
             Some d \<Rightarrow> Some d | None \<Rightarrow> get_command_def b (tc_command_name c)) of
       None \<Rightarrow> Inl (PyExc ValueErrorC (''Command definition not found for '' @ tc_command_id c))
     | Some d \<Rightarrow> Inr d)"

definition resolve_argv :: "command_def \<Rightarrow> string list option \<Rightarrow> string option \<Rightarrow> string list res" where
  "resolve_argv d argv raw_text =
    (case argv of
       Some vs \<Rightarrow> Inr vs
     | None \<Rightarrow> (case raw_text of None \<Rightarrow> Inr [] | Some s \<Rightarrow> deserialize_args d s))"

definition build_invocation ::
  "test_case \<Rightarrow> string list \<Rightarrow> (string, pyval) dict \<Rightarrow> string option \<Rightarrow> string \<Rightarrow> string option \<Rightarrow> string
   \<Rightarrow> invocation" where
  "build_invocation c argv kwargs raw_text source run_id uuid =
    default_invocation\<lparr>inv_run_id := Some (if truthy_str run_id then the run_id else uuid), inv_source := source,
      inv_console_id := Some (tc_console_name c), inv_command_id := Some (tc_command_id c),
      inv_command_name := Some (tc_command_name c), inv_argv := argv, inv_kwargs := kwargs, inv_raw_cmd := raw_text\<rparr>"

text \<open>
  What \<open>run\<close> is asked for, and the steps both harnesses begin with: the commands are built on a
  console stub, a class no registry knows (\<open>stub_cls\<close>).
\<close>

record run_request =
  rr_argv :: "string list option"
  rr_kwargs :: "(string, pyval) dict"
  rr_raw_text :: "string option"
  rr_validate :: bool
  rr_raise :: bool
  rr_run_id :: "string option"
  rr_source :: string

definition prepare_run ::
  "constructor \<Rightarrow> members \<Rightarrow> nat \<Rightarrow> string \<Rightarrow> run_request \<Rightarrow> test_case \<Rightarrow> command_registry
   \<Rightarrow> (base_commands \<times> command_def \<times> invocation) res \<times> command_registry" where
  "prepare_run mk mems stub_cls uuid q c r =
    (case new_base_commands mk mems (tc_console_name c) stub_cls (tc_commands_cls c) r of
       (Inl e, r1) \<Rightarrow> (Inl e, r1)
     | (Inr b, r1) \<Rightarrow>
         (case case_command_def b c of
            Inl e \<Rightarrow> (Inl e, r1)
          | Inr d \<Rightarrow>
              (case resolve_argv d (rr_argv q) (rr_raw_text q) of
                 Inl e \<Rightarrow> (Inl e, r1)
               | Inr argv \<Rightarrow>
                   (Inr (b, d, build_invocation c argv (rr_kwargs q) (rr_raw_text q) (rr_source q) (rr_run_id q) uuid),
                    r1))))"

section \<open>Running\<close>

record user_code =
  uc_call :: "func_obj \<Rightarrow> string list \<Rightarrow> (string, pyval) dict \<Rightarrow> pyval code"
  uc_validate :: "nat option \<Rightarrow> string \<Rightarrow> unit code"

definition run_validator :: "constructor \<Rightarrow> user_code \<Rightarrow> command_def \<Rightarrow> string option \<Rightarrow> string list \<Rightarrow> unit code" where
  "run_validator mk u d raw_text argv =
    (case build_validator mk (cd_validator d) of
       Inl e \<Rightarrow> ([], Inl e)
     | Inr v \<Rightarrow> uc_validate u v (case raw_text of Some s \<Rightarrow> s | None \<Rightarrow> join_sp argv))"

record test_result =
  tr_ok :: bool
  tr_command_id :: string
  tr_return_value :: pyval
  tr_exception :: "pyexc option"
  tr_outputs :: "output_record list"
  tr_runtime_events :: "any_event list"
  tr_validator_ran :: bool
  tr_invocation :: invocation
  tr_run_id :: "string option"

text \<open>The \<open>except\<close> clause and the report on the events collected.\<close>

definition report_events ::
  "run_request \<Rightarrow> test_case \<Rightarrow> invocation \<Rightarrow> bool \<Rightarrow> any_event list \<Rightarrow> any_event list \<Rightarrow> pyval res \<Rightarrow> test_result res" where
  "report_events q c iv validated runtime ui outcome =
    (let report = (\<lambda>value exc. \<lparr>tr_ok = (exc = None), tr_command_id = tc_command_id c, tr_return_value = value,
           tr_exception = exc, tr_outputs = build_output_records runtime ui,
           tr_runtime_events = runtime, tr_validator_ran = validated, tr_invocation = iv,
           tr_run_id = inv_run_id iv\<rparr>)
     in case outcome of
          Inr v \<Rightarrow> Inr (report v None)
        | Inl e \<Rightarrow>
            if \<not> isinstance_exc e ExceptionC \<or> rr_raise q then Inl e else Inr (report VNone (Some e)))"

text \<open>The report when \<open>es\<close> is what the run's prints did.\<close>

definition harness_report ::
  "router_id \<Rightarrow> run_request \<Rightarrow> test_case \<Rightarrow> invocation \<Rightarrow> bool \<Rightarrow> print_effect list \<Rightarrow> pyval res \<Rightarrow> test_result res" where
  "harness_report collector q c iv validated es outcome =
    report_events q c iv validated (collected_runtime es) (collected_ui collector es) outcome"

definition harness_ctx :: "invocation \<Rightarrow> run_context" where
  "harness_ctx iv = no_context\<lparr>rc_run_id := inv_run_id iv, rc_source := Some (inv_source iv),
     rc_emitter := Some Collect, rc_command_id := inv_command_id iv\<rparr>"

definition collecting :: "router_id \<Rightarrow> provider \<Rightarrow> provider" where
  "collecting collector p = p\<lparr>pv_current := Some collector\<rparr>"

text \<open>The validator, when there is one and it is asked for.\<close>

definition validation ::
  "constructor \<Rightarrow> user_code \<Rightarrow> run_request \<Rightarrow> command_def \<Rightarrow> invocation \<Rightarrow> (bool \<times> unit code)" where
  "validation mk u q d iv =
    (if rr_validate q \<and> cd_validator d \<noteq> None
     then (True, run_validator mk u d (rr_raw_text q) (inv_argv iv)) else (False, [], Inr ()))"

definition command_harness_run ::
  "constructor \<Rightarrow> members \<Rightarrow> nat \<Rightarrow> user_code \<Rightarrow> real \<Rightarrow> provider \<Rightarrow> router_id \<Rightarrow> string \<Rightarrow> run_request \<Rightarrow> test_case
   \<Rightarrow> command_registry \<Rightarrow> test_result res \<times> command_registry" where
  "command_harness_run mk mems stub_cls u now p collector uuid q c r =
    (case prepare_run mk mems stub_cls uuid q c r of
       (Inl e, r1) \<Rightarrow> (Inl e, r1)
     | (Inr (b, d, iv), r1) \<Rightarrow>
         (case validation mk u q d iv of
            (validated, vps, vres) \<Rightarrow>
              (case (case vres of Inl e \<Rightarrow> ([], Inl e) | Inr _ \<Rightarrow> uc_call u (cd_func d) (inv_argv iv) (rr_kwargs q)) of
                 (cps, cres) \<Rightarrow>
                   (harness_report collector q c iv validated
                      (print_effects now (harness_ctx iv) (collecting collector p) (vps @ cps)) cres, r1))))"

text \<open>
  The invocation harness without an executor: the validator runs outside the run context, and the
  command through the binding, which calls it without keyword arguments.
\<close>

definition invocation_harness_run ::
  "constructor \<Rightarrow> members \<Rightarrow> nat \<Rightarrow> nat \<Rightarrow> console_registry \<Rightarrow> user_code \<Rightarrow> real \<Rightarrow> provider \<Rightarrow> router_id \<Rightarrow> string
   \<Rightarrow> run_request \<Rightarrow> test_case \<Rightarrow> command_registry \<Rightarrow> test_result res \<times> command_registry" where
  "invocation_harness_run mk mems default_cls stub_cls g u now p collector uuid q c r =
    (case prepare_run mk mems stub_cls uuid q c r of
       (Inl e, r1) \<Rightarrow> (Inl e, r1)
     | (Inr (b, d, iv), r1) \<Rightarrow>
         let ctx = (new_execution_context (inv_source iv))
               \<lparr>xc_console_name := Some (tc_console_name c), xc_command_name := Some (tc_command_name c),
                xc_command_id := Some (tc_command_id c), xc_argv := inv_argv iv, xc_kwargs := rr_kwargs q,
                xc_raw_cmd := rr_raw_text q, xc_run_id := inv_run_id iv\<rparr> in
         (case validation mk u q d iv of
            (validated, vps, vres) \<Rightarrow>
              (case (case vres of
                       Inl e \<Rightarrow> (([], Inl e), r1)
                     | Inr _ \<Rightarrow>
                         (case binding_execute mk mems default_cls g (Some ctx) (Some b) iv r1 of
                            (Inl e, r2) \<Rightarrow> (([], Inl e), r2)
                          | (Inr (f, argv), r2) \<Rightarrow> (uc_call u f argv [], r2))) of
                 ((cps, cres), r2) \<Rightarrow>
                   (harness_report collector q c iv validated
                      (print_effects now no_context (collecting collector p) vps @
                       print_effects now (harness_ctx iv) (collecting collector p) cps) cres, r2))))"

section \<open>Suites\<close>

lemma dict_set_append:
  "k \<notin> set (dict_keys d) \<Longrightarrow> dict_set k v d = d @ [(k, v)]"
  by (induction d) auto

text \<open>Cases are put in by id: sorted ids stay sorted, a repeated id replaces the case before it.\<close>

lemma suite_fold:
  assumes "sorted (map tc_command_id cs)" and "sorted (dict_keys d)" and "distinct (dict_keys d)"
    and "\<forall>k \<in> set (dict_keys d). \<forall>c \<in> set cs. k \<le> tc_command_id c"
    and "\<forall>(k, c) \<in> set d. tc_command_id c = k"
  defines "d' \<equiv> fold (\<lambda>c. dict_set (tc_command_id c) c) cs d"
  shows "sorted (dict_keys d') \<and> distinct (dict_keys d') \<and>
    set (dict_keys d') = set (dict_keys d) \<union> tc_command_id ` set cs \<and>
    (\<forall>(k, c) \<in> set d'. tc_command_id c = k \<and> ((k, c) \<in> set d \<or> c \<in> set cs))"
  using assms(1-5) unfolding d'_def
proof (induction cs arbitrary: d)
  case Nil
  then show ?case by auto
next
  case (Cons c cs)
  let ?d = "dict_set (tc_command_id c) c d"
  have keys: "set (dict_keys ?d) = insert (tc_command_id c) (set (dict_keys d))" "distinct (dict_keys ?d)"
    using Cons.prems(3) by (simp_all add: dom_update distinct_update)
  have s: "sorted (dict_keys ?d)"
    using Cons.prems(2,4) by (cases "tc_command_id c \<in> set (dict_keys d)")
      (simp_all add: update_keys sorted_append)
  have new: "(k, x) \<in> set ?d \<Longrightarrow> (k, x) = (tc_command_id c, c) \<or> (k, x) \<in> set d" for k x
    by (induction d) (auto split: if_splits)
  have p: "\<forall>k \<in> set (dict_keys ?d). \<forall>c \<in> set cs. k \<le> tc_command_id c" "sorted (map tc_command_id cs)"
    using Cons.prems(1,4) unfolding keys(1) by auto
  have ids: "\<forall>(k, x) \<in> set ?d. tc_command_id x = k"
    using Cons.prems(5) by (auto dest!: new)
  let ?r = "fold (\<lambda>c. dict_set (tc_command_id c) c) cs ?d"
  have r: "sorted (dict_keys ?r)" "distinct (dict_keys ?r)"
    "set (dict_keys ?r) = set (dict_keys ?d) \<union> tc_command_id ` set cs"
    "\<forall>(k, x) \<in> set ?r. tc_command_id x = k \<and> ((k, x) \<in> set ?d \<or> x \<in> set cs)"
    using Cons.IH [OF p(2) s keys(2) p(1) ids] by simp_all
  have "tc_command_id x = k \<and> ((k, x) \<in> set d \<or> x \<in> set (c # cs))" if "(k, x) \<in> set ?r" for k x
  proof -
    have "tc_command_id x = k \<and> ((k, x) \<in> set ?d \<or> x \<in> set cs)" using r(4) that by blast
    then show ?thesis using new [of k x] by auto
  qed
  then have "\<forall>(k, x) \<in> set ?r. tc_command_id x = k \<and> ((k, x) \<in> set d \<or> x \<in> set (c # cs))" by blast
  moreover have "set (dict_keys ?r) = set (dict_keys d) \<union> tc_command_id ` set (c # cs)"
    unfolding r(3) keys(1) by auto
  ultimately show ?case unfolding fold_simps using r(1,2) by blast
qed

lemma new_suite_index:
  fixes cases :: "test_case list"
  defines "s \<equiv> new_suite cases"
  shows "sorted (suite_ids s) \<and> distinct (suite_ids s) \<and> set (suite_ids s) = tc_command_id ` set cases \<and>
    (\<forall>i c. get_case s i = Some c \<longrightarrow> tc_command_id c = i \<and> c \<in> set cases) \<and>
    (\<forall>i. get_case s i \<noteq> None \<longleftrightarrow> i \<in> set (suite_ids s))"
proof -
  let ?d = "fold (\<lambda>c. dict_set (tc_command_id c) c) (sort_key tc_command_id cases) []"
  have f: "sorted (dict_keys ?d) \<and> distinct (dict_keys ?d) \<and> set (dict_keys ?d) = tc_command_id ` set cases \<and>
    (\<forall>(k, c) \<in> set ?d. tc_command_id c = k \<and> c \<in> set cases)"
    using suite_fold [of "sort_key tc_command_id cases" "[]"] by simp
  have ids: "suite_ids s = dict_keys ?d"
    unfolding s_def using f by (auto simp: suite_ids_def new_suite_def Let_def)
  have get: "get_case s i = map_of ?d i" for i by (simp add: get_case_def s_def new_suite_def Let_def)
  show ?thesis
    unfolding ids get using f map_of_eq_None [of ?d] by (auto dest!: map_of_SomeD)
qed

section \<open>Discovered cases can be run\<close>

text \<open>A case comes from a definition of its command class.\<close>

definition case_of_defs :: "members \<Rightarrow> command_registry \<Rightarrow> test_case \<Rightarrow> bool" where
  "case_of_defs mems r c \<longleftrightarrow>
    tc_command_id c = build_command_id (tc_console_name c) (tc_command_name c) \<and>
    (\<exists>d \<in> set (cls_defs mems r (tc_commands_cls c)). cd_func_name d = tc_command_name c)"

lemma case_of_defs_same: "same_defs mems r r' \<Longrightarrow> case_of_defs mems r' c = case_of_defs mems r c"
  by (simp add: case_of_defs_def same_defs_def)

lemma case_for_defs:
  "case_for w m s k d b = Some c \<Longrightarrow> d \<in> set (cls_defs mems r k) \<Longrightarrow> case_of_defs mems r c"
  by (auto simp: case_for_def case_of_defs_def Let_def split: if_splits)

lemma in_map_filter: "y \<in> set (List.map_filter f xs) \<longleftrightarrow> (\<exists>x \<in> set xs. f x = Some y)"
  by (induction xs) (auto simp: map_filter_simps split: option.split)

lemma class_cases_defs:
  assumes "class_cases w mems m g s k r = (cs, r1)"
  shows "same_defs mems r r1" "c \<in> set cs \<Longrightarrow> case_of_defs mems r c"
proof -
  obtain defs where d: "collect_from_commands_cls mems k r = (defs, r1)"
    "cs = concat (map (\<lambda>d. List.map_filter (case_for w m s k d) (console_bindings w g r k)) defs)"
    using assms by (auto simp: class_cases_def Let_def split: prod.splits)
  show "same_defs mems r r1" using collect_same [of mems r k] d(1) by simp
  have "defs = cls_defs mems r k" using collect_view [of mems k r] d(1) by simp
  then show "c \<in> set cs \<Longrightarrow> case_of_defs mems r c"
    by (auto simp: d(2) in_map_filter intro: case_for_defs)
qed

lemma all_cases_defs:
  assumes "all_cases w mems m g s ks r = (cs, r1)"
  shows "same_defs mems r r1 \<and> (\<forall>c \<in> set cs. case_of_defs mems r c)"
  using assms
proof (induction ks arbitrary: r cs)
  case (Cons k ks)
  obtain xs r0 ys where x: "class_cases w mems m g s k r = (xs, r0)" "all_cases w mems m g s ks r0 = (ys, r1)"
    "cs = xs @ ys" using Cons.prems by (auto simp: Let_def split: prod.splits)
  have IH: "same_defs mems r0 r1 \<and> (\<forall>c \<in> set ys. case_of_defs mems r0 c)" by (rule Cons.IH [OF x(2)])
  note first = class_cases_defs [OF x(1)]
  then show ?case using IH x(3) same_defs_trans [OF first(1)] case_of_defs_same [OF first(1)] by auto
qed simp

lemma find_last_some: "d \<in> set ds \<Longrightarrow> P d \<Longrightarrow> \<exists>d'. find_last P ds = Some d' \<and> d' \<in> set ds \<and> P d'"
  using find_None_iff [of P "rev ds"] find_mem [of P "rev ds"]
  by (cases "find P (rev ds)") (auto simp: find_last_def)

text \<open>C28: discovered tests are an index of runnable commands. The ids of a discovered suite are sorted
  and distinct, each finds a case of its own id, and every harness that builds the commands of
  such a case, in the registry discovery leaves behind, resolves it to a definition of the case's
  command name.\<close>

theorem discovered_cases_resolve:
  assumes found: "discover_tests w mems m g targets ids r = (Inr s, r1)"
    and stub: "get_commands_cls r stub_cls = None" "dict_get_or (cr_console_defs r) stub_cls [] = []"
  shows "sorted (suite_ids s) \<and> distinct (suite_ids s) \<and>
    (\<forall>i \<in> set (suite_ids s). \<exists>c. get_case s i = Some c \<and> tc_command_id c = i \<and>
      (\<forall>mk b r2. new_base_commands mk mems (tc_console_name c) stub_cls (tc_commands_cls c) r1 = (Inr b, r2) \<longrightarrow>
        (\<exists>d. case_command_def b c = Inr d \<and> cd_func_name d = tc_command_name c)))"
proof -
  obtain sel classes cs where cs: "all_cases w mems m g sel classes r = (cs, r1)" "s = new_suite cs"
    using found by (auto simp: discover_tests_def Let_def split: sum.splits prod.splits)
  note all = all_cases_defs [OF cs(1)] and index = new_suite_index [of cs, folded cs(2)]
  have "\<exists>d. case_command_def b c = Inr d \<and> cd_func_name d = tc_command_name c"
    if c: "case_of_defs mems r c"
      and b: "new_base_commands mk mems (tc_console_name c) stub_cls (tc_commands_cls c) r1 = (Inr b, r2)"
    for c mk b r2
  proof -
    have r1: "cls_defs mems r1 = cls_defs mems r" "get_commands_cls r1 stub_cls = None"
      "dict_get_or (cr_console_defs r1) stub_cls [] = []"
      using all stub by (simp_all add: same_defs_def get_commands_cls_def)
    note t = base_commands_tables [OF b]
    have "bc_defs b = cls_defs mems r (tc_commands_cls c)"
      using t(3) r1 collect_view [of mems "tc_commands_cls c" r1]
      by (simp add: console_defs_def get_command_defs_for_console_def)
    then obtain d where d: "d \<in> set (bc_defs b)" "cd_func_name d = tc_command_name c"
      "tc_command_id c = build_command_id (tc_console_name c) (tc_command_name c)"
      using c by (auto simp: case_of_defs_def)
    obtain d' where "find_last (\<lambda>d. def_command_id (tc_console_name c) d = tc_command_id c) (bc_defs b) = Some d'"
      "def_command_id (tc_console_name c) d' = tc_command_id c"
      using find_last_some [of d "bc_defs b" "\<lambda>d. def_command_id (tc_console_name c) d = tc_command_id c"] d
      by (auto simp: def_command_id_def)
    then show ?thesis
      using t(1) d(3) by (simp add: case_command_def_def def_command_id_def build_command_id_def)
  qed
  then show ?thesis using index all by (metis option.exhaust)
qed

section \<open>The harnesses agree\<close>

lemma print_effects_append: "print_effects now c p (a @ b) = print_effects now c p a @ print_effects now c p b"
  by (simp add: print_effects_def)

lemma prepare_run_call:
  assumes "prepare_run mk mems stub_cls uuid q c r = (Inr (b, d, iv), r1)"
  shows "command_call b iv = Inr (cd_func d, inv_argv iv)"
proof -
  have "case_command_def b c = Inr d" "inv_command_id iv = Some (tc_command_id c)"
    "inv_command_name iv = Some (tc_command_name c)"
    using assms by (auto simp: prepare_run_def build_invocation_def split: prod.splits sum.splits)
  then show ?thesis by (auto simp: case_command_def_def command_call_def split: option.splits)
qed

text \<open>The two harnesses are equivalent. Without keyword arguments, and when the validator is not
  run or prints nothing, running a case directly and through an execution binding gives the same
  report, value, exception, captured output and invocation included.\<close>

theorem harnesses_agree:
  assumes "rr_kwargs q = []"
    and "\<not> rr_validate q \<or> (\<forall>v text. fst (uc_validate u v text) = [])"
  shows "invocation_harness_run mk mems dc stub_cls g u now p collector uuid q c r =
    command_harness_run mk mems stub_cls u now p collector uuid q c r"
proof (cases "prepare_run mk mems stub_cls uuid q c r")
  case (Pair x r1)
  show ?thesis
  proof (cases x)
    case (Inl e)
    then show ?thesis using Pair by (simp add: command_harness_run_def invocation_harness_run_def)
  next
    case (Inr y)
    obtain b d iv where y: "y = (b, d, iv)" by (cases y)
    then have call: "command_call b iv = Inr (cd_func d, inv_argv iv)"
      using prepare_run_call Pair Inr by simp
    obtain validated vps vres where v: "validation mk u q d iv = (validated, vps, vres)" by (cases "validation mk u q d iv")
    then have "vps = []"
      using assms(2) by (auto simp: validation_def run_validator_def split: if_splits sum.splits) (metis fst_conv)
    then show ?thesis
      using Pair Inr y v call assms(1)
      by (simp add: command_harness_run_def invocation_harness_run_def binding_execute_def Let_def
          print_effects_def split: sum.split prod.split)
  qed
qed

section \<open>A suite to run\<close>

definition demo_classes :: class_world where
  "demo_classes = \<lparr>cl_mro = (\<lambda>c. [c]), cl_members = (\<lambda>_. []), cl_module = (\<lambda>_. None), cl_qualname = (\<lambda>_. []),
     cl_object = (\<lambda>_ _. None), cl_is_commands = (\<lambda>_. True), cl_attr = (\<lambda>_ _. None),
     cl_console_name = (\<lambda>_. None), cl_name = (\<lambda>_. ''Commands'')\<rparr>"

definition demo_discovery :: "suite res \<times> command_registry" where
  "demo_discovery = discover_tests demo_classes (\<lambda>_. []) \<lparr>ma_classes = [], ma_funcs = []\<rparr> demo_root_only
     [CommandsClass 2] [] (demo_binding_registry False)"

definition demo_suite :: suite where
  "demo_suite = (case fst demo_discovery of Inr s \<Rightarrow> s)"

lemma demo_discovered:
  "demo_discovery = (Inr demo_suite, snd demo_discovery)"
  "suite_ids demo_suite = [''cmd:root:show'', ''cmd:root:stop'']"
  "get_commands_cls (demo_binding_registry False) 99 = None"
  "dict_get_or (cr_console_defs (demo_binding_registry False)) 99 [] = []"
  by code_simp+

lemma discovered_cases_resolve_witness:
  "\<exists>c b d. get_case demo_suite ''cmd:root:stop'' = Some c \<and>
    fst (new_base_commands (\<lambda>_ _. Inr 0) (\<lambda>_. []) (tc_console_name c) 99 (tc_commands_cls c) (snd demo_discovery)) = Inr b \<and>
    case_command_def b c = Inr d \<and> cd_func_name d = tc_command_name c"
proof -
  let ?new = "\<lambda>c. new_base_commands (\<lambda>_ _. Inr 0) (\<lambda>_. []) (tc_console_name c) 99 (tc_commands_cls c) (snd demo_discovery)"
  note w = discovered_cases_resolve [OF demo_discovered(1) [unfolded demo_discovery_def] demo_discovered(3,4), folded demo_discovery_def]
  have "''cmd:root:stop'' \<in> set (suite_ids demo_suite)" unfolding demo_discovered(2) by simp
  then obtain c where c: "get_case demo_suite ''cmd:root:stop'' = Some c"
    "\<And>b r2. ?new c = (Inr b, r2) \<Longrightarrow> \<exists>d. case_command_def b c = Inr d \<and> cd_func_name d = tc_command_name c"
    using w by blast
  have "\<not> isl (fst (?new (the (get_case demo_suite ''cmd:root:stop''))))" by code_simp
  then obtain b where "fst (?new c) = Inr b" using c(1) by (auto simp: isl_def) (metis sum.exhaust)
  then show ?thesis using c by (metis prod.collapse)
qed

text \<open>A command that prints its arguments' number and returns its keyword arguments.\<close>

definition demo_code :: user_code where
  "demo_code = \<lparr>uc_call = (\<lambda>f argv kw. ([\<lparr>pr_text = VInt (int (length argv)), pr_level = NoLevel, pr_source = ''tty''\<rparr>],
       Inr (VDict kw))), uc_validate = (\<lambda>_ _. ([], Inr ()))\<rparr>"

definition demo_run_request :: "(string, pyval) dict \<Rightarrow> run_request" where
  "demo_run_request kw = \<lparr>rr_argv = Some [''a'', ''b''], rr_kwargs = kw, rr_raw_text = None, rr_validate = True,
     rr_raise = False, rr_run_id = None, rr_source = ''test''\<rparr>"

definition demo_direct :: "(string, pyval) dict \<Rightarrow> test_result res" where
  "demo_direct kw = fst (command_harness_run (\<lambda>_ _. Inr 0) (\<lambda>_. []) 99 demo_code 0 new_provider 5 ''u''
     (demo_run_request kw) (hd (su_cases demo_suite)) (snd demo_discovery))"

definition demo_bound :: "(string, pyval) dict \<Rightarrow> test_result res" where
  "demo_bound kw = fst (invocation_harness_run (\<lambda>_ _. Inr 0) (\<lambda>_. []) 0 99 demo_root_only demo_code 0 new_provider 5 ''u''
     (demo_run_request kw) (hd (su_cases demo_suite)) (snd demo_discovery))"

lemma harnesses_agree_witness:
  "demo_bound [] = demo_direct [] \<and> map_sum id (map ou_message \<circ> tr_outputs) (demo_direct []) = Inr [VInt 2]"
proof -
  have "map_sum id (map ou_message \<circ> tr_outputs) (demo_direct []) = Inr [VInt 2]" by code_simp
  then show ?thesis
    using harnesses_agree [of "demo_run_request []" demo_code]
    by (simp add: demo_bound_def demo_direct_def demo_run_request_def demo_code_def)
qed

text \<open>
  With keyword arguments they do not: the binding drops them, so the command runs without what the
  caller asked for, and the report's invocation still lists it.
\<close>

lemma binding_drops_kwargs:
  "map_sum id tr_return_value (demo_direct [(''k'', VInt 1)]) = Inr (VDict [(''k'', VInt 1)]) \<and>
   map_sum id tr_return_value (demo_bound [(''k'', VInt 1)]) = Inr (VDict []) \<and>
   map_sum id (inv_kwargs \<circ> tr_invocation) (demo_bound [(''k'', VInt 1)]) = Inr [(''k'', VInt 1)]"
  by code_simp

end
