(* ===== verification/ExecHarness.thy ===== *)
theory ExecHarness
  imports Harness
begin

text \<open>
  The harness's path through an executor (\<open>testing/harness.py\<close>): the command runs as a handler
  that an executor, the caller's or a fresh one, accepts, and the harness waits for its result and
  reports the events the executor published on the way (\<open>capture_executor_events\<close> of
  \<open>testing/capture.py\<close>).
\<close>

section \<open>The executor and its handler\<close>

definition harness_executor_config :: executor_config where
  "harness_executor_config =
    default_executor_config\<lparr>ec_workers := 1, ec_sync_in_threadpool := False, ec_emit_run_events := True\<rparr>"

text \<open>\<open>_resolve_executor\<close>: the executor, and whether the harness owns it.\<close>

definition resolve_executor :: "exec option \<Rightarrow> world \<Rightarrow> (exec \<times> bool) res" where
  "resolve_executor supplied w =
    (case supplied of
       Some ex \<Rightarrow> Inr (ex, False)
     | None \<Rightarrow> map_sum id (\<lambda>ex. (ex, True)) (new_executor 1 None (Some harness_executor_config) w))"

text \<open>What a print of the command does to the executor: its run's emitter publishes the event.\<close>

definition emit_print :: "print_effect \<Rightarrow> exec \<Rightarrow> exec" where
  "emit_print e ex =
    (case e of Emitted (PublishTo run_id) ev \<Rightarrow> publish_event (Some run_id) ev ex | _ \<Rightarrow> ex)"

text \<open>The handler \<open>lambda inv: binding.execute(inv)\<close> for commands \<open>b\<close>, which returns a plain value.\<close>

definition binding_handler :: "user_code \<Rightarrow> real \<Rightarrow> provider \<Rightarrow> base_commands \<Rightarrow> handler_env" where
  "binding_handler u now p b =
    \<lparr>he_coro = (\<lambda>_. False),
     he_call = (\<lambda>_ c iv ex.
       case command_call b iv of
         Inl e \<Rightarrow> (Raises e, ex)
       | Inr (f, argv) \<Rightarrow>
           (case uc_call u f argv [] of
              (prints, out) \<Rightarrow>
                (case out of Inl e \<Rightarrow> Raises e | Inr v \<Rightarrow> Returns v,
                 fold emit_print (print_effects now c p prints) ex))),
     he_await = (\<lambda>_ _ _ ex. (None, ex)), he_isfuture = (\<lambda>_. False)\<rparr>"

text \<open>\<open>capture_executor_events\<close>: a closure with a new sink takes the place of \<open>publish_event\<close> until the end.\<close>

definition capture_begin :: "exec \<Rightarrow> exec" where
  "capture_begin ex = ex\<lparr>ex_captures := [] # ex_captures ex\<rparr>"

definition capture_end :: "exec \<Rightarrow> runtime_event list \<times> exec" where
  "capture_end ex = (hd (ex_captures ex), ex\<lparr>ex_captures := tl (ex_captures ex)\<rparr>)"

text \<open>
  Submitting and waiting, with the captured events. An executor of the harness's own is shut down only after a result: when
  \<open>wait_result_sync\<close> raises, that line is not reached. \<open>None\<close> is a wait that has not ended.
\<close>

definition executor_outcome ::
  "handler_env \<Rightarrow> exec option \<Rightarrow> world \<Rightarrow> invocation
   \<Rightarrow> (pyval res \<times> runtime_event list \<times> invocation \<times> exec option) option" where
  "executor_outcome he supplied w iv =
    (case resolve_executor supplied w of
       Inl e \<Rightarrow> Some (Inl e, [], iv, None)
     | Inr (ex, owns) \<Rightarrow>
         (case submit_threadsafe he iv (Some (Handler 0)) (capture_begin ex) of
            None \<Rightarrow> None
          | Some (Inl e, iv1, ex1) \<Rightarrow> (case capture_end ex1 of (evs, ex2) \<Rightarrow> Some (Inl e, evs, iv1, Some ex2))
          | Some (Inr run_ref, iv1, ex1) \<Rightarrow>
              (case wait_result_sync run_ref ex1 of
                 None \<Rightarrow> None
               | Some (out, ex2) \<Rightarrow>
                   (case capture_end ex2 of (evs, ex3) \<Rightarrow>
                      Some (out, evs, iv1\<lparr>inv_run_id := Some run_ref\<rparr>,
                            Some (if owns \<and> \<not> isl out then shutdown_threadsafe_stopped ex3 else ex3))))))"

text \<open>
  The whole of \<open>InvocationHarness.run\<close> with \<open>through_executor\<close>. The validator prints outside the run, so
  to the harness's router; what the command prints are events of the run.
\<close>

definition executor_harness_run ::
  "constructor \<Rightarrow> members \<Rightarrow> nat \<Rightarrow> user_code \<Rightarrow> real \<Rightarrow> provider \<Rightarrow> router_id \<Rightarrow> string \<Rightarrow> exec option \<Rightarrow> world
   \<Rightarrow> run_request \<Rightarrow> test_case \<Rightarrow> command_registry
   \<Rightarrow> (test_result res \<times> exec option \<times> command_registry) option" where
  "executor_harness_run mk mems stub_cls u now p collector uuid supplied w q c r =
    (case prepare_run mk mems stub_cls uuid q c r of
       (Inl e, r1) \<Rightarrow> Some (Inl e, supplied, r1)
     | (Inr (b, d, iv), r1) \<Rightarrow>
         (case validation mk u q d iv of
            (validated, vps, vres) \<Rightarrow>
              (let ui = collected_ui collector (print_effects now no_context (collecting collector p) vps)
               in case vres of
                    Inl e \<Rightarrow> Some (report_events q c iv validated [] ui (Inl e), supplied, r1)
                  | Inr _ \<Rightarrow>
                      (case executor_outcome (binding_handler u now (collecting collector p) b) supplied w iv of
                         None \<Rightarrow> None
                       | Some (out, evs, iv1, ex) \<Rightarrow>
                           Some (report_events q c iv1 validated (map RuntimeEv evs) ui out, ex, r1)))))"

section \<open>The outcome is the command's own\<close>

lemma quiet_emit_print: "quiet ex (emit_print e ex)"
  by (auto simp: emit_print_def quiet_publish split: print_effect.split emitter.split)

lemma quiet_emit_prints: "quiet ex (fold emit_print es ex)"
  by (induction es arbitrary: ex) (auto intro: quiet_trans quiet_emit_print)

text \<open>How the call of a command's method ends, without keyword arguments.\<close>

definition call_outcome :: "user_code \<Rightarrow> base_commands \<Rightarrow> invocation \<Rightarrow> pyval res" where
  "call_outcome u b iv =
    (case command_call b iv of Inl e \<Rightarrow> Inl e | Inr (f, argv) \<Rightarrow> snd (uc_call u f argv []))"

lemma binding_handler_inline:
  "\<exists>ex2. quiet ex1 ex2 \<and>
    run_handler_inline (binding_handler u now p b) c iv (Handler 0) None ex1 = (Some (call_outcome u b iv), ex2)"
proof -
  have q: "quiet ex1 (snd (read_mono ex1))" by (simp add: quiet_def read_mono_def)
  show ?thesis
  proof (cases "command_call b iv")
    case (Inl e)
    then show ?thesis using q
      by (simp add: run_handler_inline_def call_handler_def binding_handler_def call_outcome_def split_beta Let_def)
  next
    case (Inr fa)
    obtain f argv where fa: "fa = (f, argv)" by (cases fa)
    let ?es = "print_effects now c p (fst (uc_call u f argv []))"
    have "quiet ex1 (fold emit_print ?es (snd (read_mono ex1)))"
      using q quiet_emit_prints by (rule quiet_trans)
    then show ?thesis using Inr fa
      by (auto simp: run_handler_inline_def call_handler_def binding_handler_def call_outcome_def split_beta Let_def
          split: sum.split)
  qed
qed

lemma fresh_harness_executor:
  obtains ex where "resolve_executor None w = Inr (ex, True)" "ex_loop ex = None"
    "w_cur_loop ex = w_cur_loop w" "js_retain (ex_js ex) = None" "js_ttl (ex_js ex) = None"
    "get_future (ex_js ex) r = None" "ex_exempt ex = default_exempt" "ec_emit_run_events (ex_config ex)" "ex_captures ex = []"
  using that
  by (simp add: resolve_executor_def new_executor_def Let_def init_audit_sink_def harness_executor_config_def
      default_executor_config_def default_audit_config_def world.defs new_job_store_def get_future_def)

section \<open>What is captured\<close>

lemma captures_frame [simp]:
  "ex_captures (snd (read_wall ex)) = ex_captures ex" "ex_captures (snd (read_mono ex)) = ex_captures ex"
  "ex_captures (upd_js f ex) = ex_captures ex" "ex_captures (with_sink g ex) = ex_captures ex"
  "ex_captures (audit_run_state a ex) = ex_captures ex" "ex_captures (audit_invocation iv ex) = ex_captures ex"
  "ex_captures (register_run iv ex) = ex_captures ex" "ex_captures (snd (exec_cleanup ex)) = ex_captures ex"
  "ex_captures (resolve_if b run_id v e ex) = ex_captures ex" "ex_captures (pop_on_wait run_id ex) = ex_captures ex"
  "ex_captures (store_event ro ev ex) = ex_captures ex" "ex_captures (deliver_event ro ev ex) = ex_captures ex"
  "ex_captures (snd (stamp_event ro ev ex)) = ex_captures ex"
proof -
  show r: "ex_captures (snd (read_wall ex)) = ex_captures ex" "ex_captures (snd (read_mono ex)) = ex_captures ex" for ex
    by (simp_all add: read_wall_def read_mono_def)
  show u: "ex_captures (upd_js f ex) = ex_captures ex" for f ex by (simp add: upd_js_def)
  show w: "ex_captures (with_sink g ex) = ex_captures ex" for g ex
    by (simp add: with_sink_def split_beta r split: option.split)
  show a: "ex_captures (audit_run_state a ex) = ex_captures ex" "ex_captures (audit_invocation iv ex) = ex_captures ex" for a iv ex
    by (simp_all add: audit_run_state_def audit_invocation_def w)
  show "ex_captures (register_run iv ex) = ex_captures ex"
    by (simp add: register_run_def split_beta a Let_def split: sum.split)
  show "ex_captures (snd (exec_cleanup ex)) = ex_captures ex" by (simp add: exec_cleanup_def split_beta r Let_def)
  show "ex_captures (resolve_if b run_id v e ex) = ex_captures ex" by (simp add: resolve_if_def u)
  show "ex_captures (pop_on_wait run_id ex) = ex_captures ex"
    by (simp add: pop_on_wait_def exec_pop_run_def split_beta Let_def)
  show st: "ex_captures (store_event ro ev ex) = ex_captures ex" by (simp add: store_event_def split_beta u r Let_def)
  show "ex_captures (deliver_event ro ev ex) = ex_captures ex" by (simp add: deliver_event_def st)
  show "ex_captures (snd (stamp_event ro ev ex)) = ex_captures ex"
    by (simp add: stamp_event_def split_beta Let_def split: option.split)
qed

text \<open>The events \<open>es\<close> went to every sink.\<close>

definition grows :: "runtime_event list \<Rightarrow> exec \<Rightarrow> exec \<Rightarrow> bool" where
  "grows es ex ex' \<longleftrightarrow> ex_captures ex' = map (\<lambda>sink. sink @ es) (ex_captures ex)"

lemma grows_same: "ex_captures ex' = ex_captures ex \<Longrightarrow> grows [] ex ex'"
  by (simp add: grows_def)

lemma grows_trans: "grows es a b \<Longrightarrow> grows fs b c \<Longrightarrow> grows (es @ fs) a c"
  by (simp add: grows_def comp_def)

lemma grows_publish: "\<exists>e1. grows [e1] ex (publish_event ro e ex) \<and> ev_msg e1 = ev_msg e"
proof -
  have "grows [fst (stamp_event ro e ex)] ex (publish_event ro e ex)"
    by (simp add: grows_def publish_event_def split_beta capture_event_def Let_def)
  moreover have "ev_msg (fst (stamp_event ro e ex)) = ev_msg e"
    by (simp add: stamp_event_def split_beta Let_def split: option.split)
  ultimately show ?thesis by blast
qed

lemma grows_emit:
  assumes "force \<or> ec_emit_run_events (ex_config ex)"
  shows "\<exists>e1. grows [e1] ex (emit_run_event run_id ty lv payload src force ex) \<and> ev_msg e1 = VStr ty"
proof -
  let ?ex1 = "snd (read_wall ex)"
  let ?e = "attach_event_context (ex_js ?ex1) run_id (build_run_event (fst (read_wall ex)) ty lv payload src)"
  obtain e1 where "grows [e1] ?ex1 (publish_event (Some run_id) ?e ?ex1)" "ev_msg e1 = ev_msg ?e"
    using grows_publish by blast
  moreover have "ev_msg ?e = VStr ty"
    by (simp add: attach_event_context_def build_run_event_def mk_runtime_event_def split: option.split)
  ultimately show ?thesis using assms by (auto simp: emit_run_event_def split_beta Let_def grows_def)
qed

text \<open>The last event of a run, by the status it ends in.\<close>

fun end_type :: "run_status \<Rightarrow> string" where
  "end_type SUCCEEDED = ''success''"
| "end_type TIMEOUT = ''timeout''"
| "end_type CANCELLED = ''cancelled''"
| "end_type _ = ''failure''"

lemma grows_settle:
  assumes "run_end_of (ex_exempt ex) out = Caught st v e" and "ec_emit_run_events (ex_config ex)"
  shows "\<exists>e1. grows [e1] ex (snd (settle_run False a iv out ex)) \<and> ev_msg e1 = VStr (end_type st)"
proof -
  have err: "\<exists>e1. grows [e1] ex (on_error False a iv x st' ty lv payload force ex) \<and> ev_msg e1 = VStr ty" for x st' ty lv payload force
    using grows_emit [of force "upd_js (upd_run a (\<lambda>rs. rs\<lparr>rs_error := Some x, rs_status := st'\<rparr>)) ex"] assms(2)
    by (simp add: on_error_def resolve_if_def Let_def grows_def)
  have suc: "\<exists>e1. grows [e1] ex (on_success False a iv x ex) \<and> ev_msg e1 = VStr ''success''" for x
    using grows_emit [of False "upd_js (upd_run a (\<lambda>rs. rs\<lparr>rs_result := x, rs_status := SUCCEEDED\<rparr>)) ex"] assms(2)
    by (simp add: on_success_def resolve_if_def Let_def grows_def)
  show ?thesis
    using assms(1) err suc by (auto simp: run_end_of_def settle_run_def split: sum.splits if_splits)
qed

lemma conclude_captures: "ex_captures (snd (conclude_run b a iv out ex)) = ex_captures (snd (settle_run b a iv out ex))"
  by (simp add: conclude_run_def split_beta Let_def)

lemma grows_prints:
  assumes "rc_run_id c = Some r" and "rc_emitter c = Some (PublishTo r)"
  shows "\<exists>es. grows es ex (fold emit_print (print_effects now c p ps) ex) \<and> map ev_msg es = map pr_text ps"
proof (induction ps arbitrary: ex)
  case Nil
  show ?case by (intro exI [of _ "[]"]) (simp add: print_effects_def grows_def)
next
  case (Cons x ps)
  obtain e where e: "proxy_print now c p (pr_text x) (pr_level x) (pr_source x) None = Emitted (PublishTo r) e"
    "ev_msg e = pr_text x" using proxy_print_in_run [OF assms] by blast
  let ?ex1 = "publish_event (Some r) e ex"
  obtain e1 where e1: "grows [e1] ex ?ex1" "ev_msg e1 = pr_text x" using grows_publish e(2) by metis
  obtain es where es: "grows es ?ex1 (fold emit_print (print_effects now c p ps) ?ex1)" "map ev_msg es = map pr_text ps"
    using Cons.IH by blast
  have "fold emit_print (print_effects now c p (x # ps)) ex = fold emit_print (print_effects now c p ps) ?ex1"
    by (simp add: print_effects_def emit_print_def e(1))
  then show ?case using grows_trans [OF e1(1) es(1)] e1(2) es(2) by (intro exI [of _ "e1 # es"]) simp
qed

definition call_prints :: "user_code \<Rightarrow> base_commands \<Rightarrow> invocation \<Rightarrow> print_call list" where
  "call_prints u b iv = (case command_call b iv of Inl e \<Rightarrow> [] | Inr (f, argv) \<Rightarrow> fst (uc_call u f argv []))"

lemma binding_handler_captures:
  assumes "rc_run_id c = Some r" and "rc_emitter c = Some (PublishTo r)"
  shows "\<exists>ex2 es. run_handler_inline (binding_handler u now p b) c iv (Handler 0) None ex1 = (Some (call_outcome u b iv), ex2) \<and>
    quiet ex1 ex2 \<and> grows es ex1 ex2 \<and> map ev_msg es = map pr_text (call_prints u b iv)"
proof -
  let ?ex = "snd (read_mono ex1)"
  let ?ps = "print_effects now c p (call_prints u b iv)"
  obtain es where es: "grows es ?ex (fold emit_print ?ps ?ex)" "map ev_msg es = map pr_text (call_prints u b iv)"
    using grows_prints [OF assms] by blast
  have "run_handler_inline (binding_handler u now p b) c iv (Handler 0) None ex1 =
      (Some (call_outcome u b iv), fold emit_print ?ps ?ex)"
    by (cases "command_call b iv")
      (auto simp: run_handler_inline_def call_handler_def binding_handler_def call_outcome_def call_prints_def
        print_effects_def split_beta Let_def split: sum.split)
  moreover have "quiet ex1 (fold emit_print ?ps ?ex)"
    by (rule quiet_trans [OF _ quiet_emit_prints]) (simp add: quiet_def read_mono_def)
  moreover have "grows es ex1 (fold emit_print ?ps ?ex)" using es(1) by (simp add: grows_def)
  ultimately show ?thesis using es(2) by blast
qed

lemma begin_run_captures:
  assumes "rs_status (js_rheap (ex_js ex) a) \<noteq> CANCELLED" and "ec_emit_run_events (ex_config ex)"
  obtains flag ex1 e1 where "begin_run (Some a) iv ex = (Some (run_ctx (rs_run_id (js_rheap (ex_js ex) a)) iv flag), ex1)"
    "grows [e1] ex ex1" "ev_msg e1 = VStr ''start''" "ex_config ex1 = ex_config ex" "ex_exempt ex1 = ex_exempt ex"
proof -
  let ?ex2 = "audit_run_state a (upd_js (upd_run a (started_run (fst (read_wall ex)))) (snd (read_wall ex)))"
  let ?r = "rs_run_id (js_rheap (ex_js ?ex2) a)"
  let ?ex3 = "emit_run_event ?r ''start'' INFO VNone (Some (inv_source iv)) False ?ex2"
  have "ec_emit_run_events (ex_config ?ex2)" using assms(2) by simp
  then obtain e1 where e1: "grows [e1] ?ex2 ?ex3" "ev_msg e1 = VStr ''start''" using grows_emit by blast
  have "?r = rs_run_id (js_rheap (ex_js ex) a)" by (simp add: started_run_def)
  then have "begin_run (Some a) iv ex =
      (Some (run_ctx (rs_run_id (js_rheap (ex_js ex) a)) iv (get_cancel_flag (ex_js ?ex3) ?r)), ?ex3)"
    using assms(1) by (simp add: begin_run_def begin_after_check_def split_beta Let_def)
  then show ?thesis
    by (rule that) (use e1 in \<open>simp_all add: grows_def\<close>)
qed

text \<open>The events of a run that is submitted without a loop: its start, what it prints, its end.\<close>

lemma submit_captures:
  assumes id: "inv_run_id iv = Some r" and noloop: "ex_loop ex = None" "w_cur_loop ex = None"
    and keep: "js_retain (ex_js ex) = None" "js_ttl (ex_js ex) = None"
    and time: "timeout_seconds iv = None" and emits: "ec_emit_run_events (ex_config ex)"
    and caught: "run_end_of (ex_exempt ex) (call_outcome u b iv) = Caught st v e"
    and sub: "submit (binding_handler u now p b) iv (Some (Handler 0)) ex = Some (x, iv', ex')"
  shows "\<exists>es. grows es ex ex' \<and>
    map ev_msg es = VStr ''start'' # map pr_text (call_prints u b iv) @ [VStr (end_type st)]"
proof -
  let ?he = "binding_handler u now p b" and ?R = "register_run iv ex" and ?a = "js_next (ex_js ex)"
  note reg = register_run_offline [OF id noloop keep]
  have cfg: "ex_config ?R = ex_config ex"
    by (simp add: register_run_def split_beta Let_def split: sum.split)
  have "rs_status (js_rheap (ex_js ?R) ?a) \<noteq> CANCELLED"
    by (simp add: reg(2) run_state_of_invocation_def blank_run_state_def)
  from begin_run_captures [OF this, of iv] obtain flag ex1 e1 where
    b1: "begin_run (Some ?a) iv ?R = (Some (run_ctx (rs_run_id (js_rheap (ex_js ?R) ?a)) iv flag), ex1)"
      "grows [e1] ?R ex1" "ev_msg e1 = VStr ''start''" "ex_config ex1 = ex_config ?R" "ex_exempt ex1 = ex_exempt ?R"
    using emits cfg by metis
  have r: "rs_run_id (js_rheap (ex_js ?R) ?a) = r"
    by (simp add: reg(2) run_state_of_invocation_def blank_run_state_def)
  obtain ex2 es where h: "run_handler_inline ?he (run_ctx r iv flag) iv (Handler 0) None ex1 = (Some (call_outcome u b iv), ex2)"
    "quiet ex1 ex2" "grows es ex1 ex2" "map ev_msg es = map pr_text (call_prints u b iv)"
    using binding_handler_captures [of "run_ctx r iv flag" r u now p b iv ex1] by (auto simp: run_ctx_def)
  let ?ex3 = "snd (conclude_run False ?a iv (call_outcome u b iv) ex2)"
  have "ex_config ex2 = ex_config ex" "ex_exempt ex2 = ex_exempt ex"
    using quiet_frame [OF h(2)] b1(4,5) cfg reg(6) by simp_all
  then obtain e2 where e2: "grows [e2] ex2 ?ex3" "ev_msg e2 = VStr (end_type st)"
    using grows_settle [of ex2 "call_outcome u b iv" st v e ?a iv] caught emits
    by (auto simp: grows_def conclude_captures)
  have no: "\<not> exec_loop_running ?R" using reg by (simp add: exec_loop_running_def loop_is_running_def)
  have "?R\<lparr>ex_loop := None\<rparr> = ?R" using reg(4) by (simp flip: reg(4))
  then have loop: "(if ex_loop ?R = None then ?R\<lparr>ex_loop := w_cur_loop ?R\<rparr> else ?R) = ?R"
    unfolding reg(5) by (rule if_same_value)
  have "run_inline ?he iv (Handler 0) ?R =
      Some (fst (conclude_run False ?a iv (call_outcome u b iv) ex2), ?ex3)"
    using b1(1) h(1) by (simp add: run_inline_def id reg(1) r time Let_def)
  then have "ex' = ?ex3"
    using sub unfolding submit_def assign_run_id_def id Let_def option.case prod.case loop handler_or_missing_def
    by (cases "conclude_run False ?a iv (call_outcome u b iv) ex2") (auto simp: no split: sum.splits)
  moreover have "grows [e1] ex ex1" using b1(2) by (simp add: grows_def)
  ultimately have "grows ([e1] @ es @ [e2]) ex ex'"
    using grows_trans [OF _ grows_trans [OF h(3) e2(1)], of "[e1]" ex] by simp
  then show ?thesis using b1(3) h(4) e2(2) by (intro exI [of _ "[e1] @ es @ [e2]"]) simp
qed

lemma wait_captures: "wait_result_sync r ex = Some (out, ex') \<Longrightarrow> ex_captures ex' = ex_captures ex"
  by (auto simp: wait_result_sync_def wait_poll_def split: sync_wait.splits option.splits)

text \<open>A command through a fresh executor, outside a loop: its outcome and the captured events.\<close>

lemma fresh_executor_outcome:
  assumes id: "inv_run_id iv = Some r" and time: "timeout_seconds iv = None" and noloop: "w_cur_loop w = None"
    and caught: "run_end_of default_exempt (call_outcome u b iv) = Caught st v e"
  shows "\<exists>evs ex. executor_outcome (binding_handler u now p b) None w iv = Some (call_outcome u b iv, evs, iv, Some ex) \<and>
    map ev_msg evs = VStr ''start'' # map pr_text (call_prints u b iv) @ [VStr (end_type st)]"
proof -
  let ?he = "binding_handler u now p b" and ?out = "call_outcome u b iv"
  obtain ex0 where ex0: "resolve_executor None w = Inr (ex0, True)" "ex_loop ex0 = None" "w_cur_loop ex0 = None"
    "js_retain (ex_js ex0) = None" "js_ttl (ex_js ex0) = None" "get_future (ex_js ex0) r = None"
    "ex_exempt ex0 = default_exempt" "ec_emit_run_events (ex_config ex0)" "ex_captures ex0 = []"
    by (rule fresh_harness_executor [of w r]) (simp add: noloop)
  let ?ex = "capture_begin ex0"
  have f: "ex_loop ?ex = None" "w_cur_loop ?ex = None" "js_retain (ex_js ?ex) = None" "js_ttl (ex_js ?ex) = None"
    "get_future (ex_js ?ex) r = None" "run_end_of (ex_exempt ?ex) ?out = Caught st v e"
    "ec_emit_run_events (ex_config ?ex)" "ex_captures ?ex = [[]]"
    using ex0(2-9) caught by (simp_all add: capture_begin_def)
  have h: "\<exists>ex2. quiet ex1 ex2 \<and> run_handler_inline ?he cx iv
      (handler_or_missing (Some (Handler 0))) (timeout_seconds iv) ex1 = (Some ?out, ex2)" for cx ex1
    using binding_handler_inline by (simp add: handler_or_missing_def time)
  from submit_offline [OF id f(1-5) h f(6)] obtain ex1 ex2 where
    s: "submit ?he iv (Some (Handler 0)) ?ex = Some (Inr r, iv, ex1)" "wait_result_sync r ex1 = Some (?out, ex2)" by blast
  obtain es where es: "grows es ?ex ex1"
    "map ev_msg es = VStr ''start'' # map pr_text (call_prints u b iv) @ [VStr (end_type st)]"
    using submit_captures [OF id f(1-4) time f(7,6) s(1)] by (elim exE conjE)
  have "submit_threadsafe ?he iv (Some (Handler 0)) ?ex = Some (Inr r, iv, ex1)"
    using s(1) f(1) by (simp add: submit_threadsafe_def assign_run_id_def id exec_loop_running_def loop_is_running_def)
  moreover have "iv\<lparr>inv_run_id := Some r\<rparr> = iv" using id by simp
  ultimately have "\<exists>ex. executor_outcome ?he None w iv = Some (?out, hd (ex_captures ex2), iv, Some ex)"
    by (simp add: executor_outcome_def capture_end_def ex0(1) s(2))
  moreover have "hd (ex_captures ex2) = es" using es(1) f(8) wait_captures [OF s(2)] by (simp add: grows_def)
  ultimately show ?thesis using es(2) by metis
qed

text \<open>What two reports share, when the runtime events of one have others around them.\<close>

fun any_msg :: "any_event \<Rightarrow> pyval" where
  "any_msg (RuntimeEv e) = ev_msg e"
| "any_msg (UIEv e) = ev_msg e"

definition agrees_around :: "pyval list \<Rightarrow> pyval list \<Rightarrow> test_result res \<Rightarrow> test_result res \<Rightarrow> bool" where
  "agrees_around first_msgs last_msgs x y \<longleftrightarrow>
    (case (x, y) of
       (Inl e, Inl e') \<Rightarrow> e = e'
     | (Inr a, Inr b) \<Rightarrow>
         a\<lparr>tr_outputs := [], tr_runtime_events := []\<rparr> = b\<lparr>tr_outputs := [], tr_runtime_events := []\<rparr> \<and>
         map any_msg (tr_runtime_events a) = first_msgs @ map any_msg (tr_runtime_events b) @ last_msgs
     | _ \<Rightarrow> False)"

lemma report_agrees:
  assumes "map any_msg es = first_msgs @ map any_msg es' @ last_msgs"
  shows "agrees_around first_msgs last_msgs (report_events q c iv validated es ui out)
    (report_events q c iv validated es' ui' out)"
  using assms by (cases out) (simp_all add: agrees_around_def report_events_def Let_def)

lemma collected_none: "collected_runtime (print_effects now no_context p ps) = []"
  by (induction ps)
    (simp_all add: print_effects_def collected_runtime_def proxy_print_no_context map_filter_simps split: option.split)

lemma collected_prints:
  assumes "rc_run_id c = Some r" and "rc_emitter c = Some Collect"
  shows "map any_msg (collected_runtime (print_effects now c p ps)) = map pr_text ps"
proof (induction ps)
  case (Cons x ps)
  obtain e where "proxy_print now c p (pr_text x) (pr_level x) (pr_source x) None = Emitted Collect e" "ev_msg e = pr_text x"
    using proxy_print_in_run [OF assms] by blast
  then show ?case using Cons by (simp add: print_effects_def collected_runtime_def map_filter_simps)
qed (simp add: print_effects_def collected_runtime_def map_filter_simps)

lemma collected_append: "collected_runtime (es @ fs) = collected_runtime es @ collected_runtime fs"
  by (induction es) (simp_all add: collected_runtime_def map_filter_simps split: option.split)

text \<open>C40: a run through an executor of the harness's own reports what the direct run reports. Outside an
  event loop, without keyword arguments, when the validator accepts and for every outcome but an
  exception that no clause of the executor catches, both reports have the same value, exception
  and invocation, or the same exception is raised; and the events captured from the executor are
  those of the direct run with the run's start before them and its end after them.\<close>

theorem executor_path_keeps_outcome:
  assumes prep: "prepare_run mk mems stub_cls uuid q c r = (Inr (b, d, iv), r1)" and kw: "rr_kwargs q = []"
    and noloop: "w_cur_loop w = None" and valid: "snd (snd (validation mk u q d iv)) = Inr ()"
    and caught: "run_end_of default_exempt (snd (uc_call u (cd_func d) (inv_argv iv) [])) = Caught st v e"
  shows "\<exists>rep ex. executor_harness_run mk mems stub_cls u now p collector uuid None w q c r = Some (rep, ex, r1) \<and>
    agrees_around [VStr ''start''] [VStr (end_type st)] rep
      (fst (invocation_harness_run mk mems dc stub_cls g u now p collector uuid q c r))"
proof -
  have call: "command_call b iv = Inr (cd_func d, inv_argv iv)" by (rule prepare_run_call [OF prep])
  then have out: "call_outcome u b iv = snd (uc_call u (cd_func d) (inv_argv iv) [])"
    and prints: "call_prints u b iv = fst (uc_call u (cd_func d) (inv_argv iv) [])"
    by (simp_all add: call_outcome_def call_prints_def)
  obtain i where id: "inv_run_id iv = Some i" and time: "timeout_seconds iv = None"
    using prep by (auto simp: prepare_run_def build_invocation_def timeout_seconds_def default_invocation_def
        split: prod.splits sum.splits)
  obtain evs ex where ex: "executor_outcome (binding_handler u now (collecting collector p) b) None w iv =
      Some (call_outcome u b iv, evs, iv, Some ex)"
    "map ev_msg evs = VStr ''start'' # map pr_text (call_prints u b iv) @ [VStr (end_type st)]"
    using fresh_executor_outcome [OF id time noloop, of u b st v e now "collecting collector p"] caught out by auto
  obtain validated vps where val: "validation mk u q d iv = (validated, vps, Inr ())"
    using valid by (cases "validation mk u q d iv") (auto simp: prod_eq_iff)
  have ctx: "rc_run_id (harness_ctx iv) = Some i" "rc_emitter (harness_ctx iv) = Some Collect"
    by (simp_all add: harness_ctx_def id)
  let ?direct = "print_effects now no_context (collecting collector p) vps @
    print_effects now (harness_ctx iv) (collecting collector p) (call_prints u b iv)"
  have "map any_msg (collected_runtime ?direct) = map pr_text (call_prints u b iv)"
    by (simp add: collected_append collected_none collected_prints [OF ctx])
  moreover have "map any_msg (map RuntimeEv evs) = map ev_msg evs" by simp
  ultimately have msgs: "map any_msg (map RuntimeEv evs) =
      [VStr ''start''] @ map any_msg (collected_runtime ?direct) @ [VStr (end_type st)]" using ex(2) by simp
  have "fst (invocation_harness_run mk mems dc stub_cls g u now p collector uuid q c r) =
      report_events q c iv validated (collected_runtime ?direct) (collected_ui collector ?direct) (call_outcome u b iv)"
    by (simp add: invocation_harness_run_def prep val binding_execute_def call harness_report_def out prints split_beta Let_def)
  then show ?thesis
    using report_agrees [OF msgs] by (simp add: executor_harness_run_def prep val ex(1) Let_def)
qed

definition demo_prepared :: "(base_commands \<times> command_def \<times> invocation) res \<times> command_registry" where
  "demo_prepared = prepare_run (\<lambda>_ _. Inr 0) (\<lambda>_. []) 99 ''u'' (demo_run_request [])
     (hd (su_cases demo_suite)) (snd demo_discovery)"

definition demo_through :: "(test_result res \<times> exec option \<times> command_registry) option" where
  "demo_through = executor_harness_run (\<lambda>_ _. Inr 0) (\<lambda>_. []) 99 demo_code 0 new_provider 5 ''u'' None
     (sample_world\<lparr>w_cur_loop := None\<rparr>) (demo_run_request []) (hd (su_cases demo_suite)) (snd demo_discovery)"

lemma demo_prepared_ready:
  "case fst demo_prepared of Inl e \<Rightarrow> False
   | Inr (b, d, iv) \<Rightarrow> snd (snd (validation (\<lambda>_ _. Inr 0) demo_code (demo_run_request []) d iv)) = Inr ()"
  by code_simp

lemma executor_path_keeps_outcome_witness:
  "\<exists>rep ex r1. demo_through = Some (rep, ex, r1) \<and>
    agrees_around [VStr ''start''] [VStr ''success''] rep (demo_bound [])"
proof -
  obtain b d iv where bd: "fst demo_prepared = Inr (b, d, iv)"
    and valid: "snd (snd (validation (\<lambda>_ _. Inr 0) demo_code (demo_run_request []) d iv)) = Inr ()"
    using demo_prepared_ready by (auto split: sum.splits)
  from bd have prep: "prepare_run (\<lambda>_ _. Inr 0) (\<lambda>_. []) 99 ''u'' (demo_run_request [])
      (hd (su_cases demo_suite)) (snd demo_discovery) = (Inr (b, d, iv), snd demo_prepared)"
    by (simp add: demo_prepared_def prod_eq_iff)
  have "run_end_of default_exempt (snd (uc_call demo_code (cd_func d) (inv_argv iv) [])) =
      Caught SUCCEEDED (VDict []) None"
    by (simp add: demo_code_def run_end_of_def)
  from executor_path_keeps_outcome [OF prep _ _ valid this, of "sample_world\<lparr>w_cur_loop := None\<rparr>"
      0 new_provider 5 0 demo_root_only]
  show ?thesis
    by (auto simp: demo_through_def demo_bound_def demo_run_request_def)
qed

text \<open>
  Inside a running loop the fresh executor takes that loop as its own: the run is queued, and waiting
  for it from the loop's thread is refused, so the report shows the refusal in place of an outcome.
\<close>

lemma register_run_loop:
  "ex_loop (register_run iv ex) = ex_loop ex" "w_cur_loop (register_run iv ex) = w_cur_loop ex"
  "w_loop_running (register_run iv ex) = w_loop_running ex"
  by (simp_all add: register_run_def Let_def split_beta split: sum.split)

lemma enqueue_run_loop:
  assumes "ex_loop ex \<noteq> None"
  shows "ex_loop (enqueue_run i iv h ex) = ex_loop ex" "w_cur_loop (enqueue_run i iv h ex) = w_cur_loop ex"
  using assms by (auto simp: enqueue_run_def start_def Let_def split_beta upd_js_def)

lemma harness_in_loop_is_refused:
  assumes "w_cur_loop w = Some l" "w_loop_running w l" "inv_run_id iv = Some i"
  shows "\<exists>evs ex. executor_outcome he None w iv =
    Some (Inl (PyExc RuntimeErrorC ''wait_result_sync cannot be called from the executor loop thread''), evs, iv, Some ex)"
proof -
  obtain ex0 where ex0: "resolve_executor None w = Inr (ex0, True)" "ex_loop ex0 = None" "w_cur_loop ex0 = Some l"
    "w_loop_running ex0 = w_loop_running w"
    using that assms(1)
    by (simp add: resolve_executor_def new_executor_def Let_def init_audit_sink_def harness_executor_config_def
        default_executor_config_def default_audit_config_def world.defs)
  let ?ex = "capture_begin ex0"
  have ex: "ex_loop ?ex = None" "w_cur_loop ?ex = Some l" "w_loop_running ?ex = w_loop_running w"
    using ex0 by (simp_all add: capture_begin_def)
  define ex1 where "ex1 = (register_run iv ?ex)\<lparr>ex_loop := w_cur_loop (register_run iv ?ex)\<rparr>"
  have ex1: "exec_loop_running ex1" "w_cur_loop ex1 = Some l" "ex_loop ex1 = Some l"
    using assms(2) by (simp_all add: ex1_def exec_loop_running_def loop_is_running_def register_run_loop ex)
  have "submit_threadsafe he iv (Some (Handler 0)) ?ex = Some (Inr i, iv, enqueue_run i iv (Handler 0) ex1)"
  proof -
    have off: "\<not> exec_loop_running ?ex" "ex_loop (register_run iv ?ex) = None"
      by (simp_all add: exec_loop_running_def loop_is_running_def ex(1) register_run_loop)
    then show ?thesis
      using ex1(1) unfolding submit_threadsafe_def submit_def assign_run_id_def assms(3) Let_def option.case prod.case
      by (simp add: handler_or_missing_def ex1_def)
  qed
  moreover have "wait_sync_plan i (enqueue_run i iv (Handler 0) ex1) =
      SyncDone (Inl (PyExc RuntimeErrorC ''wait_result_sync cannot be called from the executor loop thread''))"
    using enqueue_run_loop [of ex1] by (simp add: wait_sync_plan_def ex1)
  moreover have "iv\<lparr>inv_run_id := Some i\<rparr> = iv" using assms(3) by simp
  ultimately show ?thesis
    by (simp add: executor_outcome_def capture_end_def ex0(1) wait_result_sync_def split_beta)
qed

end
