(* ===== verification/Factory.thy ===== *)
theory Factory
  imports Callbacks ConsoleFacts Terminal Web
begin

text \<open>
  The console factory (\<open>console_factory.py\<close>), which builds the program's parts, starts the
  executor in a loop of its own thread or in the main loop, and shuts everything down when the
  console loop ends. Threads appear as the segments of code between their waits; \<open>l\<close> is the
  loop \<open>asyncio.new_event_loop()\<close> gives.
\<close>

section \<open>State\<close>

text \<open>
  The executor's thread: started, running its loop, finishing the loop's tasks after the loop
  was stopped, ended.
\<close>

datatype loop_thread = ThreadStarted nat | ThreadInLoop nat | ThreadDraining nat | ThreadEnded

text \<open>
  The executor is the one of the callback registry. \<open>fa_sink\<close> comes with the loop of its task,
  \<open>fa_web\<close> with \<open>should_exit\<close>; \<open>fa_stopping\<close> are the loops told to stop.
\<close>

record factory =
  fa_config :: config
  fa_callbacks :: callback_registry
  fa_store :: session_store
  fa_manager :: console_manager
  fa_loop :: "nat option"
  fa_thread :: "loop_thread option"
  fa_sink :: "(tty_sink \<times> nat) option"
  fa_rpc :: "rpc_server option"
  fa_web :: "(uvicorn_server \<times> bool) option"
  fa_stopping :: "nat list"

abbreviation fa_exec :: "factory \<Rightarrow> exec" where
  "fa_exec f \<equiv> cb_exec (fa_callbacks f)"

definition upd_exec :: "(exec \<Rightarrow> exec) \<Rightarrow> factory \<Rightarrow> factory" where
  "upd_exec g f = f\<lparr>fa_callbacks := (fa_callbacks f)\<lparr>cb_exec := g (fa_exec f)\<rparr>\<rparr>"

definition set_running :: "nat \<Rightarrow> bool \<Rightarrow> exec \<Rightarrow> exec" where
  "set_running l b ex = ex\<lparr>w_loop_running := (w_loop_running ex)(l := b)\<rparr>"

text \<open>The session manager is a view of the factory.\<close>

definition factory_mgr :: "factory \<Rightarrow> mgr" where
  "factory_mgr f =
    \<lparr>mg_exec = fa_exec f, mg_store = fa_store f, mg_default = default_session_policy,
     mg_rpc = cfg_rpc (fa_config f)\<rparr>"

section \<open>Construction\<close>

text \<open>
  \<open>__init__\<close>. \<open>fresh\<close> is the identity of a new \<open>OutputRouter\<close>, \<open>given\<close> the state of a
  configured one. The default router is set before anything that may raise.
\<close>

definition with_router :: "router_id \<Rightarrow> config \<Rightarrow> config" where
  "with_router fresh cfg =
    (if cm_output_router (cfg_console_manager cfg) = None
     then cfg\<lparr>cfg_console_manager := (cfg_console_manager cfg)\<lparr>cm_output_router := Some fresh\<rparr>\<rparr>
     else cfg)"

definition new_factory ::
  "config option \<Rightarrow> router_id \<Rightarrow> output_router \<Rightarrow> nat list option \<Rightarrow> console_registry
   \<Rightarrow> command_registry \<Rightarrow> world \<Rightarrow> provider \<Rightarrow> factory res \<times> provider" where
  "new_factory config fresh given listeners g r w p =
    (let cfg0 = (case config of None \<Rightarrow> default_config | Some c \<Rightarrow> c);
         cfg = with_router fresh cfg0;
         p1 = set_default_router (cm_output_router (cfg_console_manager cfg)) p;
         ro = (if cm_output_router (cfg_console_manager cfg0) = None then new_output_router else given)
     in case new_executor 1 None (Some (cfg_executor cfg)) w of
          Inl e \<Rightarrow> (Inl e, p1)
        | Inr ex \<Rightarrow>
            (case register_all g (new_console_manager (Some ro) True listeners r) of
               (Inl e, _) \<Rightarrow> (Inl e, p1)
             | (Inr _, m) \<Rightarrow>
                 (Inr \<lparr>fa_config = cfg, fa_callbacks = new_callback_registry ex False,
                       fa_store = new_session_store (Some 100), fa_manager = m, fa_loop = None, fa_thread = None,
                       fa_sink = None, fa_rpc = None, fa_web = None, fa_stopping = []\<rparr>, p1)))"

section \<open>Starting\<close>

definition attach_tty_sink :: "nat \<Rightarrow> factory \<Rightarrow> factory" where
  "attach_tty_sink l f =
    (if fa_sink f \<noteq> None \<or> cm_output_router (cfg_console_manager (fa_config f)) = None then f
     else f\<lparr>fa_sink := Some (sink_start new_tty_sink, l)\<rparr>)"

definition start_executor :: "nat option \<Rightarrow> factory \<Rightarrow> unit res \<times> factory" where
  "start_executor lp f =
    (let (r, ex) = start lp (fa_exec f); f1 = upd_exec (\<lambda>_. ex) f in
     case r of
       Inl e \<Rightarrow> (Inl e, f1)
     | Inr _ \<Rightarrow>
         (case (case lp of Some l \<Rightarrow> Some l
                | None \<Rightarrow> (case fa_loop f of Some l \<Rightarrow> Some l | None \<Rightarrow> ex_loop ex)) of
            None \<Rightarrow> (Inr (), f1)
          | Some l \<Rightarrow> (Inr (), attach_tty_sink l f1)))"

definition thread_alive :: "factory \<Rightarrow> bool" where
  "thread_alive f \<longleftrightarrow> fa_thread f \<noteq> None \<and> fa_thread f \<noteq> Some ThreadEnded"

definition start_executor_thread :: "nat \<Rightarrow> factory \<Rightarrow> factory" where
  "start_executor_thread l f =
    (if thread_alive f then f else f\<lparr>fa_loop := Some l, fa_thread := Some (ThreadStarted l)\<rparr>)"

definition start_executor_if_needed :: "nat \<Rightarrow> factory \<Rightarrow> unit res \<times> factory" where
  "start_executor_if_needed l f =
    (if \<not> cf_start_executor (cfg_console_factory (fa_config f)) \<or> thread_alive f then (Inr (), f)
     else if cf_executor_in_thread (cfg_console_factory (fa_config f))
     then (Inr (), start_executor_thread l f)
     else start_executor None f)"

definition start_rpc :: "(int \<Rightarrow> string) \<Rightarrow> (string \<Rightarrow> string res) \<Rightarrow> factory \<Rightarrow> unit res \<times> factory" where
  "start_rpc show_int read_file f =
    (if \<not> rp_enabled (cfg_rpc (fa_config f)) then (Inr (), f)
     else case start_rpc_server show_int read_file (cfg_rpc (fa_config f)) (fa_exec f) of
            Inl e \<Rightarrow> (Inl e, f)
          | Inr s \<Rightarrow> (Inr (), f\<lparr>fa_rpc := Some s\<rparr>))"

definition start_web :: "factory \<Rightarrow> factory" where
  "start_web f =
    (if \<not> wb_enabled (cfg_web (fa_config f)) then f
     else f\<lparr>fa_web := Some (build_web_server (Some (cfg_web (fa_config f))), False)\<rparr>)"

text \<open>
  What follows a successful start: the console loop in the caller's thread, or in a thread of its
  own beside the loop that runs in the caller's.
\<close>

datatype startup = RunTty | RunConcurrent nat

definition start_concurrent ::
  "(int \<Rightarrow> string) \<Rightarrow> (string \<Rightarrow> string res) \<Rightarrow> nat \<Rightarrow> factory \<Rightarrow> startup res \<times> factory" where
  "start_concurrent show_int read_file l f =
    (let f1 = f\<lparr>fa_loop := Some l\<rparr>;
         (r, f2) = (if cf_start_executor (cfg_console_factory (fa_config f1))
                    then start_executor (Some l) f1 else (Inr (), f1))
     in case r of
          Inl e \<Rightarrow> (Inl e, f2)
        | Inr _ \<Rightarrow>
            (case start_rpc show_int read_file f2 of
               (Inl e, f3) \<Rightarrow> (Inl e, f3)
             | (Inr _, f3) \<Rightarrow> (Inr (RunConcurrent l), start_web f3)))"

definition start_factory ::
  "(int \<Rightarrow> string) \<Rightarrow> (string \<Rightarrow> string res) \<Rightarrow> nat \<Rightarrow> factory \<Rightarrow> startup res \<times> factory" where
  "start_factory show_int read_file l f =
    (let mode = cf_run_mode (cfg_console_factory (fa_config f)) in
     if mode = ''tty'' then
       (case start_executor_if_needed l f of
          (Inl e, f1) \<Rightarrow> (Inl e, f1)
        | (Inr _, f1) \<Rightarrow> (Inr RunTty, f1))
     else if mode = ''concurrent'' then start_concurrent show_int read_file l f
     else (Inl (PyExc ValueErrorC (''Unsupported run_mode: '' @ mode)), f))"

section \<open>The threads\<close>

text \<open>The start of \<open>_run_loop\<close>, up to the running loop.\<close>

definition thread_begin :: "factory \<Rightarrow> factory" where
  "thread_begin f =
    (case fa_thread f of
       Some (ThreadStarted l) \<Rightarrow>
         (case start_executor (Some l) f of
            (Inl e, f1) \<Rightarrow> f1\<lparr>fa_thread := Some ThreadEnded\<rparr>
          | (Inr _, f1) \<Rightarrow> upd_exec (set_running l True) (f1\<lparr>fa_thread := Some (ThreadInLoop l)\<rparr>))
     | _ \<Rightarrow> f)"

text \<open>In the concurrent mode the caller's thread runs the loop.\<close>

definition concurrent_begin :: "nat \<Rightarrow> factory \<Rightarrow> factory" where
  "concurrent_begin l = upd_exec (set_running l True)"

text \<open>
  After the loop was stopped, every task that is left is cancelled: the workers, the sink's
  task and the tasks that watch for callbacks. The loop runs on until they have ended, and runs
  what was scheduled before.
\<close>

definition cancel_sink_task :: "factory \<Rightarrow> factory" where
  "cancel_sink_task f =
    (case fa_sink f of
       None \<Rightarrow> f
     | Some (s, l) \<Rightarrow>
         (case ts_task s of
            None \<Rightarrow> f
          | Some t \<Rightarrow>
              let (t1, js) = task_cancelled t (ex_js (fa_exec f))
              in upd_exec (upd_js (\<lambda>_. js)) (f\<lparr>fa_sink := Some (s\<lparr>ts_task := Some t1\<rparr>, l)\<rparr>)))"

definition cancel_pending :: "factory \<Rightarrow> factory" where
  "cancel_pending f =
    (let cb = run_all_scheduled (fa_callbacks f)
     in cancel_sink_task
          (upd_exec (\<lambda>ex. cancel_tasks [0..<length (ex_tasks ex)] ex)
             (f\<lparr>fa_callbacks := fold (\<lambda>(i, s). watch_end i s) (cb_watching cb) cb\<rparr>)))"

definition all_stopped :: "exec \<Rightarrow> bool" where
  "all_stopped ex \<longleftrightarrow> (\<forall>t \<in> set (ex_tasks ex). t = Stopped)"

definition thread_stop :: "factory \<Rightarrow> factory" where
  "thread_stop f =
    (case fa_thread f of
       Some (ThreadInLoop l) \<Rightarrow>
         if l \<in> set (fa_stopping f) then cancel_pending (f\<lparr>fa_thread := Some (ThreadDraining l)\<rparr>) else f
     | _ \<Rightarrow> f)"

definition thread_exit :: "factory \<Rightarrow> factory" where
  "thread_exit f =
    (case fa_thread f of
       Some (ThreadDraining l) \<Rightarrow>
         if all_stopped (fa_exec f)
         then upd_exec (set_running l False) (f\<lparr>fa_thread := Some ThreadEnded\<rparr>) else f
     | _ \<Rightarrow> f)"

text \<open>
  The same in the concurrent mode, where the thread of the console loop stops the loop when it
  ends, whatever \<open>shutdown\<close> did.
\<close>

definition tty_thread_end :: "nat \<Rightarrow> factory \<Rightarrow> factory" where
  "tty_thread_end l f =
    (if w_loop_running (fa_exec f) l then f\<lparr>fa_stopping := l # fa_stopping f\<rparr> else f)"

definition concurrent_stop :: "nat \<Rightarrow> factory \<Rightarrow> factory" where
  "concurrent_stop l f = (if l \<in> set (fa_stopping f) then cancel_pending f else f)"

definition concurrent_exit :: "nat \<Rightarrow> factory \<Rightarrow> factory" where
  "concurrent_exit l f = (if all_stopped (fa_exec f) then upd_exec (set_running l False) f else f)"

section \<open>Shutting down\<close>

text \<open>
  The loop runs in order what other threads hand it. When the coroutine of a shutdown begins, the
  cancellations scheduled before it have been run, and the watching tasks they cancelled have ended.
\<close>

definition loop_catches_up :: "factory \<Rightarrow> factory" where
  "loop_catches_up f = f\<lparr>fa_callbacks := end_cancelled (run_all_scheduled (fa_callbacks f))\<rparr>"

text \<open>
  \<open>shutdown_executor\<close>, without a time-out, up to the wait for the workers: which of them it
  waits for, when the executor's loop runs, and which loop it stops afterwards.
\<close>

definition shutdown_executor_begin :: "factory \<Rightarrow> (nat list option \<times> nat option) \<times> factory" where
  "shutdown_executor_begin f =
    (let stops = (case fa_loop f of None \<Rightarrow> None
                  | Some l \<Rightarrow> if w_loop_running (fa_exec f) l then Some l else None)
     in if exec_loop_running (fa_exec f)
        then let f1 = loop_catches_up f; (ws, ex) = shutdown_begin (fa_exec f1)
             in ((Some ws, stops), upd_exec (\<lambda>_. ex) f1)
        else ((None, stops), upd_exec shutdown_threadsafe_stopped f))"

text \<open>It waits for the workers' tasks, and then for the calls in the thread pool.\<close>

definition shutdown_waits :: "bool \<Rightarrow> nat list option \<times> nat option \<Rightarrow> factory \<Rightarrow> bool" where
  "shutdown_waits wait sd f \<longleftrightarrow>
    (case fst sd of None \<Rightarrow> False | Some ws \<Rightarrow> \<not> gather_done wait ws (fa_exec f) \<or> pool_waits wait (fa_exec f))"

text \<open>After the wait: thread pool and audit sink are closed and the loop told to stop.\<close>

definition shutdown_executor_end :: "nat list option \<times> nat option \<Rightarrow> factory \<Rightarrow> factory" where
  "shutdown_executor_end sd f =
    (let f1 = (if fst sd = None then f else upd_exec shutdown_end f)
     in case snd sd of None \<Rightarrow> f1 | Some l \<Rightarrow> f1\<lparr>fa_stopping := l # fa_stopping f1\<rparr>)"

text \<open>
  With a time-out that passes before the workers have ended, \<open>result\<close> raises: the loop is not told
  to stop, while the shutdown goes on in it.
\<close>

definition shutdown_executor_timed_out :: "factory \<Rightarrow> unit res \<times> factory" where
  "shutdown_executor_timed_out f = (Inl timeout_error, f)"

text \<open>
  \<open>shutdown\<close>. grpc's server is stopped by \<open>asyncio.run\<close>, which refuses to run inside a running loop;
  that error is dropped.
\<close>

definition stop_grpc :: "factory \<Rightarrow> factory" where
  "stop_grpc f = (if w_cur_loop (fa_exec f) = None then f\<lparr>fa_rpc := stop_rpc_server (fa_rpc f) 3\<rparr> else f)"


definition shutdown_begin_all :: "factory \<Rightarrow> (nat list option \<times> nat option) option \<times> factory" where
  "shutdown_begin_all f =
    (let f1 = f\<lparr>fa_callbacks := close_callbacks (fa_callbacks f)\<rparr>
     in if cf_shutdown_executor (cfg_console_factory (fa_config f1))
        then (case shutdown_executor_begin f1 of (sd, f2) \<Rightarrow> (Some sd, f2))
        else (None, f1))"

definition shutdown_end_all :: "(nat list option \<times> nat option) option \<Rightarrow> factory \<Rightarrow> factory" where
  "shutdown_end_all sd f =
    (let f1 = stop_grpc (case sd of None \<Rightarrow> f | Some x \<Rightarrow> shutdown_executor_end x f)
     in f1\<lparr>fa_web := map_option (\<lambda>(s, _). (s, True)) (fa_web f1)\<rparr>)"

text \<open>
  The console loop in its thread; its \<open>clean\<close> calls \<open>shutdown\<close>, which starts if it is called.
\<close>

definition run_tty ::
  "console_env \<Rightarrow> turn list \<Rightarrow> factory
   \<Rightarrow> unit res option \<times> (nat list option \<times> nat option) option \<times> factory" where
  "run_tty ce ts f =
    (let (x, m) = run_consoles ce None [] ts (fa_manager f);
         f1 = f\<lparr>fa_manager := m\<rparr>
     in if mn_shutdowns (fa_manager f) < mn_shutdowns m
        then (case shutdown_begin_all f1 of (sd, f2) \<Rightarrow> (x, sd, f2))
        else (x, None, f1))"

section \<open>Starting once\<close>

lemma upd_exec_frame [simp]:
  "fa_exec (upd_exec g f) = g (fa_exec f)" "fa_config (upd_exec g f) = fa_config f"
  "fa_loop (upd_exec g f) = fa_loop f" "fa_thread (upd_exec g f) = fa_thread f"
  "fa_sink (upd_exec g f) = fa_sink f" "fa_stopping (upd_exec g f) = fa_stopping f"
  "fa_manager (upd_exec g f) = fa_manager f" "fa_web (upd_exec g f) = fa_web f"
  "cb_subs (fa_callbacks (upd_exec g f)) = cb_subs (fa_callbacks f)"
  "cb_scheduled (fa_callbacks (upd_exec g f)) = cb_scheduled (fa_callbacks f)"
  "cb_watching (fa_callbacks (upd_exec g f)) = cb_watching (fa_callbacks f)"
  by (simp_all add: upd_exec_def)

lemma stop_grpc_frame [simp]:
  "fa_callbacks (stop_grpc f) = fa_callbacks f" "fa_config (stop_grpc f) = fa_config f"
  "fa_thread (stop_grpc f) = fa_thread f" "fa_loop (stop_grpc f) = fa_loop f" "fa_sink (stop_grpc f) = fa_sink f"
  "fa_stopping (stop_grpc f) = fa_stopping f" "fa_manager (stop_grpc f) = fa_manager f" "fa_web (stop_grpc f) = fa_web f"
  by (simp_all add: stop_grpc_def)

lemma attach_tty_sink_frame [simp]:
  "fa_callbacks (attach_tty_sink l f) = fa_callbacks f" "fa_config (attach_tty_sink l f) = fa_config f"
  "fa_thread (attach_tty_sink l f) = fa_thread f" "fa_loop (attach_tty_sink l f) = fa_loop f"
  "fa_stopping (attach_tty_sink l f) = fa_stopping f" "fa_manager (attach_tty_sink l f) = fa_manager f"
  "fa_web (attach_tty_sink l f) = fa_web f"
  by (simp_all add: attach_tty_sink_def)

lemma new_executor_fresh:
  assumes "new_executor n None (Some cfg) w = Inr ex"
  shows "ex_config ex = cfg" "ex_tasks ex = []" "ex_workers ex = []" "ex_queue ex = None" "ex_loop ex = None"
    "ex_js ex = new_job_store (ec_retain_last_n cfg) (ec_ttl_seconds cfg) (ec_event_history_max cfg) (ec_event_history_ttl cfg)"
    "w_cur_loop ex = w_cur_loop w" "ex_pool_calls ex = 0"
  using assms by (auto simp: new_executor_def Let_def world.defs split: sum.splits)

lemma start_fresh:
  assumes "ex_tasks ex = []" and "ex_workers ex = []"
  shows "start (Some l) ex =
    (Inr (), (upd_js (set_loop (Some l)) (ex\<lparr>ex_loop := Some l\<rparr>))
      \<lparr>ex_queue := Some (case ex_queue ex of None \<Rightarrow> [] | Some q \<Rightarrow> q),
       ex_tasks := replicate (nat (ec_workers (ex_config ex))) Idle,
       ex_workers := [0..<nat (ec_workers (ex_config ex))]\<rparr>)"
  using assms by (cases "ex_queue ex") (simp_all add: start_def Let_def upd_js_def)

lemma new_factory_parts:
  assumes "new_factory config fresh given listeners g r w p = (Inr f, p1)"
  obtains "new_executor 1 None (Some (cfg_executor (fa_config f))) w = Inr (fa_exec f)"
    "fa_config f = with_router fresh (case config of None \<Rightarrow> default_config | Some c \<Rightarrow> c)"
    "pv_default p1 = cm_output_router (cfg_console_manager (fa_config f))"
    "fa_thread f = None" "fa_sink f = None" "fa_loop f = None" "fa_stopping f = []"
    "cb_watching (fa_callbacks f) = []"
  using assms
  by (auto simp: new_factory_def Let_def new_callback_registry_def set_default_router_def split: sum.splits prod.splits)

lemma with_router_some: "\<exists>ro. cm_output_router (cfg_console_manager (with_router fresh cfg)) = Some ro"
  by (cases "cm_output_router (cfg_console_manager cfg)") (simp_all add: with_router_def)

text \<open>A factory that starts its executor in a thread, as the constructor made it.\<close>

definition threaded :: "factory \<Rightarrow> bool" where
  "threaded f \<longleftrightarrow> cf_run_mode (cfg_console_factory (fa_config f)) = ''tty'' \<and>
    cf_start_executor (cfg_console_factory (fa_config f)) \<and>
    cf_executor_in_thread (cfg_console_factory (fa_config f))"

lemma start_again:
  "threaded f \<Longrightarrow> thread_alive f \<Longrightarrow> start_factory show_int read_file l f = (Inr RunTty, f)"
  by (simp add: threaded_def start_factory_def start_executor_if_needed_def)

lemma started_factory:
  assumes "threaded f" and "fa_thread f = None"
  shows "start_factory show_int read_file l f =
    (Inr RunTty, f\<lparr>fa_loop := Some l, fa_thread := Some (ThreadStarted l)\<rparr>)"
  using assms
  by (simp add: threaded_def start_factory_def start_executor_if_needed_def start_executor_thread_def thread_alive_def)

definition booted_exec :: "nat \<Rightarrow> exec \<Rightarrow> exec" where
  "booted_exec l ex =
    set_running l True
      ((upd_js (set_loop (Some l)) (ex\<lparr>ex_loop := Some l\<rparr>))
        \<lparr>ex_queue := Some [], ex_tasks := replicate (nat (ec_workers (ex_config ex))) Idle,
         ex_workers := [0..<nat (ec_workers (ex_config ex))]\<rparr>)"

lemma booted_factory:
  assumes f: "fa_sink f = None" "cm_output_router (cfg_console_manager (fa_config f)) \<noteq> None"
      "fa_thread f = Some (ThreadStarted l)"
    and ex: "ex_tasks (fa_exec f) = []" "ex_workers (fa_exec f) = []" "ex_queue (fa_exec f) = None"
  shows "thread_begin f =
    (upd_exec (booted_exec l) f)\<lparr>fa_sink := Some (sink_start new_tty_sink, l), fa_thread := Some (ThreadInLoop l)\<rparr>"
proof -
  have "start_executor (Some l) f =
    (Inr (), (upd_exec (\<lambda>_. snd (start (Some l) (fa_exec f))) f)\<lparr>fa_sink := Some (sink_start new_tty_sink, l)\<rparr>)"
    using f ex by (simp add: start_executor_def start_fresh attach_tty_sink_def Let_def)
  then show ?thesis
    using f(3) ex by (simp add: thread_begin_def start_fresh upd_exec_def booted_exec_def)
qed

text \<open>C26: the program starts exactly once. A new factory in the tty mode with an executor thread, once
  started and when the thread reached its loop, has the configured number of idle workers in the
  executor's loop, which runs and in which the job store publishes; a sink for the router that
  is everybody's default is attached to the same loop; and starting again, before or after the
  thread reached its loop, changes nothing.\<close>

theorem factory_starts_once:
  assumes new: "new_factory config fresh given listeners g r w p = (Inr f, p1)"
    and mode: "threaded f" and started: "start_factory show_int read_file l f = (x, f1)"
  shows "x = Inr RunTty \<and> start_factory show_int read_file l' f1 = (Inr RunTty, f1) \<and>
    (let f2 = thread_begin f1; ex = fa_exec f2; n = nat (ec_workers (cfg_executor (fa_config f))) in
      exec_loop_running ex \<and> ex_loop ex = Some l \<and> js_loop (ex_js ex) = Some l \<and> ex_queue ex = Some [] \<and>
      ex_tasks ex = replicate n Idle \<and> ex_workers ex = [0..<n] \<and>
      (\<exists>ro. pv_default p1 = Some ro) \<and> fa_sink f2 = Some (sink_start new_tty_sink, l) \<and>
      start_factory show_int read_file l' f2 = (Inr RunTty, f2) \<and> thread_begin f2 = f2)"
proof -
  obtain n where n: "new_executor 1 None (Some (cfg_executor (fa_config f))) w = Inr (fa_exec f)"
    "fa_config f = with_router fresh (case config of None \<Rightarrow> default_config | Some c \<Rightarrow> c)"
    "pv_default p1 = cm_output_router (cfg_console_manager (fa_config f))"
    "fa_thread f = None" "fa_sink f = None" by (rule new_factory_parts [OF new]) blast
  obtain ro where ro: "cm_output_router (cfg_console_manager (fa_config f)) = Some ro"
    using with_router_some n(2) by metis
  have f1: "f1 = f\<lparr>fa_loop := Some l, fa_thread := Some (ThreadStarted l)\<rparr>" and x: "x = Inr RunTty"
    using started started_factory [OF mode n(4)] by simp_all
  have f2: "thread_begin f1 = (upd_exec (booted_exec l) f1)
      \<lparr>fa_sink := Some (sink_start new_tty_sink, l), fa_thread := Some (ThreadInLoop l)\<rparr>"
    by (rule booted_factory) (simp_all add: f1 n(5) ro new_executor_fresh [OF n(1)])
  have t: "threaded f1" "threaded (thread_begin f1)" "thread_alive f1" "thread_alive (thread_begin f1)"
    unfolding f2 using mode by (simp_all add: threaded_def thread_alive_def f1)
  have "thread_begin (thread_begin f1) = thread_begin f1" unfolding f2 by (simp add: thread_begin_def)
  then show ?thesis
    using x n(3) ro start_again [OF t(1,3)] start_again [OF t(2,4)] unfolding Let_def f2
    by (simp add: f1 new_executor_fresh [OF n(1)] booted_exec_def exec_loop_running_def loop_is_running_def
        set_running_def upd_js_def set_loop_def)
qed

text \<open>A program with one console, and its world.\<close>

definition demo_factory :: "executor_config \<Rightarrow> factory res \<times> provider" where
  "demo_factory cfg = new_factory (Some (default_config\<lparr>cfg_executor := cfg\<rparr>)) 7 new_output_router None
     demo_root_only (demo_binding_registry False) (sample_world\<lparr>w_cur_loop := None\<rparr>) new_provider"

definition demo_program :: factory where
  "demo_program = (case fst (demo_factory default_executor_config) of Inr f \<Rightarrow> f)"

lemma demo_program_made: "demo_factory default_executor_config = (Inr demo_program, \<lparr>pv_default = Some 7, pv_current = None\<rparr>)"
proof -
  have "fst (register_all demo_root_only (new_console_manager (Some new_output_router) True None (demo_binding_registry False))) = Inr ()"
    by code_simp
  then have "\<exists>f. demo_factory default_executor_config = (Inr f, \<lparr>pv_default = Some 7, pv_current = None\<rparr>)"
    by (auto simp: demo_factory_def new_factory_def Let_def new_executor_def init_audit_sink_def
        default_executor_config_def default_audit_config_def with_router_def default_config_def
        default_console_manager_config_def set_default_router_def new_provider_def split: sum.splits prod.splits)
  then show ?thesis by (auto simp: demo_program_def)
qed

lemma demo_program_config:
  "fa_config demo_program = with_router 7 default_config"
  "cfg_console_factory (fa_config demo_program) = default_console_factory_config"
  "cfg_executor (fa_config demo_program) = default_executor_config"
proof -
  show c: "fa_config demo_program = with_router 7 default_config"
    using demo_program_made unfolding demo_factory_def
    by (rule new_factory_parts) (simp add: default_config_def)
  then show "cfg_console_factory (fa_config demo_program) = default_console_factory_config"
    "cfg_executor (fa_config demo_program) = default_executor_config"
    by (simp_all add: with_router_def default_config_def)
qed

lemma factory_starts_once_witness:
  "ex_workers (fa_exec (thread_begin (snd (start_factory (\<lambda>_. []) Inr 3 demo_program)))) = [0, 1, 2, 3]"
proof -
  let ?s = "start_factory (\<lambda>_. []) Inr 3 demo_program"
  have m: "threaded demo_program"
    "ec_workers (cfg_executor (fa_config demo_program)) = 4"
    unfolding threaded_def demo_program_config(2,3) by (simp_all add: default_console_factory_config_def default_executor_config_def)
  have "ex_workers (fa_exec (thread_begin (snd ?s))) = [0..<nat 4]"
    using factory_starts_once [OF demo_program_made [unfolded demo_factory_def] m(1) prod.collapse [symmetric],
        of "\<lambda>_. []" Inr 3 3] unfolding m(2) Let_def by blast
  then show ?thesis by (simp add: upt_rec)
qed

section \<open>Shutting down completely\<close>

definition no_handler_runs :: "exec \<Rightarrow> bool" where
  "no_handler_runs ex \<longleftrightarrow> (\<forall>t \<in> set (ex_tasks ex). \<forall>wi a. t \<noteq> Running wi a)"

lemma cancel_task_stops: "\<forall>wi a. t \<noteq> Running wi a \<Longrightarrow> cancel_task t = Stopped"
  by (cases t) simp_all

lemma cancel_tasks_idle:
  assumes "no_handler_runs ex"
  shows "no_handler_runs (cancel_tasks ws ex)" "\<forall>w \<in> set ws. w < length (ex_tasks ex) \<longrightarrow> ex_tasks (cancel_tasks ws ex) ! w = Stopped"
    "length (ex_tasks (cancel_tasks ws ex)) = length (ex_tasks ex)"
proof -
  show len: "length (ex_tasks (cancel_tasks ws ex)) = length (ex_tasks ex)"
    by (simp add: cancel_tasks_def cancel_fold)
  have nth: "ex_tasks (cancel_tasks ws ex) ! w = (if w \<in> set ws then Stopped else ex_tasks ex ! w)"
    if "w < length (ex_tasks ex)" for w
    using assms that by (simp add: cancel_tasks_def cancel_fold no_handler_runs_def cancel_task_stops)
  then show "\<forall>w \<in> set ws. w < length (ex_tasks ex) \<longrightarrow> ex_tasks (cancel_tasks ws ex) ! w = Stopped" by simp
  show "no_handler_runs (cancel_tasks ws ex)"
    unfolding no_handler_runs_def
  proof
    fix t assume "t \<in> set (ex_tasks (cancel_tasks ws ex))"
    then obtain w where "w < length (ex_tasks ex)" "t = ex_tasks (cancel_tasks ws ex) ! w"
      using len by (auto simp: in_set_conv_nth)
    then show "\<forall>wi a. t \<noteq> Running wi a" using nth assms by (simp add: no_handler_runs_def)
  qed
qed

lemma cancel_tasks_frame [simp]:
  "ex_js (cancel_tasks ws ex) = ex_js ex" "ex_loop (cancel_tasks ws ex) = ex_loop ex"
  "ex_audit (cancel_tasks ws ex) = ex_audit ex" "w_loop_running (cancel_tasks ws ex) = w_loop_running ex"
  "ex_workers (cancel_tasks ws ex) = ex_workers ex" "ex_pool (cancel_tasks ws ex) = ex_pool ex"
  "ex_pool_calls (cancel_tasks ws ex) = ex_pool_calls ex"
  by (simp_all add: cancel_tasks_def)

lemma cancel_all_stops:
  assumes "no_handler_runs ex"
  shows "all_stopped (cancel_tasks [0..<length (ex_tasks ex)] ex)"
  using cancel_tasks_idle [OF assms, of "[0..<length (ex_tasks ex)]"]
  by (auto simp: all_stopped_def in_set_conv_nth)

lemma cancel_sink_task_frame [simp]:
  "ex_tasks (fa_exec (cancel_sink_task f)) = ex_tasks (fa_exec f)"
  "w_loop_running (fa_exec (cancel_sink_task f)) = w_loop_running (fa_exec f)"
  "ex_audit (fa_exec (cancel_sink_task f)) = ex_audit (fa_exec f)"
  "fa_thread (cancel_sink_task f) = fa_thread f" "fa_manager (cancel_sink_task f) = fa_manager f"
  "cb_subs (fa_callbacks (cancel_sink_task f)) = cb_subs (fa_callbacks f)"
  "cb_scheduled (fa_callbacks (cancel_sink_task f)) = cb_scheduled (fa_callbacks f)"
  "cb_watching (fa_callbacks (cancel_sink_task f)) = cb_watching (fa_callbacks f)"
  "ex_pool (fa_exec (cancel_sink_task f)) = ex_pool (fa_exec f)"
  "js_bus (ex_js (fa_exec (cancel_sink_task f))) = js_bus (ex_js (fa_exec f))"
  by (auto simp: cancel_sink_task_def upd_exec_def upd_js_def task_cancelled_def unsubscribe_all_def
      split: option.split prod.split sink_task.split)

text \<open>The executor's thread, told to stop while no handler runs, cancels what is left and exits.\<close>

lemma thread_winds_down:
  assumes th: "fa_thread f = Some (ThreadInLoop l)" "l \<in> set (fa_stopping f)"
    and sink: "fa_sink f = Some (s, l)" "ts_task s = Some (TaskWatching q)"
    and cb: "cb_subs (fa_callbacks f) = []" "cb_scheduled (fa_callbacks f) = []"
      "dict_ok (cb_watching (fa_callbacks f))" "bus_ok (js_bus (ex_js (fa_exec f)))"
    and idle: "no_handler_runs (fa_exec f)"
  defines "f' \<equiv> thread_exit (thread_stop f)"
  shows "all_stopped (fa_exec f')" "fa_sink f' = Some (s\<lparr>ts_task := Some TaskEnded\<rparr>, l)"
    "js_gsubs (ex_js (fa_exec f')) = remove1 q (js_gsubs (ex_js (fa_exec f)))"
    "cb_subs (fa_callbacks f') = []" "cb_scheduled (fa_callbacks f') = []" "cb_watching (fa_callbacks f') = []"
    "ex_audit (fa_exec f') = ex_audit (fa_exec f)" "ex_pool (fa_exec f') = ex_pool (fa_exec f)"
    "\<not> w_loop_running (fa_exec f') l" "fa_thread f' = Some ThreadEnded" "fa_web f' = fa_web f"
    "\<forall>(i, w) \<in> set (cb_watching (fa_callbacks f)).
      cs_queue w \<notin> set (subscribers (js_bus (ex_js (fa_exec f'))) (cs_run_id w))"
    "set (subscribers (js_bus (ex_js (fa_exec f'))) r) \<subseteq> set (subscribers (js_bus (ex_js (fa_exec f))) r)"
proof -
  define cb0 where "cb0 = fa_callbacks f"
  have same: "run_all_scheduled cb0 = cb0"
    using cb(2) by (simp add: run_all_scheduled_def cb0_def)
  define cb1 where "cb1 = fold (\<lambda>(i, s). watch_end i s) (cb_watching cb0) cb0"
  have cb1: "set (cb_watching cb1) = {}" "cb_subs cb1 = []" "cb_scheduled cb1 = []" "watchers_frame cb0 cb1"
    "\<forall>(i, w) \<in> set (cb_watching cb0).
      cs_queue w \<notin> set (subscribers (js_bus (ex_js (cb_exec cb1))) (cs_run_id w))"
    unfolding cb1_def
    using fold_watch_end [OF cb(3) _ order_refl cb(4)] cb fold_watch_end_subs watchers_frame_end_all
    by (simp_all add: cb0_def dict_ok_def)
  note fr = cb1(4) [unfolded watchers_frame_def]
  define ex where "ex = cancel_tasks [0..<length (ex_tasks (cb_exec cb1))] (cb_exec cb1)"
  have f1: "thread_stop f = cancel_sink_task (upd_exec (\<lambda>_. ex)
      (f\<lparr>fa_thread := Some (ThreadDraining l), fa_callbacks := cb1\<rparr>))"
    using th same by (simp add: thread_stop_def cancel_pending_def ex_def upd_exec_def Let_def cb1_def cb0_def)
  have "no_handler_runs (cb_exec cb1)" using idle fr by (simp add: no_handler_runs_def cb0_def)
  then have "all_stopped ex" unfolding ex_def by (rule cancel_all_stops)
  then have stop: "all_stopped (fa_exec (thread_stop f))" by (simp add: f1 all_stopped_def)
  have f2: "f' = upd_exec (set_running l False) ((thread_stop f)\<lparr>fa_thread := Some ThreadEnded\<rparr>)"
    using stop by (simp add: f'_def thread_exit_def) (simp add: f1)
  have st: "fa_sink (thread_stop f) = Some (s\<lparr>ts_task := Some TaskEnded\<rparr>, l)"
    "js_gsubs (ex_js (fa_exec (thread_stop f))) = remove1 q (js_gsubs (ex_js (fa_exec f)))"
    "ex_audit (fa_exec (thread_stop f)) = ex_audit (fa_exec f)" "ex_pool (fa_exec (thread_stop f)) = ex_pool (fa_exec f)"
    "cb_subs (fa_callbacks (thread_stop f)) = []" "cb_scheduled (fa_callbacks (thread_stop f)) = []"
    "cb_watching (fa_callbacks (thread_stop f)) = []" "fa_web (thread_stop f) = fa_web f"
    "js_bus (ex_js (fa_exec (thread_stop f))) = js_bus (ex_js (cb_exec cb1))"
    using sink cb1 fr unfolding f1
    by (simp_all add: cancel_sink_task_def task_cancelled_def unsubscribe_all_def upd_js_def ex_def cb0_def)
  then show "all_stopped (fa_exec f')" "fa_sink f' = Some (s\<lparr>ts_task := Some TaskEnded\<rparr>, l)"
    "js_gsubs (ex_js (fa_exec f')) = remove1 q (js_gsubs (ex_js (fa_exec f)))"
    "cb_subs (fa_callbacks f') = []" "cb_scheduled (fa_callbacks f') = []" "cb_watching (fa_callbacks f') = []"
    "ex_audit (fa_exec f') = ex_audit (fa_exec f)" "ex_pool (fa_exec f') = ex_pool (fa_exec f)"
    "\<not> w_loop_running (fa_exec f') l" "fa_thread f' = Some ThreadEnded" "fa_web f' = fa_web f"
    using stop unfolding f2 by (simp_all add: set_running_def all_stopped_def)
  show "\<forall>(i, w) \<in> set (cb_watching (fa_callbacks f)).
      cs_queue w \<notin> set (subscribers (js_bus (ex_js (fa_exec f'))) (cs_run_id w))"
    "set (subscribers (js_bus (ex_js (fa_exec f'))) r) \<subseteq> set (subscribers (js_bus (ex_js (fa_exec f))) r)"
    using cb1(5) fr st(9) unfolding f2 by (simp_all add: set_running_def cb0_def)
qed

text \<open>Up to the wait, and the end of the shutdown proper.\<close>

lemma shutdown_begins:
  assumes th: "fa_loop f = Some l" "ex_loop (fa_exec f) = Some l" "w_loop_running (fa_exec f) l"
    and cfg: "cf_shutdown_executor (cfg_console_factory (fa_config f))"
    and cb: "dict_ok (cb_watching (fa_callbacks f))" "bus_ok (js_bus (ex_js (fa_exec f)))"
  defines "cb1 \<equiv> end_cancelled (run_all_scheduled (close_callbacks (fa_callbacks f)))"
  defines "ex1 \<equiv> cancel_tasks (ex_workers (cb_exec cb1)) ((cb_exec cb1)\<lparr>ex_workers := []\<rparr>)"
  shows "shutdown_begin_all f =
    (Some (Some (ex_workers (fa_exec f)), Some l), upd_exec (\<lambda>_. ex1) (f\<lparr>fa_callbacks := cb1\<rparr>))"
proof -
  note fr = callbacks_catch_up(5) [OF cb, unfolded watchers_frame_def, folded cb1_def]
  note fr1 = close_callbacks_views(4) [of "fa_callbacks f", unfolded watchers_frame_def]
  show ?thesis
    using th cfg fr fr1
    by (simp add: shutdown_begin_all_def shutdown_executor_begin_def Let_def shutdown_begin_def loop_catches_up_def
        exec_loop_running_def loop_is_running_def ex1_def flip: cb1_def)
qed

text \<open>C27: shutting down leaves nothing behind. The shutdown is called from the console's thread, while
  no handler runs, the thread pool has finished its calls and nothing else is done meanwhile. Then
  it waits for the loop to catch up and for the audit sink's writer, which ends by itself, and for
  nothing else. After it, and the turns in which the executor's thread stops and exits, every worker,
  the terminal sink's task and every task that watched for callbacks have ended, no cancellation is
  still to be run, the queues of all of them are unsubscribed, no callback is registered, the thread
  pool takes no work, the audit stream holds every record accepted and is closed, the loop is down,
  the executor's thread has ended and the web server is told to exit.\<close>

theorem shutdown_leaves_nothing:
  assumes th: "fa_thread f = Some (ThreadInLoop l)" "fa_loop f = Some l" "ex_loop (fa_exec f) = Some l"
      "w_loop_running (fa_exec f) l" "w_cur_loop (fa_exec f) \<noteq> Some l"
    and cfg: "cf_shutdown_executor (cfg_console_factory (fa_config f))"
    and idle: "no_handler_runs (fa_exec f)" "\<forall>w \<in> set (ex_workers (fa_exec f)). w < length (ex_tasks (fa_exec f))"
      "ex_pool_calls (fa_exec f) = 0"
    and sink: "fa_sink f = Some (s, l)" "ts_task s = Some (TaskWatching q)"
    and wf: "dict_ok (cb_watching (fa_callbacks f))" "bus_ok (js_bus (ex_js (fa_exec f)))"
      "\<forall>a. ex_audit (fa_exec f) = Some a \<longrightarrow> audit_inv a \<and> as_pc a \<noteq> WExit"
    and down: "shutdown_begin_all f = (sd, f1)"
  shows "\<exists>x. sd = Some x \<and> \<not> shutdown_waits True x f1 \<and> ex_workers (fa_exec f1) = [] \<and>
    (let f2 = thread_exit (thread_stop (shutdown_end_all sd f1)) in
      all_stopped (fa_exec f2) \<and>
      fa_sink f2 = Some (s\<lparr>ts_task := Some TaskEnded\<rparr>, l) \<and>
      js_gsubs (ex_js (fa_exec f2)) = remove1 q (js_gsubs (ex_js (fa_exec f))) \<and>
      cb_subs (fa_callbacks f2) = [] \<and> cb_scheduled (fa_callbacks f2) = [] \<and> cb_watching (fa_callbacks f2) = [] \<and>
      (\<forall>(i, w) \<in> set (cb_watching (fa_callbacks f)).
         cs_queue w \<notin> set (subscribers (js_bus (ex_js (fa_exec f2))) (cs_run_id w))) \<and>
      ex_pool (fa_exec f2) \<noteq> Some True \<and>
      (case ex_audit (fa_exec f) of None \<Rightarrow> ex_audit (fa_exec f2) = None
       | Some a \<Rightarrow> \<exists>a2. ex_audit (fa_exec f2) = Some a2 \<and> as_stream a2 = as_accepted a \<and> \<not> as_open a2) \<and>
      \<not> w_loop_running (fa_exec f2) l \<and> fa_thread f2 = Some ThreadEnded \<and>
      (\<forall>w. fa_web f2 = Some w \<longrightarrow> snd w))"
proof -
  define cb1 where "cb1 = end_cancelled (run_all_scheduled (close_callbacks (fa_callbacks f)))"
  define ex where "ex = (cb_exec cb1)\<lparr>ex_workers := []\<rparr>"
  define ex1 where "ex1 = cancel_tasks (ex_workers (cb_exec cb1)) ex"
  note cb = callbacks_catch_up [OF wf(1,2), folded cb1_def]
  note fr = cb(5) [unfolded watchers_frame_def]
  have sd: "sd = Some (Some (ex_workers (fa_exec f)), Some l)"
    and f1: "f1 = upd_exec (\<lambda>_. ex1) (f\<lparr>fa_callbacks := cb1\<rparr>)"
    using shutdown_begins [OF th(2-4) cfg wf(1,2)] down by (simp_all add: ex1_def ex_def cb1_def)
  have idle1: "no_handler_runs ex" using idle(1) fr by (simp add: no_handler_runs_def ex_def)
  have "\<forall>w \<in> set (ex_workers (fa_exec f)). ex_tasks ex1 ! w = Stopped"
    using cancel_tasks_idle(2) [OF idle1, of "ex_workers (cb_exec cb1)"] idle(2) fr by (simp add: ex1_def ex_def)
  moreover have "ex_pool_calls ex1 = 0" using idle(3) fr by (simp add: ex1_def ex_def)
  ultimately have wait: "\<not> shutdown_waits True (Some (ex_workers (fa_exec f)), Some l) f1"
    by (simp add: shutdown_waits_def gather_done_def pool_waits_def f1)
  define f2 where "f2 = shutdown_end_all sd f1"
  have f2: "fa_exec f2 = shutdown_end ex1" "fa_thread f2 = Some (ThreadInLoop l)"
    "l \<in> set (fa_stopping f2)" "fa_sink f2 = Some (s, l)" "cb_subs (fa_callbacks f2) = []"
    "cb_scheduled (fa_callbacks f2) = []" "cb_watching (fa_callbacks f2) = cb_watching cb1"
    "\<forall>w. fa_web f2 = Some w \<longrightarrow> snd w"
    using th sink cb(1,2) by (auto simp: f2_def shutdown_end_all_def shutdown_executor_end_def sd f1 split: prod.splits)
  have e: "ex_js (shutdown_end ex1) = ex_js (cb_exec cb1)" "ex_tasks (shutdown_end ex1) = ex_tasks ex1"
    "ex_audit (shutdown_end ex1) = map_option close_sink (ex_audit (fa_exec f))" "ex_pool (shutdown_end ex1) \<noteq> Some True"
    using fr by (simp_all add: shutdown_end_def close_audit_sink_def ex1_def ex_def)
  have h: "no_handler_runs (fa_exec f2)" "dict_ok (cb_watching (fa_callbacks f2))" "bus_ok (js_bus (ex_js (fa_exec f2)))"
    using cancel_tasks_idle(1) [OF idle1, of "ex_workers (cb_exec cb1)", folded ex1_def] cb(3,4) e(2)
    by (simp_all add: f2(1,7) no_handler_runs_def e(1))
  note d = thread_winds_down [OF f2(2-4) sink(2) f2(5,6) h(2,3,1)]
  have q: "\<forall>(i, w) \<in> set (cb_watching (fa_callbacks f)).
      cs_queue w \<notin> set (subscribers (js_bus (ex_js (fa_exec (thread_exit (thread_stop f2))))) (cs_run_id w))"
    using cb(6) d(12,13) unfolding f2(1,7) e(1) by blast
  have a: "case ex_audit (fa_exec f) of None \<Rightarrow> ex_audit (fa_exec (thread_exit (thread_stop f2))) = None
     | Some a \<Rightarrow> \<exists>a2. ex_audit (fa_exec (thread_exit (thread_stop f2))) = Some a2 \<and>
         as_stream a2 = as_accepted a \<and> \<not> as_open a2"
    using wf(3) close_sink_complete d(7) unfolding f2(1) e(3) by (auto split: option.split)
  have "ex_workers (fa_exec f1) = []" by (simp add: f1 ex1_def ex_def)
  then show ?thesis
    using sd wait q a d(1,2,4-6,9,10) d(3,8) [unfolded f2(1)] d(11) f2(8) fr e(4) unfolding Let_def f2_def [symmetric]
    by (simp add: e)
qed

text \<open>The demo program, running, with its sink's task in its loop.\<close>

definition sink_begins :: "factory \<Rightarrow> factory" where
  "sink_begins f =
    (case fa_sink f of
       None \<Rightarrow> f
     | Some (s, l) \<Rightarrow>
         let (t, js) = task_begin (Some l) (ex_js (fa_exec f))
         in upd_exec (upd_js (\<lambda>_. js)) (f\<lparr>fa_sink := Some (s\<lparr>ts_task := Some t\<rparr>, l)\<rparr>))"

definition demo_live_factory :: factory where
  "demo_live_factory = sink_begins (thread_begin (snd (start_factory (\<lambda>_. []) Inr 3 demo_program)))"

lemma demo_parts:
  "threaded demo_program" "fa_thread demo_program = None" "fa_sink demo_program = None"
  "new_executor 1 None (Some default_executor_config) (sample_world\<lparr>w_cur_loop := None\<rparr>) = Inr (fa_exec demo_program)"
  "cb_watching (fa_callbacks demo_program) = []"
proof -
  obtain n where n: "new_executor 1 None (Some (cfg_executor (fa_config demo_program))) (sample_world\<lparr>w_cur_loop := None\<rparr>) =
      Inr (fa_exec demo_program)" "fa_thread demo_program = None" "fa_sink demo_program = None" "cb_watching (fa_callbacks demo_program) = []"
    using demo_program_made unfolding demo_factory_def by (rule new_factory_parts) blast
  then show "fa_thread demo_program = None" "fa_sink demo_program = None"
    "new_executor 1 None (Some default_executor_config) (sample_world\<lparr>w_cur_loop := None\<rparr>) = Inr (fa_exec demo_program)"
    "cb_watching (fa_callbacks demo_program) = []"
    unfolding demo_program_config(3) by simp_all
  show "threaded demo_program"
    unfolding threaded_def demo_program_config(2) by (simp add: default_console_factory_config_def)
qed

lemma demo_booted:
  "thread_begin (snd (start_factory (\<lambda>_. []) Inr 3 demo_program)) =
    (upd_exec (booted_exec 3) (demo_program\<lparr>fa_loop := Some 3, fa_thread := Some (ThreadStarted 3)\<rparr>))
      \<lparr>fa_sink := Some (sink_start new_tty_sink, 3), fa_thread := Some (ThreadInLoop 3)\<rparr>"
  unfolding started_factory [OF demo_parts(1,2)] snd_conv
  by (rule booted_factory)
    (simp_all add: demo_parts(3) new_executor_fresh [OF demo_parts(4)] demo_program_config(1) with_router_some)

lemma demo_live_factory_facts:
  "fa_thread demo_live_factory = Some (ThreadInLoop 3)" "fa_loop demo_live_factory = Some 3"
  "ex_loop (fa_exec demo_live_factory) = Some 3" "w_loop_running (fa_exec demo_live_factory) 3"
  "w_cur_loop (fa_exec demo_live_factory) \<noteq> Some 3"
  "cf_shutdown_executor (cfg_console_factory (fa_config demo_live_factory))"
  "no_handler_runs (fa_exec demo_live_factory)"
  "\<forall>w \<in> set (ex_workers (fa_exec demo_live_factory)). w < length (ex_tasks (fa_exec demo_live_factory))"
  "ex_pool_calls (fa_exec demo_live_factory) = 0"
  "fa_sink demo_live_factory = Some (\<lparr>ts_task = Some (TaskWatching 0), ts_stopping = []\<rparr>, 3)"
  "cb_watching (fa_callbacks demo_live_factory) = []" "bus_ok (js_bus (ex_js (fa_exec demo_live_factory)))"
  "js_loop (ex_js (fa_exec demo_live_factory)) = Some 3"
proof -
  obtain js where js: "subscribe_all (Some 3) (ex_js (booted_exec 3 (fa_exec demo_program))) = (Inr 0, js)"
    "bus_ok (js_bus js)" "js_loop js = Some 3"
    by (simp add: new_executor_fresh(6) [OF demo_parts(4)] booted_exec_def set_running_def upd_js_def
        set_loop_def subscribe_all_def loop_check_def new_job_store_def new_bus_def)
      (simp add: bus_ok_def subscribers_def dict_get_or_def new_queue_def queue_ok_def)
  have r: "demo_live_factory = upd_exec (upd_js (\<lambda>_. js))
      ((upd_exec (booted_exec 3) (demo_program\<lparr>fa_loop := Some 3, fa_thread := Some (ThreadStarted 3)\<rparr>))
        \<lparr>fa_thread := Some (ThreadInLoop 3), fa_sink := Some (\<lparr>ts_task = Some (TaskWatching 0), ts_stopping = []\<rparr>, 3)\<rparr>)"
    unfolding demo_live_factory_def demo_booted using js(1)
    by (simp add: sink_begins_def task_begin_def sink_start_def new_tty_sink_def)
  show "fa_thread demo_live_factory = Some (ThreadInLoop 3)" "fa_loop demo_live_factory = Some 3"
    "ex_loop (fa_exec demo_live_factory) = Some 3" "w_loop_running (fa_exec demo_live_factory) 3"
    "w_cur_loop (fa_exec demo_live_factory) \<noteq> Some 3"
    "cf_shutdown_executor (cfg_console_factory (fa_config demo_live_factory))"
    "no_handler_runs (fa_exec demo_live_factory)"
    "\<forall>w \<in> set (ex_workers (fa_exec demo_live_factory)). w < length (ex_tasks (fa_exec demo_live_factory))"
    "ex_pool_calls (fa_exec demo_live_factory) = 0"
    "fa_sink demo_live_factory = Some (\<lparr>ts_task = Some (TaskWatching 0), ts_stopping = []\<rparr>, 3)"
    "cb_watching (fa_callbacks demo_live_factory) = []" "bus_ok (js_bus (ex_js (fa_exec demo_live_factory)))"
    "js_loop (ex_js (fa_exec demo_live_factory)) = Some 3"
    unfolding r
    by (simp_all add: booted_exec_def set_running_def upd_js_def no_handler_runs_def demo_program_config(2)
        default_console_factory_config_def js demo_parts(5) new_executor_fresh [OF demo_parts(4)])
qed

text \<open>In it a task watches the run \<open>''a''\<close> for a callback, and audit records wait for the writer.\<close>

definition demo_watched_factory :: factory where
  "demo_watched_factory =
    upd_exec (\<lambda>ex. ex\<lparr>ex_audit := Some (audit_write 1 ''invocation'' (AInvocation default_invocation) demo_sink)\<rparr>)
      (demo_live_factory\<lparr>fa_callbacks :=
        snd (register_callback ''a'' (Some (Handler 0)) None (fa_callbacks demo_live_factory))\<rparr>)"

lemma demo_watched_callbacks:
  "\<exists>w. cb_watching (fa_callbacks demo_watched_factory) = [w] \<and> cs_run_id (snd w) = ''a''"
  "bus_ok (js_bus (ex_js (fa_exec demo_watched_factory)))"
  "ex_tasks (fa_exec demo_watched_factory) = ex_tasks (fa_exec demo_live_factory)"
  "ex_workers (fa_exec demo_watched_factory) = ex_workers (fa_exec demo_live_factory)"
  "ex_loop (fa_exec demo_watched_factory) = Some 3" "w_loop_running (fa_exec demo_watched_factory) 3"
  "w_cur_loop (fa_exec demo_watched_factory) \<noteq> Some 3" "ex_pool_calls (fa_exec demo_watched_factory) = 0"
  "fa_thread demo_watched_factory = Some (ThreadInLoop 3)" "fa_loop demo_watched_factory = Some 3"
  "fa_sink demo_watched_factory = Some (\<lparr>ts_task = Some (TaskWatching 0), ts_stopping = []\<rparr>, 3)"
  "cf_shutdown_executor (cfg_console_factory (fa_config demo_watched_factory))"
  "ex_audit (fa_exec demo_watched_factory) =
    Some (audit_write 1 ''invocation'' (AInvocation default_invocation) demo_sink)"
proof -
  have run: "exec_loop_running (fa_exec demo_live_factory)"
    using demo_live_factory_facts(3,4) by (simp add: exec_loop_running_def loop_is_running_def)
  note reg = register_watches [OF run demo_live_factory_facts(3,5,13), of "''a''" "Some (Handler 0)" None, unfolded Let_def]
  show "\<exists>w. cb_watching (fa_callbacks demo_watched_factory) = [w] \<and> cs_run_id (snd w) = ''a''"
    "bus_ok (js_bus (ex_js (fa_exec demo_watched_factory)))"
    "ex_tasks (fa_exec demo_watched_factory) = ex_tasks (fa_exec demo_live_factory)"
    "ex_workers (fa_exec demo_watched_factory) = ex_workers (fa_exec demo_live_factory)"
    "ex_loop (fa_exec demo_watched_factory) = Some 3" "w_loop_running (fa_exec demo_watched_factory) 3"
    "w_cur_loop (fa_exec demo_watched_factory) \<noteq> Some 3" "ex_pool_calls (fa_exec demo_watched_factory) = 0"
    "fa_thread demo_watched_factory = Some (ThreadInLoop 3)" "fa_loop demo_watched_factory = Some 3"
    "fa_sink demo_watched_factory = Some (\<lparr>ts_task = Some (TaskWatching 0), ts_stopping = []\<rparr>, 3)"
    "cf_shutdown_executor (cfg_console_factory (fa_config demo_watched_factory))"
    "ex_audit (fa_exec demo_watched_factory) =
      Some (audit_write 1 ''invocation'' (AInvocation default_invocation) demo_sink)"
    using demo_live_factory_facts unfolding demo_watched_factory_def reg
    by (simp_all add: upd_exec_def)
qed

lemma shutdown_leaves_nothing_witness:
  "\<exists>i w. (i, w) \<in> set (cb_watching (fa_callbacks demo_watched_factory)) \<and>
    (let f2 = thread_exit (thread_stop (shutdown_end_all (fst (shutdown_begin_all demo_watched_factory))
        (snd (shutdown_begin_all demo_watched_factory))))
     in fa_thread f2 = Some ThreadEnded \<and> cb_watching (fa_callbacks f2) = [] \<and>
       cs_queue w \<notin> set (subscribers (js_bus (ex_js (fa_exec f2))) (cs_run_id w)))"
proof -
  note f = demo_watched_callbacks
  let ?a = "audit_write 1 ''invocation'' (AInvocation default_invocation) demo_sink"
  have a: "audit_inv ?a" "as_pc ?a \<noteq> WExit"
    by (simp_all add: demo_sink_def new_audit_sink_def audit_write_def append_buffer_def audit_inv_def Let_def)
  have idle: "no_handler_runs (fa_exec demo_watched_factory)"
    "\<forall>w \<in> set (ex_workers (fa_exec demo_watched_factory)). w < length (ex_tasks (fa_exec demo_watched_factory))"
    using demo_live_factory_facts(7,8) by (simp_all add: f(3,4) no_handler_runs_def)
  have ok: "dict_ok (cb_watching (fa_callbacks demo_watched_factory))"
    using f(1) by (auto simp: dict_ok_def)
  have au: "\<forall>a. ex_audit (fa_exec demo_watched_factory) = Some a \<longrightarrow> audit_inv a \<and> as_pc a \<noteq> WExit"
    using a by (simp add: f(13))
  obtain i w where w: "cb_watching (fa_callbacks demo_watched_factory) = [(i, w)]" using f(1) by fast
  show ?thesis
    using shutdown_leaves_nothing [OF f(9,10,5,6,7,12) idle f(8,11) _ ok f(2) au prod.collapse [symmetric]] w
    by (auto simp: Let_def)
qed

section \<open>What starting cannot do\<close>

text \<open>
  Without a thread of its own the executor is started by the caller, outside any running loop,
  and refuses: the tty mode cannot be started with \<open>executor_in_thread\<close> off.
\<close>

lemma executor_in_caller_refused:
  assumes new: "new_factory config fresh given listeners g r w p = (Inr f, p1)"
    and mode: "cf_run_mode (cfg_console_factory (fa_config f)) = ''tty''"
      "cf_start_executor (cfg_console_factory (fa_config f))"
      "\<not> cf_executor_in_thread (cfg_console_factory (fa_config f))"
    and sync: "w_cur_loop w = None"
  shows "fst (start_factory show_int read_file l f) =
    Inl (PyExc RuntimeErrorC ''Executor start requires a running event loop'')"
proof -
  obtain n where n: "new_executor 1 None (Some (cfg_executor (fa_config f))) w = Inr (fa_exec f)"
    "fa_thread f = None" by (rule new_factory_parts [OF new]) blast
  have "w_cur_loop (fa_exec f) = None"
    using new_executor_fresh(7) [OF n(1)] sync by simp
  then show ?thesis
    using mode n(2) new_executor_fresh(5) [OF n(1)]
    by (simp add: start_factory_def start_executor_if_needed_def start_executor_def start_def thread_alive_def Let_def)
qed

text \<open>
  After a shutdown the factory can be started again, but its sink is the one whose task has
  ended: the terminal shows no event of a run any more.
\<close>

lemma restart_keeps_ended_sink:
  assumes "threaded f" and "fa_thread f = Some ThreadEnded" and "fa_sink f = Some (s, l)"
  shows "fa_sink (thread_begin (snd (start_factory show_int read_file l' f))) = Some (s, l)"
proof -
  have "snd (start_factory show_int read_file l' f) = f\<lparr>fa_loop := Some l', fa_thread := Some (ThreadStarted l')\<rparr>"
    using assms
    by (simp add: threaded_def start_factory_def start_executor_if_needed_def start_executor_thread_def thread_alive_def)
  then show ?thesis
    using assms(3) by (auto simp: thread_begin_def start_executor_def attach_tty_sink_def Let_def split: sum.splits prod.splits)
qed

end
