(* ===== verification/DemoTable.thy ===== *)
theory DemoTable
  imports TableFacts
begin

text \<open>
  The text table of the file manager demo (\<open>demos/file_manager/utils/table.py\<close>): an older
  relative of the library's, which keeps its cells as objects and pads them once, when the
  table is made. What the two have in common is proved at the end. Widths are numbers of
  characters.
\<close>

section \<open>Cells\<close>

text \<open>A cell, and a cell of the header with the line of \<open>seq\<close> that goes below it.\<close>

datatype fm_cell = PlainCell cell | HeaderCell cell string

definition plain_cell :: "(pyval \<Rightarrow> string) \<Rightarrow> pyval \<Rightarrow> fm_cell" where
  "plain_cell py_str data =
    PlainCell \<lparr>ce_data_str = str_of py_str data, ce_data_width = int (length (str_of py_str data)),
               ce_padding = []\<rparr>"

definition header_cell :: "string \<Rightarrow> string \<Rightarrow> fm_cell" where
  "header_cell sep data =
    HeaderCell \<lparr>ce_data_str = data, ce_data_width = int (length data), ce_padding = []\<rparr>
      (repeat_str (int (length data)) sep)"

fun base_cell :: "fm_cell \<Rightarrow> cell" where
  "base_cell (PlainCell c) = c"
| "base_cell (HeaderCell c s) = c"

abbreviation cell_width :: "fm_cell \<Rightarrow> int" where
  "cell_width c \<equiv> ce_data_width (base_cell c)"

fun pad_cell :: "int \<Rightarrow> fm_cell \<Rightarrow> fm_cell" where
  "pad_cell n (PlainCell c) = PlainCell (if 0 < n then c\<lparr>ce_padding := spaces n\<rparr> else c)"
| "pad_cell n (HeaderCell c s) = HeaderCell (if 0 < n then c\<lparr>ce_padding := spaces n\<rparr> else c) s"

definition fm_cell_str :: "fm_cell \<Rightarrow> string" where
  "fm_cell_str c = ce_data_str (base_cell c) @ ce_padding (base_cell c)"

text \<open>What \<open>get_seq_str\<close> gives where a cell has it.\<close>

fun seq_strs :: "fm_cell list \<Rightarrow> string list" where
  "seq_strs [] = []"
| "seq_strs (PlainCell c # cs) = seq_strs cs"
| "seq_strs (HeaderCell c s # cs) = (s @ ce_padding c) # seq_strs cs"

section \<open>The table\<close>

record fm_table =
  ft_title :: pyval
  ft_title_indent :: int
  ft_data_indent :: int
  ft_data_seq_len :: int
  ft_title_seq :: string
  ft_header_seq :: string
  ft_header :: "string list"
  ft_rows :: "fm_cell list list"

definition fm_options :: "pyval \<Rightarrow> fm_table" where
  "fm_options title =
    \<lparr>ft_title = title, ft_title_indent = 0, ft_data_indent = 4, ft_data_seq_len = 4,
     ft_title_seq = ''='', ft_header_seq = ''-'', ft_header = [], ft_rows = []\<rparr>"

text \<open>\<open>_padding_data\<close>: a row that is too short gets a single empty cell.\<close>

definition padding_row :: "nat \<Rightarrow> pyval list \<Rightarrow> pyval list" where
  "padding_row n row =
    (if length row < n then row @ [VStr []] else if n < length row then take n row else row)"

definition fm_format_header :: "(pyval \<Rightarrow> string) \<Rightarrow> pyval list \<Rightarrow> string list" where
  "fm_format_header py_str = map (\<lambda>v. capitalize (str_of py_str v))"

definition merge_data ::
  "(pyval \<Rightarrow> string) \<Rightarrow> string \<Rightarrow> string list \<Rightarrow> pyval list list \<Rightarrow> fm_cell list list" where
  "merge_data py_str sep header data = map (header_cell sep) header # map (map (plain_cell py_str)) data"

text \<open>The two passes of \<open>_padding_max_width\<close>.\<close>

fun grow_widths :: "fm_cell list \<Rightarrow> int list \<Rightarrow> int list res" where
  "grow_widths [] ws = Inr ws"
| "grow_widths (c # cs) [] = Inl index_error"
| "grow_widths (c # cs) (w # ws) = map_sum id (\<lambda>r. max w (cell_width c) # r) (grow_widths cs ws)"

definition pad_row :: "int list \<Rightarrow> fm_cell list \<Rightarrow> fm_cell list" where
  "pad_row ws row =
    map (\<lambda>(c, w). if cell_width c < w then pad_cell (w - cell_width c) c else c) (zip row ws)"

definition padding_max_width :: "string list \<Rightarrow> fm_cell list list \<Rightarrow> fm_cell list list res" where
  "padding_max_width header rows =
    map_sum id (\<lambda>ws. map (pad_row ws) rows)
      (fold_res grow_widths rows (map (\<lambda>h. int (length h)) header))"

definition new_fm_table ::
  "(pyval \<Rightarrow> string) \<Rightarrow> pyval list \<Rightarrow> pyval list list \<Rightarrow> fm_table \<Rightarrow> fm_table res" where
  "new_fm_table py_str header data options =
    (let rows = map (padding_row (length header)) data;
         header1 = fm_format_header py_str header
     in map_sum id (\<lambda>cells. options\<lparr>ft_header := header1, ft_rows := cells\<rparr>)
          (padding_max_width header1 (merge_data py_str (ft_header_seq options) header1 rows)))"

section \<open>Printing\<close>

definition fm_joined :: "fm_table \<Rightarrow> string list \<Rightarrow> string" where
  "fm_joined t parts = spaces (ft_data_indent t) @ join_with (spaces (ft_data_seq_len t)) parts"

definition print_row :: "fm_table \<Rightarrow> fm_cell list \<Rightarrow> string \<times> string option" where
  "print_row t row =
    (fm_joined t (map fm_cell_str row),
     if seq_strs row \<noteq> [] then Some (fm_joined t (seq_strs row)) else None)"

definition fm_data_lines :: "fm_table \<Rightarrow> string list" where
  "fm_data_lines t =
    concat (map (\<lambda>row. case print_row t row of (line, None) \<Rightarrow> [line] | (line, Some s) \<Rightarrow> [line, s])
      (ft_rows t))"

definition fm_print_data :: "fm_table \<Rightarrow> string" where
  "fm_print_data t = join_with [newline] (fm_data_lines t)"

text \<open>\<open>len\<close> of the title, which need not be a string; an object here has no \<open>__len__\<close>.\<close>

definition py_len :: "pyval \<Rightarrow> nat res" where
  "py_len v =
    (case v of
       VStr s \<Rightarrow> Inr (length s) | VList xs \<Rightarrow> Inr (length xs) | VDict d \<Rightarrow> Inr (length d)
     | _ \<Rightarrow> Inl (PyExc TypeErrorC ''object has no len()''))"

definition fm_print_title :: "(pyval \<Rightarrow> string) \<Rightarrow> fm_table \<Rightarrow> string option res" where
  "fm_print_title py_str t =
    (case str_of py_str (ft_title t) of
       [] \<Rightarrow> Inr None
     | c # cs \<Rightarrow>
         let title = (if \<not> is_upper c then upper_char c # map lower_char cs else c # cs);
             indent = spaces (ft_title_indent t)
         in map_sum id
              (\<lambda>n. Some (join_with [newline] [indent @ title, indent @ repeat_str (int n) (ft_title_seq t)]))
              (py_len (ft_title t)))"

definition fm_str :: "(pyval \<Rightarrow> string) \<Rightarrow> fm_table \<Rightarrow> string res" where
  "fm_str py_str t =
    map_sum id
      (\<lambda>title. (case title of None \<Rightarrow> [] | Some s \<Rightarrow> s @ [newline, newline]) @ fm_print_data t)
      (fm_print_title py_str t)"

section \<open>Making and printing never raise\<close>

lemma padding_row_length: "length (padding_row n row) \<le> n"
  by (auto simp: padding_row_def)

lemma base_cell_make [simp]:
  "cell_width (plain_cell p v) = int (length (str_of p v))" "cell_width (header_cell sep h) = int (length h)"
  by (simp_all add: plain_cell_def header_cell_def)

lemma grow_widths_total:
  "length row \<le> length ws \<Longrightarrow> \<exists>ws'. grow_widths row ws = Inr ws' \<and> length ws' = length ws"
  by (induction row ws rule: grow_widths.induct) auto

lemma fold_grow_total:
  "\<forall>row \<in> set rows. length row \<le> length ws \<Longrightarrow>
    \<exists>ws'. fold_res grow_widths rows ws = Inr ws' \<and> length ws' = length ws"
proof (induction rows arbitrary: ws)
  case (Cons row rows)
  obtain ws1 where "grow_widths row ws = Inr ws1" "length ws1 = length ws"
    using grow_widths_total [of row ws] Cons.prems by auto
  then show ?case using Cons.IH [of ws1] Cons.prems by simp
qed simp

lemma new_fm_table_total:
  obtains ws where
    "new_fm_table p header data o1 =
      Inr (o1\<lparr>ft_header := fm_format_header p header,
              ft_rows := map (pad_row ws)
                (merge_data p (ft_header_seq o1) (fm_format_header p header)
                  (map (padding_row (length header)) data))\<rparr>)"
    "fold_res grow_widths
      (merge_data p (ft_header_seq o1) (fm_format_header p header) (map (padding_row (length header)) data))
      (map (\<lambda>h. int (length h)) (fm_format_header p header)) = Inr ws"
    "length ws = length header"
proof -
  have "\<forall>row \<in> set (merge_data p (ft_header_seq o1) (fm_format_header p header)
      (map (padding_row (length header)) data)). length row \<le> length header"
    by (auto simp: merge_data_def fm_format_header_def padding_row_length)
  then show ?thesis
    using that fold_grow_total [of _ "map (\<lambda>h. int (length h)) (fm_format_header p header)"]
    by (fastforce simp: new_fm_table_def padding_max_width_def Let_def fm_format_header_def)
qed

section \<open>The library's table on the same data\<close>

definition lib_options :: "fm_table \<Rightarrow> table" where
  "lib_options t = table_options\<lparr>tb_title := ft_title t, tb_title_indent := ft_title_indent t,
     tb_data_indent := ft_data_indent t, tb_data_seq_len := ft_data_seq_len t,
     tb_title_seq := ft_title_seq t, tb_header_seq := ft_header_seq t, tb_header_footer := False\<rparr>"

text \<open>The string of a cell.\<close>

abbreviation raw :: "fm_cell \<Rightarrow> string" where
  "raw c \<equiv> ce_data_str (base_cell c)"

definition fresh_cell :: "fm_cell \<Rightarrow> bool" where
  "fresh_cell c \<longleftrightarrow> cell_width c = len_width (raw c) \<and> ce_padding (base_cell c) = []"

lemma fresh_make [simp]: "fresh_cell (plain_cell p v)" "fresh_cell (header_cell sep h)"
  by (simp_all add: fresh_cell_def plain_cell_def header_cell_def len_width_def)

lemma widen_grow:
  "length row = length ws \<Longrightarrow> \<forall>c \<in> set row. fresh_cell c \<Longrightarrow>
    widen len_width (map raw row) ws = grow_widths row ws"
  by (induction row ws rule: grow_widths.induct) (auto simp: fresh_cell_def)

lemma fm_cell_str_pad:
  "fresh_cell c \<Longrightarrow>
    fm_cell_str (if cell_width c < w then pad_cell (w - cell_width c) c else c) = pad len_width (raw c) w"
  by (cases c) (auto simp: fresh_cell_def fm_cell_str_def pad_def)

lemma pad_row_strs:
  "\<forall>c \<in> set row. fresh_cell c \<Longrightarrow>
    map fm_cell_str (pad_row ws row) = map2 (pad len_width) (map raw row) ws"
  by (induction row arbitrary: ws; case_tac ws) (auto simp: pad_row_def fm_cell_str_pad)

lemma fold_widen_grow:
  "\<forall>row \<in> set rows. length row = length ws \<and> (\<forall>c \<in> set row. fresh_cell c) \<Longrightarrow>
    fold_res (widen len_width) (map (map raw) rows) ws = fold_res grow_widths rows ws"
proof (induction rows arbitrary: ws)
  case (Cons row rows)
  obtain ws1 where "grow_widths row ws = Inr ws1" "length ws1 = length ws"
    using grow_widths_total [of row ws] Cons.prems by auto
  then show ?case using Cons.IH [of ws1] Cons.prems by (simp add: widen_grow)
qed simp

lemma grow_header:
  "grow_widths (map (header_cell sep) hs) (replicate (length hs) 0) = Inr (map (\<lambda>h. int (length h)) hs)"
  "grow_widths (map (header_cell sep) hs) (map (\<lambda>h. int (length h)) hs) = Inr (map (\<lambda>h. int (length h)) hs)"
  by (induction hs) simp_all

lemma cell_lines_plain:
  "length row \<le> length ws \<Longrightarrow> cell_lines cw row ws None = map (\<lambda>c. [c]) row"
  by (auto simp: cell_lines_def comp_def split_def enumerate_eq_zip intro!: nth_equalityI)

lemma fold_max_ones: "xs \<noteq> [] \<Longrightarrow> fold max (map (\<lambda>_. Suc 0) xs) 0 = Suc 0"
proof -
  have *: "fold max (map (\<lambda>_. Suc 0) xs) (Suc 0) = Suc 0" by (induction xs) simp_all
  show "xs \<noteq> [] \<Longrightarrow> ?thesis" using * by (cases xs) (auto simp: fold_invariant)
qed

lemma render_row_plain:
  assumes "row \<noteq> []" "length row \<le> length ws"
  shows "render_row cw t row ws None = Inr [joined_line t (map2 (pad cw) row ws)]"
proof -
  have "map (\<lambda>(lines, w). pad cw (nth_or_empty lines 0) w) (zip (map (\<lambda>c. [c]) row) ws) =
      map2 (pad cw) row ws"
    by (simp add: zip_map1 nth_or_empty_def comp_def split_def)
  then show ?thesis
    using assms fold_max_ones [OF assms(1)] by (simp add: render_row_def cell_lines_plain comp_def)
qed

lemma render_rows_plain:
  "\<forall>row \<in> set rows. row \<noteq> [] \<and> length row \<le> length ws \<Longrightarrow>
    render_rows cw t ws None rows = Inr (map (\<lambda>row. joined_line t (map2 (pad cw) row ws)) rows)"
  by (induction rows) (simp_all add: render_row_plain)

text \<open>The line below the header: each header's own width of the separator, then spaces.\<close>

definition own_sep :: "fm_table \<Rightarrow> string list \<Rightarrow> int list \<Rightarrow> string" where
  "own_sep t hs ws = fm_joined t
    (map (\<lambda>(h, w). repeat_str (int (length h)) (ft_header_seq t) @ spaces (w - int (length h))) (zip hs ws))"

lemma seq_strs_header:
  "seq_strs (pad_row ws (map (header_cell sep) hs)) =
    map (\<lambda>(h, w). repeat_str (int (length h)) sep @ spaces (w - int (length h))) (zip hs ws)"
  by (induction hs arbitrary: ws; case_tac ws) (auto simp: pad_row_def header_cell_def spaces_def)

lemma seq_strs_plain: "seq_strs (pad_row ws (map (plain_cell p) row)) = []"
  by (induction row arbitrary: ws; case_tac ws) (auto simp: pad_row_def plain_cell_def)

lemma padding_row_fits:
  assumes "n - 1 \<le> length row"
  shows "fit_row n True row = Inr (padding_row n row)" "length (padding_row n row) = n"
proof -
  have "n - length row = 1" if "length row < n" using that assms by simp
  then show "fit_row n True row = Inr (padding_row n row)" "length (padding_row n row) = n"
    by (auto simp: fit_row_def padding_row_def)
qed

lemma fit_rows_padding:
  "\<forall>row \<in> set data. n - 1 \<le> length row \<Longrightarrow> fit_rows n True data = (Inr (), map (padding_row n) data)"
  by (induction data) (simp_all add: padding_row_fits)

lemma lib_table_made:
  assumes "header \<noteq> []" "\<forall>row \<in> set data. length header - 1 \<le> length row"
  shows "new_table p header data (lib_options o1) =
    Inr ((lib_options o1)\<lparr>tb_header := map VStr (fm_format_header p header),
                          tb_data := map (padding_row (length header)) data\<rparr>)"
proof -
  have "normalize_data ((lib_options o1)\<lparr>tb_header := header, tb_data := data\<rparr>) =
      (Inr (), (lib_options o1)\<lparr>tb_header := header, tb_data := map (padding_row (length header)) data\<rparr>)"
    using assms by (simp add: normalize_data_def Let_def fit_rows_padding lib_options_def table_options_def)
  then show ?thesis
    by (simp add: new_table_def settle_table_def format_header_def fm_format_header_def comp_def)
qed

section \<open>The two tables print alike\<close>

lemma merged_raw: "map (map raw) (merge_data p sep hs rows) = hs # map (map (str_of p)) rows"
  by (simp add: merge_data_def plain_cell_def header_cell_def comp_def)

lemma merged_fresh:
  "\<forall>row \<in> set rows. length row = length hs \<Longrightarrow>
    \<forall>row \<in> set (merge_data p sep hs rows). length row = length hs \<and> (\<forall>c \<in> set row. fresh_cell c)"
  by (auto simp: merge_data_def)

lemma fm_lines_eq:
  assumes "hs \<noteq> []" "length ws = length hs"
    and "ft_rows t = map (pad_row ws) (merge_data p (ft_header_seq t) hs rows)"
  shows "fm_data_lines t =
    fm_joined t (map2 (pad len_width) hs ws) # own_sep t hs ws #
    map (\<lambda>row. fm_joined t (map2 (pad len_width) (map (str_of p) row) ws)) rows"
proof -
  have fr: "map fm_cell_str (pad_row ws (map (plain_cell p) row)) = map2 (pad len_width) (map (str_of p) row) ws" for row
    using pad_row_strs [of "map (plain_cell p) row" ws] by (auto simp: plain_cell_def comp_def fresh_cell_def len_width_def)
  have fh: "map fm_cell_str (pad_row ws (map (header_cell (ft_header_seq t)) hs)) = map2 (pad len_width) hs ws"
    using pad_row_strs [of "map (header_cell (ft_header_seq t)) hs" ws]
    by (auto simp: header_cell_def comp_def fresh_cell_def len_width_def)
  have ne: "zip hs ws \<noteq> []" using assms(1,2) by (cases hs; cases ws) auto
  have "concat (map (\<lambda>row. case print_row t row of (line, None) \<Rightarrow> [line] | (line, Some s) \<Rightarrow> [line, s])
      (map (\<lambda>row. pad_row ws (map (plain_cell p) row)) rows)) =
      map (\<lambda>row. fm_joined t (map2 (pad len_width) (map (str_of p) row) ws)) rows"
    by (induction rows) (simp_all add: print_row_def fr seq_strs_plain)
  then show ?thesis
    using ne by (simp add: fm_data_lines_def assms(3) merge_data_def print_row_def fh seq_strs_header own_sep_def comp_def)
qed

lemma merged_widths:
  assumes "\<forall>row \<in> set rows. length row = length hs"
    and "fold_res grow_widths (merge_data p sep hs rows) (map (\<lambda>h. int (length h)) hs) = Inr ws"
  shows "compute_col_widths len_width (hs # map (map (str_of p)) rows) = Inr ws"
proof -
  have "fold_res (widen len_width) (map (map raw) (merge_data p sep hs rows)) (replicate (length hs) 0) =
      fold_res grow_widths (merge_data p sep hs rows) (replicate (length hs) 0)"
    by (rule fold_widen_grow) (use merged_fresh [OF assms(1), of p sep] in simp)
  also have "\<dots> = fold_res grow_widths (merge_data p sep hs rows) (map (\<lambda>h. int (length h)) hs)"
    by (simp add: merge_data_def grow_header)
  finally show ?thesis
    using assms(2) unfolding merged_raw by (simp add: compute_col_widths_def)
qed

lemma lib_lines:
  assumes "length ws = length hs" "hs \<noteq> []" "\<forall>row \<in> set rows. length row = length hs"
    and "table_layout len_width p term t = Inr (ws, None)" "table_rows p t = hs # map (map (str_of p)) rows"
  shows "data_lines len_width p term t =
    Inr (joined_line t (map2 (pad len_width) hs ws) # render_header_sep t ws #
      map (\<lambda>row. joined_line t (map2 (pad len_width) (map (str_of p) row) ws)) rows)"
proof -
  have rn: "\<forall>row \<in> set rows. row \<noteq> []" using assms(2,3) by force
  have "render_rows len_width t ws None (map (map (str_of p)) rows) =
      Inr (map (\<lambda>row. joined_line t (map2 (pad len_width) (map (str_of p) row) ws)) rows)"
    using render_rows_plain [of "map (map (str_of p)) rows" ws len_width t] assms(1,3) rn by (simp add: comp_def)
  then show ?thesis
    using render_row_plain [of hs ws len_width t] assms by (simp add: data_lines_def)
qed

text \<open>A table of the demo prints like the library's. When no row misses more than one cell, the
  demo's table has the title and the lines of the library's table, without its border and its
  wrapping, except that the line below the header underlines each header by its own length and
  not by the column's.\<close>

theorem fm_table_prints_like_library:
  assumes "header \<noteq> []" and "\<forall>row \<in> set data. length header - 1 \<le> length row"
  shows "\<exists>t lib ws ls. new_fm_table py_str header data o1 = Inr t \<and>
    new_table py_str header data (lib_options o1) = Inr lib \<and>
    table_layout len_width py_str term lib = Inr (ws, None) \<and>
    data_lines len_width py_str term lib = Inr ls \<and>
    fm_data_lines t = ls[1 := own_sep o1 (ft_header t) ws] \<and>
    (\<forall>s. ft_title o1 = VStr s \<longrightarrow> fm_print_title py_str t = Inr (print_title py_str lib))"
proof -
  define hs where "hs = fm_format_header py_str header"
  define rows where "rows = map (padding_row (length header)) data"
  define lib where "lib = (lib_options o1)\<lparr>tb_header := map VStr hs, tb_data := rows\<rparr>"
  have len: "length hs = length header" "hs \<noteq> []" using assms(1) by (simp_all add: hs_def fm_format_header_def)
  have rl: "\<forall>row \<in> set rows. length row = length hs"
    using assms(2) padding_row_fits(2) by (auto simp: rows_def len(1))
  obtain ws where ws: "new_fm_table py_str header data o1 =
      Inr (o1\<lparr>ft_header := hs, ft_rows := map (pad_row ws) (merge_data py_str (ft_header_seq o1) hs rows)\<rparr>)"
    "fold_res grow_widths (merge_data py_str (ft_header_seq o1) hs rows) (map (\<lambda>h. int (length h)) hs) = Inr ws"
    "length ws = length header"
    by (rule new_fm_table_total [of py_str header data o1]) (simp add: hs_def rows_def)
  let ?t = "o1\<lparr>ft_header := hs, ft_rows := map (pad_row ws) (merge_data py_str (ft_header_seq o1) hs rows)\<rparr>"
  have lib: "new_table py_str header data (lib_options o1) = Inr lib"
    using lib_table_made [OF assms] by (simp add: lib_def hs_def rows_def)
  have tr: "table_rows py_str lib = hs # map (map (str_of py_str)) rows"
    by (simp add: table_rows_def lib_def comp_def str_of_def)
  have lay: "table_layout len_width py_str term lib = Inr (ws, None)"
    using merged_widths [OF rl ws(2)] unfolding table_layout_def tr
    by (simp add: resolve_wrap_def lib_def lib_options_def table_options_def)
  have dl: "data_lines len_width py_str term lib =
      Inr (joined_line lib (map2 (pad len_width) hs ws) # render_header_sep lib ws #
        map (\<lambda>row. joined_line lib (map2 (pad len_width) (map (str_of py_str) row) ws)) rows)"
    by (rule lib_lines [OF _ len(2) rl lay tr]) (simp add: ws(3) len(1))
  have "fm_data_lines ?t = fm_joined ?t (map2 (pad len_width) hs ws) # own_sep ?t hs ws #
      map (\<lambda>row. fm_joined ?t (map2 (pad len_width) (map (str_of py_str) row) ws)) rows"
    by (rule fm_lines_eq) (simp_all add: len ws(3))
  moreover have "fm_joined ?t = joined_line lib" "own_sep ?t = own_sep o1"
    by (simp_all add: fun_eq_iff fm_joined_def own_sep_def joined_line_def lib_def lib_options_def)
  moreover have "fm_print_title py_str ?t = Inr (print_title py_str lib)" if "ft_title o1 = VStr s" for s
    using that by (auto simp: fm_print_title_def print_title_def lib_def lib_options_def str_of_def py_len_def Let_def
        split: list.splits)
  ultimately show ?thesis using ws(1) lib lay dl by (intro exI [of _ ?t] exI) auto
qed

definition fm_demo_header :: "pyval list" where
  "fm_demo_header = [VStr ''command'', VStr ''text'']"

definition fm_demo_data :: "pyval list list" where
  "fm_demo_data = [[VStr ''quit'', VStr ''Leave it''], [VStr ''env'']]"

lemma fm_table_prints_like_library_witness:
  "\<exists>t ls. new_fm_table demo_str fm_demo_header fm_demo_data (fm_options (VStr ''core'')) = Inr t \<and>
    length ls = 4 \<and> (\<forall>l \<in> set ls. len_width l = 23) \<and>
    fm_data_lines t = ls[1 := spaces 4 @ ''-------    ----    '']"
proof -
  obtain t lib ws ls where
    t: "new_fm_table demo_str fm_demo_header fm_demo_data (fm_options (VStr ''core'')) = Inr t"
    and lib: "new_table demo_str fm_demo_header fm_demo_data (lib_options (fm_options (VStr ''core''))) = Inr lib"
    and ws: "table_layout len_width demo_str None lib = Inr (ws, None)"
    and ls: "data_lines len_width demo_str None lib = Inr ls"
    and fl: "fm_data_lines t = ls[1 := own_sep (fm_options (VStr ''core'')) (ft_header t) ws]"
    using fm_table_prints_like_library [of fm_demo_header fm_demo_data demo_str "fm_options (VStr ''core'')" None]
    by (auto simp: fm_demo_header_def fm_demo_data_def)
  have "(case new_table demo_str fm_demo_header fm_demo_data (lib_options (fm_options (VStr ''core''))) of
      Inl _ \<Rightarrow> False
    | Inr lib \<Rightarrow> table_layout len_width demo_str None lib = Inr ([7, 8], None) \<and>
        (case data_lines len_width demo_str None lib of
           Inl _ \<Rightarrow> False | Inr ls \<Rightarrow> length ls = 4 \<and> (\<forall>l \<in> set ls. len_width l = 23)))"
    by code_simp
  then have l: "ws = [7, 8]" "length ls = 4" "\<forall>l \<in> set ls. len_width l = 23"
    unfolding lib using ws ls by simp_all
  have "(case new_fm_table demo_str fm_demo_header fm_demo_data (fm_options (VStr ''core'')) of
      Inl _ \<Rightarrow> False
    | Inr t \<Rightarrow> own_sep (fm_options (VStr ''core'')) (ft_header t) [7, 8] = spaces 4 @ ''-------    ----    '')"
    by code_simp
  then show ?thesis using t fl l unfolding t by auto
qed

text \<open>
  A row that misses two cells is given one and prints short; and a title that is no string
  makes printing raise, where the library's table prints both.
\<close>

lemma fm_short_row_stays_short:
  "(case new_fm_table demo_str [VStr ''a'', VStr ''b'', VStr ''c''] [[VStr ''x'']] (fm_options (VBool True)) of
      Inl e \<Rightarrow> False
    | Inr t \<Rightarrow> map length (ft_rows t) = [3, 2] \<and>
        fm_str demo_str t = Inl (PyExc TypeErrorC ''object has no len()'')) \<and>
   (case new_table demo_str [VStr ''a'', VStr ''b'', VStr ''c''] [[VStr ''x'']] (lib_options (fm_options (VBool True))) of
      Inl e \<Rightarrow> False
    | Inr t \<Rightarrow> map length (tb_data t) = [3] \<and> (\<exists>s. print_table len_width demo_str None t = Inr s))"
proof -
  have "\<exists>s. print_table len_width demo_str None t = Inr s"
    if "new_table demo_str [VStr ''a'', VStr ''b'', VStr ''c''] [[VStr ''x'']] (lib_options (fm_options (VBool True))) = Inr t" for t
    using built_prints [OF built.made [OF that]] by blast
  moreover have "(case new_table demo_str [VStr ''a'', VStr ''b'', VStr ''c''] [[VStr ''x'']] (lib_options (fm_options (VBool True))) of
      Inl e \<Rightarrow> False | Inr t \<Rightarrow> map length (tb_data t) = [3])" by code_simp
  moreover have "(case new_fm_table demo_str [VStr ''a'', VStr ''b'', VStr ''c''] [[VStr ''x'']] (fm_options (VBool True)) of
      Inl e \<Rightarrow> False
    | Inr t \<Rightarrow> map length (ft_rows t) = [3, 2] \<and>
        fm_str demo_str t = Inl (PyExc TypeErrorC ''object has no len()''))" by code_simp
  ultimately show ?thesis by (auto split: sum.splits)
qed

end
