(* ===== verification/DemoManager.thy ===== *)
theory DemoManager
  imports DemoTable "HOL-Library.Log_Nat"
begin

text \<open>
  The service of the file manager demo (\<open>demos/file_manager/core/file_manager.py\<close>): what it
  read of the machine when it was made, and the tables it shows of it. What \<open>platform\<close> and
  \<open>psutil\<close> report are arguments. A size is an \<open>int\<close> within the range of a float, and the
  arithmetic of floats is that of the reals.
\<close>

section \<open>Sizes\<close>

definition size_names :: "string list" where
  "size_names = [''B'', ''KB'', ''MB'', ''GB'', ''TB'', ''PB'', ''EB'', ''ZB'', ''YB'']"

text \<open>\<open>int(math.floor(math.log(n, 1024)))\<close>.\<close>

definition size_index :: "nat \<Rightarrow> nat" where
  "size_index n = nat \<lfloor>log 1024 (real n)\<rfloor>"

text \<open>\<open>round\<close>: to the nearest, a tie to the even neighbour.\<close>

definition round_half_even :: "nat \<Rightarrow> nat \<Rightarrow> nat" where
  "round_half_even a b =
    (let q = a div b; r = a mod b
     in if 2 * r < b \<or> 2 * r = b \<and> even q then q else Suc q)"

definition digit :: "nat \<Rightarrow> char" where
  "digit n = char_of (48 + n)"

fun dec :: "nat \<Rightarrow> string" where
  "dec n = (if n < 10 then [digit n] else dec (n div 10) @ [digit (n mod 10)])"

declare dec.simps [simp del]

text \<open>A float that is a number of hundredths: at least one digit after the point, and no zero at the end.\<close>

definition hundredths_str :: "nat \<Rightarrow> string" where
  "hundredths_str k =
    dec (k div 100) @ CHR ''.'' # digit (k div 10 mod 10) #
      (if k mod 10 = 0 then [] else [digit (k mod 10)])"

definition convert_size :: "int \<Rightarrow> string res" where
  "convert_size size_bytes =
    (if size_bytes = 0 then Inr ''0B''
     else if size_bytes < 0 then Inl (PyExc ValueErrorC ''math domain error'')
     else
       let n = nat size_bytes; i = size_index n; s = round_half_even (100 * n) (1024 ^ i)
       in if length size_names \<le> i then Inl (PyExc IndexErrorC ''tuple index out of range'')
          else Inr (hundredths_str s @ size_names ! i))"

section \<open>What the manager knows\<close>

record os_info =
  oi_name :: pyval
  oi_version :: pyval
  oi_release :: pyval
  oi_node :: pyval
  oi_architecture :: pyval
  oi_full :: pyval

record partition =
  dp_device :: string
  dp_mountpoint :: string
  dp_fstype :: "string option"

record disk_usage =
  du_total :: int
  du_used :: int
  du_free :: int
  du_percent :: pyval

record snic =
  sn_address :: pyval
  sn_netmask :: pyval
  sn_broadcast :: pyval

record manager =
  mg_os :: os_info
  mg_workspace :: string
  mg_partitions :: "partition list"
  mg_net_addrs :: "(string, snic list) dict"
  mg_disk_list :: "pyval list"

definition new_manager ::
  "os_info \<Rightarrow> string \<Rightarrow> partition list \<Rightarrow> (string, snic list) dict \<Rightarrow> manager" where
  "new_manager os workspace partitions net =
    \<lparr>mg_os = os, mg_workspace = workspace, mg_partitions = partitions, mg_net_addrs = net,
     mg_disk_list = []\<rparr>"

definition env_keys :: "manager \<Rightarrow> string list" where
  "env_keys m = [''disk'', ''os'', ''network'']"

section \<open>The tables\<close>

text \<open>The descriptions are Chinese, outside the characters of the model: \<open>desc\<close> gives them.\<close>

definition os_rows :: "(nat \<Rightarrow> string) \<Rightarrow> os_info \<Rightarrow> pyval list list" where
  "os_rows desc os =
    [[VStr ''OS Name'', oi_name os, VStr (desc 0)],
     [VStr ''OS Version'', oi_version os, VStr (desc 1)],
     [VStr ''OS Release'', oi_release os, VStr (desc 2)],
     [VStr ''OS Node Name'', oi_node os, VStr (desc 3)],
     [VStr ''OS Architecture'', oi_architecture os, VStr (desc 4)],
     [VStr ''OS Full Info'', oi_full os, VStr (desc 5)]]"

definition display_os :: "(pyval \<Rightarrow> string) \<Rightarrow> (nat \<Rightarrow> string) \<Rightarrow> manager \<Rightarrow> fm_table res" where
  "display_os py_str desc m =
    new_fm_table py_str [VStr ''Env Info'', VStr ''Value'', VStr ''Description''] (os_rows desc (mg_os m))
      (fm_options (VStr ''OS Information''))"

text \<open>\<open>usage\<close> is \<open>psutil.disk_usage\<close>, which may raise.\<close>

definition usage_cells :: "(pyval \<Rightarrow> string) \<Rightarrow> disk_usage \<Rightarrow> string list res" where
  "usage_cells py_str u =
    (case convert_size (du_total u) of
       Inl e \<Rightarrow> Inl e
     | Inr all \<Rightarrow>
         (case convert_size (du_used u) of
            Inl e \<Rightarrow> Inl e
          | Inr used \<Rightarrow>
              map_sum id (\<lambda>free. [all, used, free, str_of py_str (du_percent u) @ ''%''])
                (convert_size (du_free u))))"

definition disk_row ::
  "(pyval \<Rightarrow> string) \<Rightarrow> (string \<Rightarrow> disk_usage res) \<Rightarrow> partition \<Rightarrow> pyval list res" where
  "disk_row py_str usage p =
    (let fs_type = (case dp_fstype p of None \<Rightarrow> ''None'' | Some f \<Rightarrow> f);
         row = (\<lambda>cells. map VStr ([dp_device p, dp_mountpoint p, fs_type] @ cells))
     in case (case usage (dp_mountpoint p) of Inl e \<Rightarrow> Inl e | Inr u \<Rightarrow> usage_cells py_str u) of
          Inr cells \<Rightarrow> Inr (row cells)
        | Inl e \<Rightarrow>
            if isinstance_exc e PermissionErrorC then Inr (row (replicate 4 ''Access denied'')) else Inl e)"

definition display_disks ::
  "(pyval \<Rightarrow> string) \<Rightarrow> (string \<Rightarrow> disk_usage res) \<Rightarrow> manager \<Rightarrow> fm_table res" where
  "display_disks py_str usage m =
    (case fold_res (\<lambda>p rows. map_sum id (\<lambda>row. rows @ [row]) (disk_row py_str usage p)) (mg_partitions m) [] of
       Inl e \<Rightarrow> Inl e
     | Inr rows \<Rightarrow>
         new_fm_table py_str
           (map VStr [''Device'', ''Mount Point'', ''File System Type'', ''Total'', ''Used'', ''Free'', ''Percent''])
           rows (fm_options (VStr ''Disks Information'')))"

definition net_rows :: "string \<times> snic list \<Rightarrow> pyval list list" where
  "net_rows e =
    [VStr (fst e), VStr [], VStr [], VStr []] #
      map (\<lambda>s. [VStr [], sn_address s, sn_netmask s, sn_broadcast s]) (snd e)"

definition display_network :: "(pyval \<Rightarrow> string) \<Rightarrow> manager \<Rightarrow> fm_table res" where
  "display_network py_str m =
    new_fm_table py_str (map VStr [''Interface Name'', ''Address'', ''Netmask'', ''Broadcast''])
      (concat (map net_rows (mg_net_addrs m))) (fm_options (VStr ''Network Interface Information''))"

section \<open>Sizes read back\<close>

definition digit_value :: "char \<Rightarrow> nat" where
  "digit_value c = of_char c - 48"

definition dec_value :: "string \<Rightarrow> nat" where
  "dec_value s = foldl (\<lambda>a c. 10 * a + digit_value c) 0 s"

text \<open>The number of hundredths before the unit, and the unit.\<close>

definition read_size :: "string \<Rightarrow> nat \<times> string" where
  "read_size s =
    (let whole = takeWhile is_digit s;
         rest = drop (Suc (length whole)) s;
         frac = takeWhile is_digit rest
     in (100 * dec_value whole + (if length frac = 1 then 10 * dec_value frac else dec_value frac),
         dropWhile is_digit rest))"

lemma of_char_digit: "n < 10 \<Longrightarrow> of_char (digit n) = 48 + n"
  by (simp add: digit_def)

lemma digit_facts [simp]:
  assumes "n < 10" shows "is_digit (digit n)" "digit_value (digit n) = n"
  using assms by (simp_all add: in_range_def digit_value_def of_char_digit)

lemma dec_value_dec: "dec_value (dec n) = n \<and> (\<forall>c \<in> set (dec n). is_digit c)"
proof (induction n rule: dec.induct)
  case (1 n)
  show ?case
  proof (cases "n < 10")
    case True
    then show ?thesis by (subst (1 2) dec.simps) (simp add: dec_value_def)
  next
    case False
    then show ?thesis using 1 by (subst (1 2) dec.simps) (simp add: dec_value_def)
  qed
qed

lemma takeWhile_stop: "\<forall>c \<in> set a. P c \<Longrightarrow> \<not> P x \<Longrightarrow> takeWhile P (a @ x # b) = a"
  by (induction a) simp_all

lemma read_hundredths:
  assumes "u \<noteq> []" "\<not> is_digit (hd u)"
  shows "read_size (hundredths_str k @ u) = (k, u)"
proof -
  obtain x us where u: "u = x # us" "\<not> is_digit x" using assms by (cases u) auto
  define frac where "frac = digit (k div 10 mod 10) # (if k mod 10 = 0 then [] else [digit (k mod 10)])"
  have s: "hundredths_str k @ u = dec (k div 100) @ CHR ''.'' # (frac @ x # us)"
    by (simp add: hundredths_str_def frac_def u(1))
  have w: "takeWhile is_digit (hundredths_str k @ u) = dec (k div 100)"
    unfolding s by (rule takeWhile_stop) (use dec_value_dec in \<open>auto simp: in_range_def\<close>)
  have "\<forall>c \<in> set frac. is_digit c" by (simp add: frac_def)
  then have f: "takeWhile is_digit (frac @ x # us) = frac" "dropWhile is_digit (frac @ x # us) = x # us"
    using u(2) by (simp_all add: takeWhile_stop dropWhile_append3)
  have d: "drop (Suc (length (dec (k div 100)))) (hundredths_str k @ u) = frac @ x # us" by (simp add: s)
  have v: "100 * (k div 100) + (if length frac = 1 then 10 * dec_value frac else dec_value frac) = k"
  proof -
    have "k div 100 * 10 + k div 10 mod 10 = k div 10"
      using div_mult_mod_eq [of "k div 10" 10] by (simp add: div_mult2_eq [symmetric])
    then have "100 * (k div 100) + 10 * (k div 10 mod 10) + k mod 10 = k"
      using div_mult_mod_eq [of k 10] by linarith
    then show ?thesis by (simp add: frac_def dec_value_def)
  qed
  show ?thesis
    unfolding read_size_def Let_def w d f using v by (simp add: dec_value_dec u(1))
qed

section \<open>A printed size is close to the size\<close>

lemma size_index_floorlog: "size_index n = floorlog 1024 n - 1"
  by (simp add: size_index_def floorlog_def log_def)

lemma size_index_rec [code]: "size_index n = (if n < 1024 then 0 else Suc (size_index (n div 1024)))"
  unfolding size_index_floorlog by (subst compute_floorlog) (simp add: compute_floorlog)

lemma size_index_bounds:
  assumes "0 < n" shows "1024 ^ size_index n \<le> n" "n < 1024 ^ Suc (size_index n)"
proof -
  have "floorlog 1024 n = Suc (size_index n)"
    using assms by (simp add: size_index_def floorlog_def)
  then show "1024 ^ size_index n \<le> n" "n < 1024 ^ Suc (size_index n)"
    using floorlog_bounds [of n 1024] assms by simp_all
qed

lemma round_half_even_close:
  assumes "0 < b" shows "2 * round_half_even a b * b \<le> 2 * a + b" "2 * a \<le> 2 * round_half_even a b * b + b"
proof -
  define q r where "q = a div b" and "r = a mod b"
  have a: "a = q * b + r" "r < b" using assms by (simp_all add: q_def r_def)
  have "round_half_even a b = q \<and> 2 * r \<le> b \<or> round_half_even a b = Suc q \<and> b \<le> 2 * r"
    unfolding round_half_even_def Let_def q_def [symmetric] r_def [symmetric] by auto
  then show "2 * round_half_even a b * b \<le> 2 * a + b" "2 * a \<le> 2 * round_half_even a b * b + b"
    using a(2) unfolding a(1) by (auto simp: add_mult_distrib add_mult_distrib2)
qed

lemma size_name_unit: "i < length size_names \<Longrightarrow> size_names ! i \<noteq> [] \<and> \<not> is_digit (hd (size_names ! i))"
proof -
  have "\<forall>u \<in> set size_names. u \<noteq> [] \<and> \<not> is_digit (hd u)" by code_simp
  then show "i < length size_names \<Longrightarrow> ?thesis" by auto
qed

lemma size_index_less: "0 < n \<Longrightarrow> n < 1024 ^ m \<Longrightarrow> size_index n < m"
  using size_index_bounds(1) [of n] power_less_imp_less_exp [of "1024::nat" "size_index n" m] by linarith

lemma size_index_ge:
  assumes "1024 ^ m \<le> n" shows "m \<le> size_index n"
proof -
  have "0 < (1024::nat) ^ m" by simp
  then have "0 < n" using assms by linarith
  then show ?thesis
    using assms size_index_bounds(2) [of n] power_less_imp_less_exp [of "1024::nat" m "Suc (size_index n)"] by linarith
qed

lemma hundredths_range:
  fixes P n k :: nat
  assumes "0 < P" "P \<le> n" "n < 1024 * P" "2 * k * P \<le> 200 * n + P" "200 * n \<le> 2 * k * P + P"
  shows "100 \<le> k" "k \<le> 102400"
proof -
  have "199 * P \<le> (2 * k) * P" "(2 * k) * P < 204801 * P" using assms(2-5) by linarith+
  then have "199 \<le> 2 * k" "2 * k < 204801" using assms(1) unfolding mult_le_cancel2 mult_less_cancel2 by simp_all
  then show "100 \<le> k" "k \<le> 102400" by simp_all
qed

text \<open>A size is shown in its unit, to the nearest hundredth. A positive size below 1024 to the
  ninth is shown with a number of hundredths that reads back and is within half a hundredth of
  the size in the greatest unit it reaches, between 1.0 and 1024.0; a larger one has no unit and
  raises.\<close>

theorem convert_size_close:
  assumes "0 < n"
  shows "if n < 1024 ^ 9
    then \<exists>s k i. convert_size (int n) = Inr s \<and> i < 9 \<and> read_size s = (k, size_names ! i) \<and>
      1024 ^ i \<le> n \<and> n < 1024 ^ Suc i \<and> 100 \<le> k \<and> k \<le> 102400 \<and>
      2 * k * 1024 ^ i \<le> 200 * n + 1024 ^ i \<and> 200 * n \<le> 2 * k * 1024 ^ i + 1024 ^ i
    else convert_size (int n) = Inl (PyExc IndexErrorC ''tuple index out of range'')"
proof -
  define i where "i = size_index n"
  define k where "k = round_half_even (100 * n) (1024 ^ i)"
  have len: "length size_names = 9" by (simp add: size_names_def)
  have b: "1024 ^ i \<le> n" "n < 1024 ^ Suc i" using size_index_bounds [OF assms] by (simp_all add: i_def)
  have c: "2 * k * 1024 ^ i \<le> 200 * n + 1024 ^ i" "200 * n \<le> 2 * k * 1024 ^ i + 1024 ^ i"
    using round_half_even_close [of "1024 ^ i" "100 * n"] by (simp_all add: k_def)
  have k: "100 \<le> k" "k \<le> 102400"
    using hundredths_range [of "1024 ^ i" n k] b c by simp_all
  show ?thesis
  proof (cases "n < 1024 ^ 9")
    case True
    then have "i < length size_names" using size_index_less [OF assms] len by (simp add: i_def)
    then have "convert_size (int n) = Inr (hundredths_str k @ size_names ! i)"
      "read_size (hundredths_str k @ size_names ! i) = (k, size_names ! i)"
      using assms read_hundredths size_name_unit by (simp_all add: convert_size_def Let_def k_def i_def)
    then show ?thesis using True b c k \<open>i < length size_names\<close> len by auto
  next
    case False
    then have "9 \<le> i" using size_index_ge [of 9 n] by (simp add: i_def)
    then show ?thesis using False assms len by (simp add: convert_size_def Let_def i_def)
  qed
qed

lemma convert_size_close_witness:
  "\<exists>s k i. convert_size 1536 = Inr s \<and> read_size s = (k, size_names ! i) \<and> i < 9 \<and> 1024 ^ i \<le> (1536 :: nat) \<and>
    2 * k * 1024 ^ i \<le> 200 * 1536 + 1024 ^ i"
proof -
  have n: "(0 :: nat) < 1536" "(1536 :: nat) < 1024 ^ 9" "int 1536 = 1536" by simp_all
  show ?thesis using convert_size_close [OF n(1)] unfolding if_P [OF n(2)] n(3) by blast
qed

lemmas size_eval = convert_size_def size_index_rec round_half_even_def hundredths_str_def dec.simps digit_def
  size_names_def Let_def

lemma convert_size_examples:
  "convert_size 1536 = Inr ''1.5KB''" "convert_size 1023 = Inr ''1023.0B''"
  by (simp_all add: size_eval char_of_def [symmetric] del: One_nat_def) (code_simp+)

section \<open>The table of the disks\<close>

lemma raw_pad_cell [simp]: "raw (pad_cell n c) = raw c"
  by (cases c) simp_all

lemma pad_row_raw: "length row \<le> length ws \<Longrightarrow> map raw (pad_row ws row) = map raw row"
  by (induction row arbitrary: ws; case_tac ws) (simp_all add: pad_row_def)

lemma new_fm_table_full:
  assumes "\<forall>row \<in> set data. length row = length header"
  shows "\<exists>t. new_fm_table p header data o1 = Inr t \<and>
    map (map raw) (ft_rows t) = map (\<lambda>v. capitalize (str_of p v)) header # map (map (str_of p)) data \<and>
    ft_title t = ft_title o1"
proof -
  let ?hs = "fm_format_header p header"
  have pd: "map (padding_row (length header)) data = data"
    using assms by (intro map_idI) (simp add: padding_row_def)
  obtain ws where ws: "new_fm_table p header data o1 =
      Inr (o1\<lparr>ft_header := ?hs, ft_rows := map (pad_row ws) (merge_data p (ft_header_seq o1) ?hs data)\<rparr>)"
    "length ws = length header"
    by (rule new_fm_table_total [of p header data o1]) (simp add: pd)
  have "length row \<le> length ws" if "row \<in> set (merge_data p (ft_header_seq o1) ?hs data)" for row
    using that assms ws(2) by (auto simp: merge_data_def fm_format_header_def)
  then have "map (map raw) (map (pad_row ws) (merge_data p (ft_header_seq o1) ?hs data)) =
      map (map raw) (merge_data p (ft_header_seq o1) ?hs data)"
    by (simp add: pad_row_raw)
  then show ?thesis using ws(1) by (simp add: merged_raw fm_format_header_def)
qed

lemma fold_append_rows:
  "fold_res (\<lambda>p rows. map_sum id (\<lambda>row. rows @ [row]) (f p)) ps acc =
    (case List.find (\<lambda>p. \<exists>e. f p = Inl e) ps of
       Some p \<Rightarrow> Inl (projl (f p)) | None \<Rightarrow> Inr (acc @ map (\<lambda>p. projr (f p)) ps))"
proof (induction ps arbitrary: acc)
  case (Cons p ps)
  then show ?case by (cases "f p") (auto split: option.split)
qed simp

definition denied_row :: "partition \<Rightarrow> string list" where
  "denied_row p = [dp_device p, dp_mountpoint p, case dp_fstype p of None \<Rightarrow> ''None'' | Some f \<Rightarrow> f,
    ''Access denied'', ''Access denied'', ''Access denied'', ''Access denied'']"

lemma usage_cells_length: "usage_cells p u = Inr cells \<Longrightarrow> length cells = 4"
  by (cases "convert_size (du_total u)"; cases "convert_size (du_used u)"; cases "convert_size (du_free u)")
    (auto simp: usage_cells_def)

lemma disk_row_length: "disk_row p usage d = Inr row \<Longrightarrow> length row = 7"
  by (cases "usage (dp_mountpoint d)"; cases "usage_cells p (projr (usage (dp_mountpoint d)))")
    (auto simp: disk_row_def Let_def dest: usage_cells_length split: if_splits)

text \<open>The table of the disks has one row per partition. Unless the usage of some partition
  raises something else than a \<open>PermissionError\<close>, or has a size without a unit, the table is
  made, and below its header its rows are those of the partitions, in their order, where a
  refused one reads \<open>Access denied\<close>; otherwise the first such exception is raised.\<close>

theorem disk_table_rows:
  assumes "find (\<lambda>d. \<exists>e. disk_row py_str usage d = Inl e) (mg_partitions m) = r"
  shows "case r of
      Some d \<Rightarrow> \<exists>e. disk_row py_str usage d = Inl e \<and> \<not> isinstance_exc e PermissionErrorC \<and>
        display_disks py_str usage m = Inl e
    | None \<Rightarrow> \<exists>t. display_disks py_str usage m = Inr t \<and>
        list_all2 (\<lambda>d row. \<exists>vs. disk_row py_str usage d = Inr vs \<and> row = map (str_of py_str) vs \<and>
            (\<forall>e. usage (dp_mountpoint d) = Inl e \<longrightarrow> row = denied_row d))
          (mg_partitions m) (tl (map (map raw) (ft_rows t)))"
proof (cases r)
  case None
  let ?row = "\<lambda>d. projr (disk_row py_str usage d)"
  let ?hs = "map VStr [''Device'', ''Mount Point'', ''File System Type'', ''Total'', ''Used'', ''Free'', ''Percent'']"
  have row: "disk_row py_str usage d = Inr (?row d)" if "d \<in> set (mg_partitions m)" for d
    using assms None that by (cases "disk_row py_str usage d") (auto simp: find_None_iff)
  then have "\<forall>r \<in> set (map ?row (mg_partitions m)). length r = length ?hs"
    using disk_row_length [OF row] by simp
  from new_fm_table_full [OF this, of py_str "fm_options (VStr ''Disks Information'')"] obtain t where
    t: "new_fm_table py_str ?hs (map ?row (mg_partitions m)) (fm_options (VStr ''Disks Information'')) = Inr t"
    "tl (map (map raw) (ft_rows t)) = map (map (str_of py_str)) (map ?row (mg_partitions m))" by auto
  have denied: "map (str_of py_str) (?row d) = denied_row d"
    if "d \<in> set (mg_partitions m)" "usage (dp_mountpoint d) = Inl e" for d e
    using row [OF that(1)] that(2)
    by (auto simp: disk_row_def denied_row_def Let_def str_of_def numeral_eq_Suc split: if_splits option.splits)
  have "list_all2 (\<lambda>d row. \<exists>vs. disk_row py_str usage d = Inr vs \<and> row = map (str_of py_str) vs \<and>
      (\<forall>e. usage (dp_mountpoint d) = Inl e \<longrightarrow> row = denied_row d))
    (mg_partitions m) (map (\<lambda>d. map (str_of py_str) (?row d)) (mg_partitions m))"
    unfolding list_all2_map2 using row denied by (intro list.rel_refl_strong) blast
  moreover have "display_disks py_str usage m = Inr t"
    using t(1) assms None by (simp add: display_disks_def fold_append_rows)
  ultimately show ?thesis using t(2) None by (auto simp: comp_def)
next
  case (Some d)
  then obtain e where e: "disk_row py_str usage d = Inl e"
    using assms by (auto simp: find_Some_iff)
  then have "\<not> isinstance_exc e PermissionErrorC"
    by (auto simp: disk_row_def Let_def split: sum.splits if_splits)
  then show ?thesis using e assms Some by (simp add: display_disks_def fold_append_rows)
qed

definition demo_usage :: "string \<Rightarrow> disk_usage res" where
  "demo_usage mount =
    (if mount = ''/'' then Inr \<lparr>du_total = 1536, du_used = 1023, du_free = 0, du_percent = VStr ''66.6''\<rparr>
     else Inl (PyExc PermissionErrorC ''Permission denied''))"

definition demo_fm_manager :: manager where
  "demo_fm_manager =
    new_manager \<lparr>oi_name = VStr ''Linux'', oi_version = VStr ''1'', oi_release = VStr ''6'', oi_node = VStr ''host'',
                 oi_architecture = VNone, oi_full = VNone\<rparr> ''/srv''
      [\<lparr>dp_device = ''sda'', dp_mountpoint = ''/'', dp_fstype = Some ''ext4''\<rparr>,
       \<lparr>dp_device = ''sdb'', dp_mountpoint = ''/mnt'', dp_fstype = None\<rparr>] [] "

lemma demo_disk_rows:
  "map (disk_row demo_str demo_usage) (mg_partitions demo_fm_manager) =
    [Inr (map VStr [''sda'', ''/'', ''ext4'', ''1.5KB'', ''1023.0B'', ''0B'', ''66.6%'']),
     Inr (map VStr [''sdb'', ''/mnt'', ''None'', ''Access denied'', ''Access denied'', ''Access denied'', ''Access denied''])]"
proof -
  have "convert_size 0 = Inr ''0B''" by (simp add: convert_size_def)
  then show ?thesis
    by (simp add: demo_fm_manager_def new_manager_def disk_row_def demo_usage_def usage_cells_def convert_size_examples
        str_of_def numeral_eq_Suc)
qed

lemma disk_table_rows_witness:
  "\<exists>t. display_disks demo_str demo_usage demo_fm_manager = Inr t \<and>
    tl (map (map raw) (ft_rows t)) =
      [[''sda'', ''/'', ''ext4'', ''1.5KB'', ''1023.0B'', ''0B'', ''66.6%''],
       denied_row \<lparr>dp_device = ''sdb'', dp_mountpoint = ''/mnt'', dp_fstype = None\<rparr>]"
proof -
  have ps: "mg_partitions demo_fm_manager = [\<lparr>dp_device = ''sda'', dp_mountpoint = ''/'', dp_fstype = Some ''ext4''\<rparr>,
      \<lparr>dp_device = ''sdb'', dp_mountpoint = ''/mnt'', dp_fstype = None\<rparr>]"
    by (simp add: demo_fm_manager_def new_manager_def)
  then have n: "find (\<lambda>d. \<exists>e. disk_row demo_str demo_usage d = Inl e) (mg_partitions demo_fm_manager) = None"
    using demo_disk_rows by simp
  have u: "\<exists>e. demo_usage ''/mnt'' = Inl e" by (simp add: demo_usage_def)
  show ?thesis
    using disk_table_rows [OF n] demo_disk_rows u unfolding ps
    by (auto simp: list_all2_Cons1 str_of_def)
qed

end
