(* ===== verification/DemoConsole.thy ===== *)
theory DemoConsole
  imports DemoManager
begin

text \<open>
  The commands and the console of the file manager demo (\<open>demos/file_manager/commands\<close>,
  \<open>demos/file_manager/consoles\<close> and \<open>demos/file_manager/__init__.py\<close>): a command table made
  from a class's members, validators that check a line while it is typed, and a loop that runs
  accepted lines. A run is what it prints and hands to the shell, and how it ends.
\<close>

section \<open>Commands\<close>

definition fm_command_style :: "string \<Rightarrow> command_style \<Rightarrow> string" where
  "fm_command_style command_name style =
    (if style = NONE then command_name
     else if style = LOWERCASE then map lower_char command_name
     else if style = UPPERCASE then map upper_char command_name
     else
       let command_name = dash_caps (dash_words command_name)
       in if style = POWERSHELL then command_name else map lower_char command_name)"

datatype fm_completer_class = EnvCompleter
datatype fm_validator_class = NoneArgumentValidator | EnvValidator

record fm_info =
  fi_func_name :: string
  fi_description :: string
  fi_completer :: "fm_completer_class option"
  fi_validator :: "fm_validator_class option"
  fi_alias :: "string list"

definition new_fm_info ::
  "string \<Rightarrow> string \<Rightarrow> fm_completer_class option \<Rightarrow> fm_validator_class option \<Rightarrow> alias_arg \<Rightarrow> fm_info" where
  "new_fm_info func_name description completer validator alias =
    \<lparr>fi_func_name = func_name, fi_description = description, fi_completer = completer,
     fi_validator = validator,
     fi_alias = (case alias of NoAlias \<Rightarrow> [] | OneAlias a \<Rightarrow> [a] | Aliases as \<Rightarrow> as | OtherAlias \<Rightarrow> [])\<rparr>"

text \<open>A method: which one it is, the number of its parameters with \<open>self\<close>, and its \<open>info\<close>.\<close>

datatype fm_body = RunQuit | RunHelp | RunEnv | OtherMethod nat

record fm_func =
  ff_body :: fm_body
  ff_params :: nat
  ff_info :: "fm_info option"

definition fm_register_command ::
  "string \<Rightarrow> string \<Rightarrow> alias_arg \<Rightarrow> command_style \<Rightarrow> fm_completer_class option \<Rightarrow> fm_validator_class option
   \<Rightarrow> fm_func \<Rightarrow> fm_func" where
  "fm_register_command command_name description alias style completer validator f =
    f\<lparr>ff_info := Some (new_fm_info (fm_command_style command_name style) description completer validator alias)\<rparr>"

definition quit_func :: fm_func where
  "quit_func =
    fm_register_command ''quit'' ''Quit Console'' (OneAlias ''exit'') LOWERCASE None (Some NoneArgumentValidator)
      \<lparr>ff_body = RunQuit, ff_params = 1, ff_info = None\<rparr>"

definition help_func :: fm_func where
  "help_func =
    fm_register_command ''help'' ''Display help information'' (Aliases [''?'']) LOWERCASE None
      (Some NoneArgumentValidator) \<lparr>ff_body = RunHelp, ff_params = 1, ff_info = None\<rparr>"

definition env_func :: fm_func where
  "env_func =
    fm_register_command ''env'' ''Display env information'' (Aliases []) LOWERCASE (Some EnvCompleter)
      (Some EnvValidator) \<lparr>ff_body = RunEnv, ff_params = 2, ff_info = None\<rparr>"

text \<open>The functions among the members of \<open>RootCommands\<close>, as \<open>dir\<close> orders them.\<close>

definition root_members :: "(string \<times> fm_func) list" where
  "root_members =
    [(''__init__'', \<lparr>ff_body = OtherMethod 0, ff_params = 2, ff_info = None\<rparr>),
     (''_collect_completer_and_validator'', \<lparr>ff_body = OtherMethod 1, ff_params = 2, ff_info = None\<rparr>),
     (''_get_funcs'', \<lparr>ff_body = OtherMethod 2, ff_params = 1, ff_info = None\<rparr>),
     (''_init_funcs'', \<lparr>ff_body = OtherMethod 3, ff_params = 1, ff_info = None\<rparr>),
     (''_map_components'', \<lparr>ff_body = OtherMethod 4, ff_params = 5, ff_info = None\<rparr>),
     (''run_env'', env_func), (''run_help'', help_func), (''run_quit'', quit_func)]"

section \<open>The command table\<close>

text \<open>\<open>GeneralValidator\<close> keeps the function whose arguments it checks; a completer keeps its words.\<close>

datatype fm_validator = DummyValidator | FuncValidator fm_validator_class fm_func

record fm_commands =
  fc_completers :: "(string, string list option) dict"
  fc_validators :: "(string, fm_validator) dict"
  fc_funcs :: "(string, fm_func) dict"
  fc_enable_undefined :: bool

definition get_funcs :: "(string \<times> fm_func) list \<Rightarrow> fm_func list" where
  "get_funcs mems = map snd (filter (\<lambda>(name, f). take 1 name \<noteq> ''_'' \<and> ff_info f \<noteq> None) mems)"

definition make_completer :: "manager \<Rightarrow> fm_completer_class \<Rightarrow> string list" where
  "make_completer service c = (case c of EnvCompleter \<Rightarrow> env_keys service)"

definition fm_map_components ::
  "manager \<Rightarrow> fm_func \<Rightarrow> fm_completer_class option \<Rightarrow> fm_validator_class option \<Rightarrow> string
   \<Rightarrow> fm_commands \<Rightarrow> fm_commands" where
  "fm_map_components service f completer validator name b =
    b\<lparr>fc_funcs := dict_set name f (fc_funcs b),
      fc_completers := dict_set name (map_option (make_completer service) completer) (fc_completers b),
      fc_validators := dict_set name
        (case validator of None \<Rightarrow> DummyValidator | Some v \<Rightarrow> FuncValidator v f) (fc_validators b)\<rparr>"

definition collect_func :: "manager \<Rightarrow> fm_func \<Rightarrow> fm_commands \<Rightarrow> fm_commands" where
  "collect_func service f b =
    (case ff_info f of
       None \<Rightarrow> b
     | Some i \<Rightarrow>
         fold (fm_map_components service f (fi_completer i) (fi_validator i)) (fi_alias i)
           (fm_map_components service f (fi_completer i) (fi_validator i) (fi_func_name i) b))"

text \<open>The console is given by its service; \<open>None\<close> is no console.\<close>

definition new_fm_commands :: "manager option \<Rightarrow> (string \<times> fm_func) list \<Rightarrow> fm_commands res" where
  "new_fm_commands console mems =
    (case console of
       None \<Rightarrow> Inl (PyExc ConsoleInitExceptionC ''Console is None'')
     | Some service \<Rightarrow>
         Inr (fold (collect_func service) (get_funcs mems)
           \<lparr>fc_completers = [], fc_validators = [], fc_funcs = [], fc_enable_undefined = False\<rparr>))"

section \<open>Validators\<close>

definition none_argument_validate :: "fm_func \<Rightarrow> string \<Rightarrow> unit res" where
  "none_argument_validate f txt =
    (case shlex_split txt of
       Inl e \<Rightarrow> Inl e
     | Inr args \<Rightarrow>
         if int (length args) \<noteq> int (ff_params f) - 1
         then Inl (PyExc ValidationErrorC ''Too many arguments!'') else Inr ())"

definition env_validate :: "fm_func \<Rightarrow> string \<Rightarrow> unit res" where
  "env_validate f txt =
    (case shlex_split txt of
       Inl e \<Rightarrow> Inl e
     | Inr args \<Rightarrow>
         if args = [] then Inl (PyExc ValidationErrorC ''At least one parameter is missing'')
         else if ff_params f - 1 < length args
         then Inl (PyExc ValidationErrorC ''Too many parameter to get'') else Inr ())"

definition fm_run_validator :: "fm_validator \<Rightarrow> string \<Rightarrow> unit res" where
  "fm_run_validator v txt =
    (case v of
       DummyValidator \<Rightarrow> Inr ()
     | FuncValidator NoneArgumentValidator f \<Rightarrow> none_argument_validate f txt
     | FuncValidator EnvValidator f \<Rightarrow> env_validate f txt)"

definition fm_validate :: "fm_commands \<Rightarrow> string \<Rightarrow> unit res" where
  "fm_validate b txt =
    (case shlex_split (py_strip txt) of
       Inl e \<Rightarrow> Inl e
     | Inr [] \<Rightarrow> Inr ()
     | Inr (cmd # args) \<Rightarrow>
         (case map_of (fc_validators b) cmd of
            Some v \<Rightarrow> fm_run_validator v (join_sp args)
          | None \<Rightarrow>
              if \<not> fc_enable_undefined b then Inl (PyExc ValidationErrorC ''Bad command'') else Inr ()))"

section \<open>Running commands\<close>

text \<open>What a run prints, and what it hands to \<open>os.system\<close>.\<close>

datatype fm_output = OutText string | OutTable fm_table | Shell string

type_synonym fm_run_result = "fm_output list \<times> unit res"

text \<open>What the machine reports while commands run.\<close>

record fm_env =
  fe_py_str :: "pyval \<Rightarrow> string"
  fe_desc :: "nat \<Rightarrow> string"
  fe_usage :: "string \<Rightarrow> disk_usage res"

text \<open>The injected class: \<open>service\<close> is set before the original constructor runs.\<close>

record fm_console =
  fk_uid :: string
  fk_service :: manager
  fk_commands :: fm_commands

definition inject :: "manager \<Rightarrow> (manager \<Rightarrow> 'a \<Rightarrow> 'b) \<Rightarrow> 'a \<Rightarrow> 'b" where
  "inject service original_init args = original_init service args"

definition init_base_console ::
  "(manager option \<Rightarrow> fm_commands res) \<Rightarrow> manager \<Rightarrow> string \<Rightarrow> fm_console res" where
  "init_base_console init_commands service uid =
    map_sum id (\<lambda>b. \<lparr>fk_uid = uid, fk_service = service, fk_commands = b\<rparr>) (init_commands (Some service))"

definition root_commands :: "manager option \<Rightarrow> fm_commands res" where
  "root_commands console = new_fm_commands console root_members"

definition new_root_console :: "manager \<Rightarrow> string \<Rightarrow> fm_console res" where
  "new_root_console service uid = inject service (init_base_console root_commands) uid"

definition fm_run_quit :: fm_run_result where
  "fm_run_quit = ([], Inl (PyExc ConsoleExitC []))"

definition is_base_func :: "fm_func \<Rightarrow> bool" where
  "is_base_func f \<longleftrightarrow> ff_body f = RunQuit \<or> ff_body f = RunHelp"

definition fm_help_row :: "string \<times> fm_func \<Rightarrow> pyval list" where
  "fm_help_row e = [VStr (fst e), VStr (case ff_info (snd e) of None \<Rightarrow> [] | Some i \<Rightarrow> fi_description i)]"

text \<open>The rest of a run, after printing \<open>outs\<close>.\<close>

fun after_out :: "fm_output list \<Rightarrow> fm_run_result \<Rightarrow> fm_run_result" where
  "after_out outs (outs', r) = (outs @ outs', r)"

definition show_table :: "fm_table res \<Rightarrow> fm_run_result \<Rightarrow> fm_run_result" where
  "show_table t k = (case t of Inl e \<Rightarrow> ([], Inl e) | Inr t \<Rightarrow> after_out [OutTable t] k)"

definition fm_run_help :: "fm_env \<Rightarrow> fm_commands \<Rightarrow> fm_run_result" where
  "fm_run_help env b =
    (let header = map VStr [''Command'', ''Description''];
         base_funcs = map fm_help_row (filter (\<lambda>e. is_base_func (snd e)) (fc_funcs b));
         customer_funcs = map fm_help_row (filter (\<lambda>e. \<not> is_base_func (snd e)) (fc_funcs b));
         table = (\<lambda>rows title. new_fm_table (fe_py_str env) header rows (fm_options (VStr title)))
     in after_out [OutText []] (show_table (table base_funcs ''Core Commands'')
          (after_out [OutText []] (show_table (table customer_funcs ''Customer Commands'')
            ([OutText []], Inr ())))))"

definition fm_run_env :: "fm_env \<Rightarrow> manager \<Rightarrow> string \<Rightarrow> fm_run_result" where
  "fm_run_env env service env_key =
    after_out [OutText []]
      (let rest = ([OutText []], Inr ())
       in if env_key = ''disk'' then show_table (display_disks (fe_py_str env) (fe_usage env) service) rest
          else if env_key = ''os'' then show_table (display_os (fe_py_str env) (fe_desc env) service) rest
          else if env_key = ''network'' then show_table (display_network (fe_py_str env) service) rest
          else after_out [OutText []] rest)"

text \<open>Calling a method with positional arguments; a wrong number of them is a \<open>TypeError\<close>.\<close>

definition fm_call :: "fm_env \<Rightarrow> fm_console \<Rightarrow> fm_func \<Rightarrow> string list \<Rightarrow> fm_run_result" where
  "fm_call env c f args =
    (if Suc (length args) \<noteq> ff_params f
     then ([], Inl (PyExc TypeErrorC ''wrong number of arguments''))
     else case ff_body f of
            RunQuit \<Rightarrow> fm_run_quit
          | RunHelp \<Rightarrow> fm_run_help env (fk_commands c)
          | RunEnv \<Rightarrow> fm_run_env env (fk_service c) (hd args)
          | OtherMethod _ \<Rightarrow> ([], Inr ()))"

text \<open>The loop over the command table; the flag says whether a command was invoked.\<close>

fun run_matching ::
  "(fm_func \<Rightarrow> fm_run_result) \<Rightarrow> string \<Rightarrow> (string \<times> fm_func) list \<Rightarrow> bool \<Rightarrow> fm_output list \<times> bool res" where
  "run_matching call cmd [] invoked = ([], Inr invoked)"
| "run_matching call cmd ((name, f) # fs) invoked =
    (if cmd \<noteq> name then run_matching call cmd fs invoked
     else case call f of
            (outs, Inl e) \<Rightarrow> (outs, Inl e)
          | (outs, Inr _) \<Rightarrow> (let (outs', r) = run_matching call cmd fs True in (outs @ outs', r)))"

text \<open>\<open>cmd_invoke_miss\<close> of \<open>RootConsole\<close>.\<close>

definition root_invoke_miss :: "string \<Rightarrow> string list \<Rightarrow> fm_run_result" where
  "root_invoke_miss cmd args = ([Shell (join_sp (cmd # args))], Inr ())"

definition fm_run ::
  "(string \<Rightarrow> string list \<Rightarrow> fm_run_result) \<Rightarrow> fm_env \<Rightarrow> fm_console \<Rightarrow> string \<Rightarrow> fm_run_result" where
  "fm_run miss env c cmd =
    (case shlex_split cmd of
       Inl e \<Rightarrow> ([], Inl e)
     | Inr [] \<Rightarrow> ([], Inr ())
     | Inr (w # args) \<Rightarrow>
         (case run_matching (\<lambda>f. fm_call env c f args) w (fc_funcs (fk_commands c)) False of
            (outs, Inl e) \<Rightarrow> (outs, Inl e)
          | (outs, Inr invoked) \<Rightarrow> if \<not> invoked then after_out outs (miss w args) else (outs, Inr ())))"

definition root_execute :: "fm_env \<Rightarrow> fm_console \<Rightarrow> string \<Rightarrow> fm_run_result" where
  "root_execute = fm_run root_invoke_miss"

text \<open>
  \<open>start\<close>: the loop over what the prompt gives; without a further line it waits.
\<close>

fun fm_start :: "(string \<Rightarrow> fm_run_result) \<Rightarrow> bool \<Rightarrow> string res list \<Rightarrow> fm_output list \<times> unit res option" where
  "fm_start execute is_base [] = ([], None)"
| "fm_start execute is_base (p # ps) =
    (case (case p of Inl e \<Rightarrow> ([], Inl e) | Inr cmd \<Rightarrow> execute cmd) of
       (outs, Inr _) \<Rightarrow> (let (outs', r) = fm_start execute is_base ps in (outs @ outs', r))
     | (outs, Inl e) \<Rightarrow>
         if isinstance_exc e ConsoleExitC then
           (outs, Some (if is_base then Inr () else Inl (PyExc ConsoleExitC [])))
         else if isinstance_any e [SubConsoleExitC, KeyboardInterruptC, ValueErrorC] then (outs, Some (Inr ()))
         else (outs, Some (Inl e)))"

section \<open>Lines a validator accepts\<close>

lemma emit_mono:
  assumes "emit tok q r = Inr ts" "\<And>ts. r = Inr ts \<Longrightarrow> r' = Inr ts"
  shows "emit tok q r' = Inr ts"
  using assms by (cases r) (auto simp: emit_def split: if_splits)

lemma lex_trailing:
  "lex st tok q s = Inr ts \<Longrightarrow> \<forall>c \<in> set sp. lex_space c \<Longrightarrow> lex st tok q (s @ sp) = Inr ts"
proof (induction st tok q s arbitrary: ts rule: lex.induct)
  case (1 tok quoted)
  then show ?case
    using lex_spaces [of sp] by (cases sp) (auto simp: emit_def dropWhile_eq_Nil_conv [THEN iffD2])
next
  case (2 tok quoted)
  have "lex Blank [] False sp = Inr []"
    using 2(2) lex_spaces [of sp] by (simp add: dropWhile_eq_Nil_conv [THEN iffD2])
  then show ?case using 2 by (cases sp) (auto simp: emit_def)
next
  case (5 tok quoted c cs)
  show ?case
  proof (cases "lex_space c")
    case True
    have "emit tok quoted (lex Blank [] False (cs @ sp)) = Inr ts"
      by (rule emit_mono [of _ _ "lex Blank [] False cs"]) (use 5 True in auto)
    then show ?thesis using True by simp
  qed (use 5 in \<open>auto split: if_splits\<close>)
next
  case (6 tok quoted c cs)
  show ?case
  proof (cases "lex_space c")
    case True
    have "emit tok quoted (lex Blank [] False (cs @ sp)) = Inr ts"
      by (rule emit_mono [of _ _ "lex Blank [] False cs"]) (use 6 True in auto)
    then show ?thesis using True by simp
  qed (use 6 in \<open>auto split: if_splits\<close>)
qed (auto split: if_splits)

lemma shlex_of_strip:
  assumes "\<forall>c \<in> set s. py_space c \<longrightarrow> lex_space c" and "shlex_split (py_strip s) = Inr ts"
  shows "shlex_split s = Inr ts"
proof -
  let ?l = "py_lstrip s"
  have l: "?l = py_strip s @ rev (takeWhile py_space (rev ?l))"
    unfolding py_strip_def py_rstrip_def by (metis rev_append rev_rev_ident takeWhile_dropWhile_id)
  have "set ?l \<subseteq> set s" by (simp add: py_lstrip_def set_dropWhile_subset)
  then have "\<forall>c \<in> set (rev (takeWhile py_space (rev ?l))). lex_space c"
    using assms(1) by (auto dest!: set_takeWhileD)
  then have "shlex_split ?l = Inr ts"
    using lex_trailing assms(2) unfolding shlex_split_def by (subst l) blast
  then show ?thesis using lex_lstrip [OF assms(1)] by (simp add: shlex_split_def)
qed

text \<open>The table of the root console.\<close>

definition root_table :: "manager \<Rightarrow> fm_commands" where
  "root_table service = projr (root_commands (Some service))"

lemma root_funcs:
  "fc_funcs (root_table service) =
    [(''env'', env_func), (''help'', help_func), (''?'', help_func), (''quit'', quit_func), (''exit'', quit_func)]"
  "fc_validators (root_table service) =
    [(''env'', FuncValidator EnvValidator env_func),
     (''help'', FuncValidator NoneArgumentValidator help_func), (''?'', FuncValidator NoneArgumentValidator help_func),
     (''quit'', FuncValidator NoneArgumentValidator quit_func), (''exit'', FuncValidator NoneArgumentValidator quit_func)]"
  "fc_enable_undefined (root_table service) = False"
  "fc_completers (root_table service) =
    [(''env'', Some [''disk'', ''os'', ''network'']), (''help'', None), (''?'', None), (''quit'', None), (''exit'', None)]"
  by code_simp+

lemma new_root_console_eq:
  "new_root_console service uid = Inr \<lparr>fk_uid = uid, fk_service = service, fk_commands = root_table service\<rparr>"
  by (simp add: new_root_console_def inject_def init_base_console_def root_table_def root_commands_def new_fm_commands_def)

lemma func_params: "ff_params env_func = 2" "ff_params help_func = 1" "ff_params quit_func = 1"
  by code_simp+

lemma run_matching_once:
  "distinct (map fst fs) \<Longrightarrow> run_matching call w fs st =
    (case map_of fs w of
       None \<Rightarrow> ([], Inr st) | Some f \<Rightarrow> (case call f of (outs, Inl e) \<Rightarrow> (outs, Inl e) | (outs, Inr _) \<Rightarrow> (outs, Inr True)))"
proof (induction fs arbitrary: st)
  case (Cons e fs)
  obtain name f where e: "e = (name, f)" by (cases e)
  show ?case
  proof (cases "w = name")
    case True
    then have "map_of fs w = None" using Cons.prems by (simp add: e map_of_eq_None)
    then show ?thesis using Cons True by (simp add: e split: prod.split sum.split)
  qed (use Cons e in simp)
qed simp

lemma fm_run_command:
  assumes "distinct (map fst (fc_funcs (fk_commands c)))" "shlex_split line = Inr (w # args)"
    and "map_of (fc_funcs (fk_commands c)) w = Some f"
  shows "fm_run miss env c line = fm_call env c f args"
  using assms by (simp add: fm_run_def run_matching_once split: prod.split sum.split)

lemma show_table_shell [simp]: "Shell s \<in> set (fst (show_table t k)) \<longleftrightarrow> (\<exists>x. t = Inr x) \<and> Shell s \<in> set (fst k)"
  by (cases k) (auto simp: show_table_def split: sum.split)

lemma after_out_fst [simp]: "fst (after_out outs k) = outs @ fst k"
  by (cases k) simp

lemma fm_call_shell: "Shell s \<notin> set (fst (fm_call env c f args))"
  by (auto simp: fm_call_def fm_run_quit_def fm_run_help_def fm_run_env_def Let_def split: fm_body.split)

lemma root_accepts:
  assumes "fm_validate (root_table sv) line = Inr ()" "shlex_split (py_strip line) = Inr (w # args)"
  shows "\<exists>f. map_of (fc_funcs (root_table sv)) w = Some f \<and>
    (\<exists>args'. shlex_split (join_sp args) = Inr args' \<and> Suc (length args') = ff_params f)"
proof -
  obtain v where v: "map_of (fc_validators (root_table sv)) w = Some v" "fm_run_validator v (join_sp args) = Inr ()"
    using assms by (auto simp: fm_validate_def root_funcs(3) split: option.splits)
  have one: "xs \<noteq> [] \<Longrightarrow> \<not> Suc 0 < length xs \<Longrightarrow> length xs = Suc 0" for xs :: "string list"
    by (cases xs) auto
  show ?thesis
  proof (cases "shlex_split (join_sp args)")
    case (Inr a)
    then show ?thesis
      using v one [of a] by (auto simp: root_funcs fm_run_validator_def none_argument_validate_def
          env_validate_def func_params split: if_splits)
  qed (use v in \<open>auto simp: root_funcs fm_run_validator_def none_argument_validate_def env_validate_def
    split: if_splits\<close>)
qed

text \<open>C39: an accepted line gets to the method of its first word. Take a line whose white space is all
  of the kind \<open>shlex\<close> separates at, and which the validator of the root console accepts. Running
  it does nothing, when it has no words, or calls the method registered for its first word with the
  other words; the call raises \<open>TypeError\<close> for a wrong number of them only if joining and splitting
  them again, as the validator does, changes them. \<open>os.system\<close> is not called.\<close>

theorem accepted_line_runs_command:
  assumes "new_root_console service uid = Inr c" and "fm_validate (fk_commands c) line = Inr ()"
    and "\<forall>x \<in> set line. py_space x \<longrightarrow> lex_space x"
  shows "\<exists>ts. shlex_split line = Inr ts \<and>
    (case ts of
       [] \<Rightarrow> root_execute env c line = ([], Inr ())
     | w # args \<Rightarrow> \<exists>f. map_of (fc_funcs (fk_commands c)) w = Some f \<and>
         root_execute env c line = fm_call env c f args \<and>
         (shlex_split (join_sp args) = Inr args \<longrightarrow> Suc (length args) = ff_params f)) \<and>
    (\<forall>s. Shell s \<notin> set (fst (root_execute env c line)))"
proof -
  have c: "fk_commands c = root_table service" using assms(1) by (auto simp: new_root_console_eq)
  obtain ts where ts: "shlex_split (py_strip line) = Inr ts"
    using assms(2) by (auto simp: fm_validate_def split: sum.splits)
  then have l: "shlex_split line = Inr ts" by (rule shlex_of_strip [OF assms(3)])
  show ?thesis
  proof (cases ts)
    case Nil
    then show ?thesis using l by (simp add: root_execute_def fm_run_def)
  next
    case (Cons w args)
    obtain f args' where f: "map_of (fc_funcs (root_table service)) w = Some f"
      "shlex_split (join_sp args) = Inr args'" "Suc (length args') = ff_params f"
      using root_accepts assms(2) ts Cons c by metis
    have "distinct (map fst (fc_funcs (fk_commands c)))" by (simp add: c root_funcs)
    then have "root_execute env c line = fm_call env c f args"
      using f(1) l unfolding root_execute_def c [symmetric] by (intro fm_run_command) (simp_all add: Cons)
    then show ?thesis using f l Cons by (auto simp: c fm_call_shell)
  qed
qed

definition demo_fm_env :: fm_env where
  "demo_fm_env = \<lparr>fe_py_str = demo_str, fe_desc = \<lambda>_. [], fe_usage = demo_usage\<rparr>"

definition demo_fm_console :: fm_console where
  "demo_fm_console = projr (new_root_console demo_fm_manager ''1'')"

lemma demo_fm_console_made: "new_root_console demo_fm_manager ''1'' = Inr demo_fm_console"
  by (simp add: demo_fm_console_def new_root_console_eq)

lemma accepted_line_runs_command_witness:
  "root_execute demo_fm_env demo_fm_console ''env network'' =
    fm_call demo_fm_env demo_fm_console env_func [''network'']"
proof -
  have v: "fm_validate (fk_commands demo_fm_console) ''env network'' = Inr ()"
    "shlex_split ''env network'' = Inr [''env'', ''network'']" by code_simp+
  have "\<forall>x \<in> set ''env network''. py_space x \<longrightarrow> lex_space x" by code_simp
  from accepted_line_runs_command [OF demo_fm_console_made v(1) this, of demo_fm_env] show ?thesis
    using v(2) by (auto simp: demo_fm_console_def new_root_console_eq root_funcs)
qed

text \<open>
  Where the two checks of a line differ. Joined again, an empty argument is gone, so the
  validator counts none; and a form feed at the end of a line is stripped by the validator but
  belongs to the word that runs, which no command has.
\<close>

lemma validator_misses_quoted_argument:
  "fm_validate (fk_commands demo_fm_console) ''quit \"\"'' = Inr () \<and>
   root_execute demo_fm_env demo_fm_console ''quit \"\"'' = ([], Inl (PyExc TypeErrorC ''wrong number of arguments''))"
  by code_simp

lemma stripped_space_reaches_shell:
  "fm_validate (fk_commands demo_fm_console) (''quit'' @ [CHR 0x0C]) = Inr () \<and>
   root_execute demo_fm_env demo_fm_console (''quit'' @ [CHR 0x0C]) = ([Shell (''quit'' @ [CHR 0x0C])], Inr ())"
  by code_simp

end
