(* ===== verification/Spec2Isabelle.thy ===== *)
theory Spec2Isabelle
  imports Packages Progress SessionFacts Callbacks Web Terminal ExampleApp ExecHarness Factory DemoConsole
begin

text \<open>
  A model of python-tty (\<open>src/src/python_tty\<close>) and what makes it correct.

  The program. python-tty builds command-line programs. Console classes and command classes
  register themselves through decorators; a console manager keeps a stack of consoles, prompts,
  and turns a line into an invocation of a command. Invocations become runs: the command
  executor runs their handlers, in the worker tasks of an asyncio loop or inline when no loop
  runs, and keeps the state, the future and the events of every run in a job store. Output of a
  command is an event of its run and reaches the terminal through a sink and the output router.
  Session managers, the RPC frontend and the web frontend are further clients of the executor;
  an audit sink records invocations, run states and events. The console factory builds and
  starts all of this, and the testing package discovers and runs single commands.

  Conventions. Classes are records and enumerations datatypes, with the source's names; a
  method is a function on the record of its object that returns the new record. A raised
  exception is the value \<open>Inl (PyExc class message)\<close> of \<open>'a res\<close>; messages keep the fixed
  part of a formatted text. Dictionaries are association lists in insertion order. Objects
  that several components share and change (run states, futures, cancel flags, queues) are
  addresses into heaps of the record that creates them. Clocks, random identifiers, running
  loops and the current loop are read from the record \<open>world\<close>. Locks that protect one
  operation make it one atomic function; code between two awaits of an event loop is one
  segment. User code is a parameter everywhere: command functions, handlers, validators,
  constructors. Integers are \<open>int\<close>, floats are \<open>real\<close>, strings are character lists, and letters
  change case as in ASCII.

  Theories, in the order of their imports.

  \<^item> \<open>Prelude\<close>: dictionaries, Python values, exceptions, the world; the locales \<open>keyed_store\<close>,
    \<open>invariant_system\<close> and \<open>monotone_system\<close>.
  \<^item> \<open>Models\<close>, \<open>Events\<close>, \<open>Config\<close>: \<open>executor/models.py\<close>, \<open>runtime/events.py\<close>,
    \<open>config/config.py\<close>.
  \<^item> \<open>EventBus\<close>: \<open>runtime/event_bus.py\<close>. The locale \<open>event_stream\<close> says what a subscriber may rely
    on; the bus and, in \<open>JobStore\<close>, the global subscriptions interpret it.
  \<^item> \<open>JobStore\<close>: \<open>runtime/jobs.py\<close>, with the invariant \<open>js_ok\<close> that every operation keeps.
  \<^item> \<open>RunContext\<close>: \<open>runtime/context.py\<close>, \<open>runtime/provider.py\<close>, \<open>runtime/router.py\<close>,
    \<open>audit/ui_logger.py\<close>.
  \<^item> \<open>Terminal\<close>: \<open>runtime/sinks.py\<close>, composed with the job store's subscriptions and the router.
  \<^item> \<open>AuditLog\<close>: \<open>audit/sink.py\<close>, its writer thread as a step relation, and closing with the
    join of that thread.
  \<^item> \<open>Executor\<close>: every method of \<open>executor/executor.py\<close> as a function, the worker loop in atomic
    segments. \<open>ExecSystem\<close>: the step relation that interleaves the segments with submissions,
    cancellations and publications of other threads, its invariant, and the properties of all
    reachable states. The outcome of a handler is arbitrary there. A worker's check of a run's
    status and the assignment that follows it (\<open>begin_run\<close>) are one segment, although the program
    holds no lock between them; \<open>cancel_within_begin_lost\<close> says what a cancel there does.
    \<open>Progress\<close>: the steps of the
    workers alone, and the measure they decrease.
  \<^item> \<open>Execution\<close>: contexts and command ids of \<open>executor/execution.py\<close>; \<open>Binding\<close>: its
    \<open>ExecutionBinding\<close> and the resolution of a command's definition.
  \<^item> \<open>SessionStore\<close>, \<open>SessionManager\<close>, \<open>SessionFacts\<close>, \<open>Callbacks\<close>: \<open>session/\<close>. The locale
    \<open>object_store\<close> is the contract of objects kept under ids; the session store interprets it.
  \<^item> \<open>Tokenizer\<close>, \<open>Commands\<close>, \<open>CommandFacts\<close>, \<open>Mixins\<close>: \<open>utils/tokenize.py\<close> and \<open>commands/\<close>.
  \<^item> \<open>TextTable\<close>, \<open>TableFacts\<close>: \<open>utils/table.py\<close>; the display width of a string is a parameter, and
    the laws used of it are the predicate \<open>char_widths\<close>, which the code's fallback satisfies.
  \<^item> \<open>ConsoleRegistry\<close>, \<open>ConsoleRegistryFacts\<close>, \<open>Consoles\<close>, \<open>ConsoleFacts\<close>: \<open>consoles/\<close>. The input of
    the console loop is a script of turns. \<open>Packages\<close>: \<open>consoles/loader.py\<close> and the lazy exports of
    \<open>__init__.py\<close> and \<open>executor/__init__.py\<close>.
  \<^item> \<open>Rpc\<close>, \<open>Meta\<close>, \<open>Web\<close>: \<open>frontends/rpc/\<close>, \<open>meta/\<close>, \<open>frontends/web/\<close>.
  \<^item> \<open>Factory\<close>: \<open>console_factory.py\<close>, which composes the executor, the callbacks, the sink, the
    consoles and the frontends. \<open>start_factory\<close> ends where the console loop begins, which is
    \<open>run_tty\<close>. A shutdown is its part before the waits, the conditions it waits for, and its part
    after them.
  \<^item> \<open>Testing\<close>, \<open>Harness\<close>, \<open>ExecHarness\<close>: \<open>testing/\<close>.
  \<^item> \<open>ExampleApp\<close>: the example application of \<open>commands/examples\<close> and \<open>consoles/examples\<close>, built with
    the decorators and run on typed lines. Its specification, \<open>progress_after\<close>, is a machine with
    two places.
  \<^item> \<open>DemoTable\<close>, \<open>DemoManager\<close>, \<open>DemoConsole\<close>: the application \<open>demos/file_manager\<close>, which has its
    own tables, commands and console.
\<close>

text \<open>
  What the theorems show. The properties carry the ids C1 to C40.

  \<^item> Safety of the executor, over every reachable state: workers under one lock key exclude each
    other and no wake-up is lost, a terminal state is final, a run moves along its life cycle, a
    handler's end settles run, future and waiters. Liveness: from every reachable state the workers
    work off what is queued and every run of it ends, in at most as many steps as the backlog
    counts.
  \<^item> Submission and waiting, with and without a loop; sessions: the concurrency limit, nested
    submissions, trimming; what an RPC request needs to run, and that the definition whose
    exposure is checked is the one that runs.
  \<^item> Events: numbered without gaps and kept in order within the history's limits, replayed and
    then followed by a subscriber, seen alike by streams, callbacks and the terminal.
  \<^item> Consoles and commands: the invariant of stack, parents, listeners and router at every prompt,
    the end of the loop and what a normal end releases, unique names, the tree, argument counts
    against Python's calling rule for methods without keyword parameters, quoting and tokenizing.
  \<^item> Rendering: built tables print; if no cell outside the wrapped column holds a newline their
    lines are aligned, and they fit the terminal if the least width of that column leaves room.
  \<^item> Lifecycle: the factory starts everything once and shuts everything down; the web socket's
    bound; a harness's run through an executor reports what the direct run reports.
  \<^item> Whole applications: the example application refines its machine, and lines its validators
    accept do not end it by an exception; in the demo an accepted line whose white space \<open>shlex\<close>
    separates at gets to the method of its first word and not to the shell, and sizes are shown to the nearest hundredth.
  \<^item> Errors: theorems and lemmas that state where the code does not do what it means to; the
    manifest's findings name them.

  Bounds and fuel. Functions recurse over data or by a measure; the sequence of turns, steps or
  actions is an argument of the definitions that need one, never a bound on them, and a loop that
  still waits at the end of its script gives \<open>None\<close>. Inline execution is partial only where a
  handler's awaitable never completes (\<open>None\<close>); the theorems about it say which handlers return.

  Locales. Each is interpreted on the model: \<open>keyed_store\<close> on dictionaries, \<open>event_stream\<close> on the
  bus and on global subscriptions, \<open>object_store\<close> on sessions, \<open>invariant_system\<close> on the audit
  writer, the executor and the web socket, and its extension \<open>monotone_system\<close> on the status of a
  run, whose order is an instance of \<open>order_bot\<close>. Properties about reachable states are these
  interpretations' facts.

  Not modelled. prompt_toolkit's drawing, prompting and completers, JSON and protobuf encoding,
  grpc's, FastAPI's and uvicorn's servers, TLS, files and streams of the audit sink, plain
  re-exports of packages, the bodies of imported modules beyond their effect on the registry. The
  thread pool calls a handler at once or refuses it when it was shut down; the number of its
  threads plays no part. A call whose wait timed out is only counted (\<open>ex_pool_calls\<close>): the effects
  it still has are steps of other threads.
\<close>

end
